theory Spec2Isabelle
  imports Complex_Main "HOL-Library.Multiset"
begin

section \<open>Python values and exceptions\<close>

text \<open>
  The simulator is Python 2. Every exception a modelled statement can raise is a value
  of \<open>py_error\<close>; a function that can raise returns \<open>py_error + 'a\<close>, with
  \<open>Inl\<close> for the exception. A failing \<^verbatim>\<open>assert\<close> is \<open>AssertionError\<close>.
\<close>

datatype py_error =
  IndexError | KeyError | ValueError | TypeError | AssertionError | AttributeError
  | ZeroDivisionError | OverflowError

definition ebind :: "py_error + 'a \<Rightarrow> ('a \<Rightarrow> py_error + 'b) \<Rightarrow> py_error + 'b" where
  "ebind m f = (case m of Inl e \<Rightarrow> Inl e | Inr x \<Rightarrow> f x)"

definition py_get :: "'a list \<Rightarrow> nat \<Rightarrow> py_error + 'a" where
  \<comment> \<open>\<^verbatim>\<open>xs[i]\<close> for a non-negative index.\<close>
  "py_get xs i = (if i < length xs then Inr (xs ! i) else Inl IndexError)"

definition py_lookup :: "('k \<rightharpoonup> 'v) \<Rightarrow> 'k \<Rightarrow> py_error + 'v" where
  \<comment> \<open>\<^verbatim>\<open>d[k]\<close> on a dict.\<close>
  "py_lookup d k = (case d k of None \<Rightarrow> Inl KeyError | Some v \<Rightarrow> Inr v)"

section \<open>Data model of \<^verbatim>\<open>Mote.py\<close>\<close>

text \<open>
  Motes refer to each other by object reference; the model uses the mote's \<^verbatim>\<open>id\<close>
  as the reference and keeps all motes in a store \<open>world\<close>. A cell is the dict built by
  \<^verbatim>\<open>_tsch_addCells\<close> and \<^verbatim>\<open>boot\<close>.
\<close>

type_synonym mote_id = nat

datatype direction = DIR_TX | DIR_RX | DIR_SHARED

record cell =
  ch :: nat
  dir :: direction
  neighbor :: "mote_id option"
  numTx :: nat
  numTxAck :: nat
  numRx :: nat
  history :: "nat list"
  rxDetectedCollision :: bool
  debug_canbeInterfered :: "nat list"
  debug_interference :: "nat list"
  debug_lockInterference :: "nat list"
  debug_cellCreatedAsn :: nat

text \<open>
  A packet is the dict built by \<^verbatim>\<open>_app_action_enqueueData\<close>,
  \<^verbatim>\<open>_app_action_enqueueControl\<close> and \<^verbatim>\<open>rxDone\<close>. The \<^verbatim>\<open>data\<close> of a CONTROL
  packet is the argument list of \<^verbatim>\<open>_app_schedule_sendControl\<close>:
  \<^verbatim>\<open>[cells, numCells, neighb, dir, type, self, usedSlots, value, seq]\<close>, read by index
  in \<^verbatim>\<open>rxDone\<close> and \<^verbatim>\<open>txDone\<close>.
\<close>

datatype pkt_type = DATA | CONTROL

datatype cells_arg = NoCells | CellDict "(nat \<times> nat) list" | TsList "nat list"

record control_data =
  d_cells :: cells_arg
  d_numCells :: "nat option"
  d_neighb :: mote_id
  d_dir :: "direction option"
  d_type :: string
  d_src :: mote_id
  d_usedSlots :: "nat list option"
  d_otf :: "string option"
  d_seq :: int

record packet =
  p_asn :: nat
  p_type :: pkt_type
  p_data :: "control_data option"
  p_dmac :: "mote_id option"
  p_smac :: "mote_id option"
  p_payload :: "int list"
  retriesLeft :: int

record pending =
  pt_type :: string
  pt_neighbor :: mote_id
  pt_cells :: "(nat \<times> nat \<times> direction) list option"
  pt_sequenceNum :: int

datatype stat_name =
  appGenerated | appRelayed | appReachesDagroot | droppedAppFailedEnqueueData
  | droppedAppFailedEnqueueControl | droppedQueueFull | rplTxDIO | rplRxDIO
  | rplChurnPrefParent | rplChurnRank | rplChurnParentSet | droppedNoRoute
  | droppedNoTxCells | otfAdd | otfRemove | transactionAborted | controlPacketsSent
  | controlPacketsReceived | topTxRelocatedCells | topTxRelocatedBundles
  | topRxRelocatedCells | droppedMacRetries

text \<open>
  Packets are mutable dicts shared between a queue and \<^verbatim>\<open>pktToSend\<close>; the mote keeps
  them in a store \<open>pkts\<close> from addresses to packet values, and queues hold addresses.
\<close>

type_synonym addr = nat

record mote =
  dagRoot :: bool
  preferredParent :: "mote_id option"
  sequenceNumberWithNeighbor :: "mote_id \<rightharpoonup> int"
  ignorePacket :: "nat list"
  transactionTimeout :: int
  transactionRetries :: int
  pendingTransaction :: "pending option"
  numCellsToNeighbors :: "mote_id \<rightharpoonup> int"
  numCellsFromNeighbors :: "mote_id \<rightharpoonup> int"
  macMinBE :: int
  macMaxBE :: int
  macBackoffNB :: int
  macMaxCSMABackoffs :: int
  backoffExponent :: int
  sendcontrolDelay :: int
  sendcontrolFailed :: bool
  sendControlFailed :: bool
  requestTriggered :: "mote_id \<rightharpoonup> bool"
  pkts :: "addr \<Rightarrow> packet"
  txQueue :: "addr list"
  controlQueue :: "addr list"
  controlQueueNP :: "addr list"
  controlQueueHP :: "addr list"
  cellsAllocToNeighbor :: "mote_id \<rightharpoonup> nat list"
  pktToSend :: "addr option"
  schedule :: "nat \<rightharpoonup> cell"
  reserve :: "bool list list"
  waitingFor :: "direction option"
  sharedSlots :: "nat list"
  timeCorrectedSlot :: "nat option"
  minRssi :: real
  noisepower :: real
  RSSI :: "mote_id \<rightharpoonup> real"
  PDR :: "(mote_id \<times> real) list"
  otfStatus :: "mote_id \<rightharpoonup> string option"
  motestats :: "stat_name \<Rightarrow> int"
  queuestats_delay :: "int list"
  chargeConsumed :: real

type_synonym world = "mote_id \<Rightarrow> mote"

text \<open>
  \<^verbatim>\<open>SimSettings\<close> is not among the sources; the settings the modelled code reads are
  a record passed to each function.
\<close>

record settings =
  slotframeLength :: nat
  numChans :: nat
  numSharedSlots :: nat
  queuing :: nat
  otfThreshold :: int
  noInterference :: bool
  settings_minRssi :: real
  bootstrap :: bool
  slotDuration :: real
  dioPeriod :: real

text \<open>
  \<^verbatim>\<open>Mote.__init__\<close>, for the fields the model keeps. The random clock drift is
  not modelled. Addresses of the packet store that no queue holds carry \<open>blank_packet\<close>.
  The dict \<^verbatim>\<open>PDR\<close> is an association list in the dict's iteration order, since
  \<^verbatim>\<open>_myNeigbors\<close> iterates over it.
\<close>

definition blank_packet :: packet where
  "blank_packet =
     \<lparr>p_asn = 0, p_type = DATA, p_data = None, p_dmac = None, p_smac = None,
      p_payload = [], retriesLeft = 0\<rparr>"

definition new_mote :: "settings \<Rightarrow> mote" where
  "new_mote st =
     \<lparr>dagRoot = False, preferredParent = None, sequenceNumberWithNeighbor = Map.empty,
      ignorePacket = [], transactionTimeout = 20, transactionRetries = 0,
      pendingTransaction = None, numCellsToNeighbors = Map.empty,
      numCellsFromNeighbors = Map.empty, macMinBE = 1, macMaxBE = 7, macBackoffNB = 0,
      macMaxCSMABackoffs = 4, backoffExponent = 1, sendcontrolDelay = 0,
      sendcontrolFailed = False, sendControlFailed = False, requestTriggered = Map.empty,
      pkts = (\<lambda>_. blank_packet), txQueue = [], controlQueue = [], controlQueueNP = [],
      controlQueueHP = [], cellsAllocToNeighbor = Map.empty, pktToSend = None,
      schedule = Map.empty,
      reserve = replicate (slotframeLength st) (replicate (numChans st) False),
      waitingFor = (if queuing st \<noteq> 0 then Some DIR_SHARED else None),
      sharedSlots = [], timeCorrectedSlot = None, minRssi = settings_minRssi st,
      noisepower = - 105, RSSI = Map.empty, PDR = [], otfStatus = Map.empty, motestats = (\<lambda>_. 0),
      queuestats_delay = [], chargeConsumed = 0\<rparr>"

section \<open>\<^verbatim>\<open>_choose_channel\<close>\<close>

text \<open>
  \<^verbatim>\<open>
  def _choose_channel(self,neighbor,ts):
      k=[]
      for j in range(self.settings.numChans):
           if self.reserve[ts][j]==False:
              if neighbor.reserve[ts][j]==False:
                  k+= [(j)]
      random.shuffle(k)
      return k[0]
  \<close>
  \<^verbatim>\<open>random.shuffle\<close> is a parameter \<open>shuffle\<close>, any function that permutes its
  argument.
\<close>

definition reserve_at :: "mote \<Rightarrow> nat \<Rightarrow> nat \<Rightarrow> py_error + bool" where
  "reserve_at m ts j = (case py_get (reserve m) ts of Inl e \<Rightarrow> Inl e | Inr row \<Rightarrow> py_get row j)"

fun choose_channel_loop :: "mote \<Rightarrow> mote \<Rightarrow> nat \<Rightarrow> nat list \<Rightarrow> nat list \<Rightarrow> py_error + nat list" where
  "choose_channel_loop self nb ts [] k = Inr k"
| "choose_channel_loop self nb ts (j # js) k =
     (case reserve_at self ts j of
        Inl e \<Rightarrow> Inl e
      | Inr a \<Rightarrow>
          if a = False then
            (case reserve_at nb ts j of
               Inl e \<Rightarrow> Inl e
             | Inr b \<Rightarrow> choose_channel_loop self nb ts js (if b = False then k @ [j] else k))
          else choose_channel_loop self nb ts js k)"

definition choose_channel ::
  "(nat list \<Rightarrow> nat list) \<Rightarrow> settings \<Rightarrow> mote \<Rightarrow> mote \<Rightarrow> nat \<Rightarrow> py_error + nat" where
  "choose_channel shuffle st self nb ts =
     (case choose_channel_loop self nb ts [0..<numChans st] [] of
        Inl e \<Rightarrow> Inl e
      | Inr k \<Rightarrow> py_get (shuffle k) 0)"

section \<open>Channel arithmetic of \<^verbatim>\<open>Propagation.py\<close>\<close>

text \<open>
  Python floats are modelled by the real numbers: rounding, overflow and NaN are outside
  the model. \<^verbatim>\<open>math.log10\<close> raises \<^verbatim>\<open>ValueError\<close> on an argument that is not
  positive.
  \<^verbatim>\<open>
  def _dBmTomW(self, dBm):  return math.pow(10.0, dBm/10.0)
  def _mWTodBm(self, mW):   return 10*math.log10(mW)
  def getRSSI(self,neighbor):
      if neighbor.id in self.RSSI : return self.RSSI[neighbor.id]
      else : return 0
  \<close>
\<close>

definition dBmTomW :: "real \<Rightarrow> real" where
  "dBmTomW dBm = 10 powr (dBm / 10)"

definition mWTodBm :: "real \<Rightarrow> py_error + real" where
  "mWTodBm mW = (if mW \<le> 0 then Inl ValueError else Inr (10 * log 10 mW))"

definition getRSSI :: "mote \<Rightarrow> mote_id \<Rightarrow> real" where
  "getRSSI m n = (case RSSI m n of Some r \<Rightarrow> r | None \<Rightarrow> 0)"

text \<open>
  \<^verbatim>\<open>
  def _computeSINR(self,source,destination,interferers):
      noise = self._dBmTomW(destination.noisepower)
      signal = self._dBmTomW(source.getRSSI(destination)) - noise
      if signal < 0.0:
          return -10.0
      totalInterference = 0.0
      for interferer in interferers:
          interference = self._dBmTomW(interferer.getRSSI(destination)) - noise
          if interference < 0.0:
              interference = 0.0
          totalInterference += interference
      sinr = signal/(totalInterference + noise)
      return self._mWTodBm(sinr)
  \<close>
\<close>

fun totalInterference_loop :: "world \<Rightarrow> mote_id \<Rightarrow> real \<Rightarrow> mote_id list \<Rightarrow> real \<Rightarrow> real" where
  "totalInterference_loop w destination noise [] totalInterference = totalInterference"
| "totalInterference_loop w destination noise (interferer # rest) totalInterference =
     (let interference = dBmTomW (getRSSI (w interferer) destination) - noise;
          interference' = (if interference < 0 then 0 else interference)
      in totalInterference_loop w destination noise rest (totalInterference + interference'))"

definition computeSINR :: "world \<Rightarrow> mote_id \<Rightarrow> mote_id \<Rightarrow> mote_id list \<Rightarrow> py_error + real" where
  "computeSINR w source destination interferers =
     (let noise = dBmTomW (noisepower (w destination));
          signal = dBmTomW (getRSSI (w source) destination) - noise
      in if signal < 0 then Inr (- 10)
         else
           let totalInterference = totalInterference_loop w destination noise interferers 0
           in if totalInterference + noise = 0 then Inl ZeroDivisionError
              else mWTodBm (signal / (totalInterference + noise)))"

text \<open>
  The SINR as the specification words it: signal \<open>S\<close>, the interference \<open>I\<close> as a sum of
  the clipped contributions, and \<open>mWToDbm (S / (I + noise))\<close>.
\<close>

definition spec_SINR :: "world \<Rightarrow> mote_id \<Rightarrow> mote_id \<Rightarrow> mote_id list \<Rightarrow> py_error + real" where
  "spec_SINR w src dst itfrs =
     (let noise = dBmTomW (noisepower (w dst));
          S = dBmTomW (getRSSI (w src) dst) - dBmTomW (noisepower (w dst));
          I = (\<Sum>itfr\<leftarrow>itfrs. max 0 (dBmTomW (getRSSI (w itfr) dst) - noise))
      in if S < 0 then Inr (- 10) else mWTodBm (S / (I + noise)))"

section \<open>Lock-on in \<^verbatim>\<open>Propagation.propagate\<close>\<close>

text \<open>
  A transmission is the dict appended by \<^verbatim>\<open>startTx\<close>. For a transmission whose
  destination listens on its channel, \<^verbatim>\<open>propagate\<close> runs
  \<^verbatim>\<open>
  if not self.settings.noInterference:
      interferers = [t['smac'] for t in self.transmissions
                     if (t!=transmission) and (t['channel']==transmission['channel'])]
      ...
      lockOn = transmission['smac']
      for itfr in interferers:
          if arrivalTime[itfr] < arrivalTime[lockOn] and \
             transmission['dmac'].getRSSI(itfr)>transmission['dmac'].minRssi:
              lockOn = itfr
      if lockOn == transmission['smac']:
          sinr  = self._computeSINR(transmission['smac'],transmission['dmac'],interferers)
          pdr   = self._computePdrFromSINR(sinr, transmission['dmac'])
          failure = random.random()
          if pdr>=failure: isACKed, isNACKed = self.receivers[i]['mote'].rxDone(type = ..., ...)
          else:            self.receivers[i]['mote'].rxDone()
      else:
          interferers.remove(lockOn)
          pseudo_interferers = interferers + [transmission['smac']]
          pseudo_sinr  = self._computeSINR(lockOn,transmission['dmac'],pseudo_interferers)
          pseudo_pdr   = self._computePdrFromSINR(pseudo_sinr, transmission['dmac'])
          failure = random.random()
          if pseudo_pdr>=failure:
              transmission['dmac'].schedule[ts]['rxDetectedCollision'] = True
          self.receivers[i]['mote'].rxDone()
  else:
      interferers = []
      sinr  = self._computeSINR(transmission['smac'],transmission['dmac'],interferers)
      ... (the same delivery draw)
  \<close>
  \<^verbatim>\<open>arrivalTime\<close> maps each transmitter to its \<^verbatim>\<open>calcTime()\<close>; it is a parameter
  here. The model stops at the SINR that feeds the random draw: \<open>DeliveryDraw\<close> is the
  branch where the desired packet is delivered when the draw succeeds,
  \<open>LockedOnInterferer\<close> the branch where the desired packet is lost whatever the draw.
\<close>

record transmission =
  t_channel :: nat
  t_type :: pkt_type
  t_data :: "control_data option"
  t_smac :: mote_id
  t_dmac :: mote_id
  t_payload :: "int list"

definition interferers_of :: "transmission list \<Rightarrow> transmission \<Rightarrow> mote_id list" where
  "interferers_of transmissions t =
     map t_smac (filter (\<lambda>u. u \<noteq> t \<and> t_channel u = t_channel t) transmissions)"

fun lockOn_loop :: "(mote_id \<Rightarrow> real) \<Rightarrow> mote \<Rightarrow> mote_id list \<Rightarrow> mote_id \<Rightarrow> mote_id" where
  "lockOn_loop arrivalTime dmac [] lockOn = lockOn"
| "lockOn_loop arrivalTime dmac (itfr # rest) lockOn =
     lockOn_loop arrivalTime dmac rest
       (if arrivalTime itfr < arrivalTime lockOn \<and> getRSSI dmac itfr > minRssi dmac
        then itfr else lockOn)"

definition lockOn_of :: "world \<Rightarrow> (mote_id \<Rightarrow> real) \<Rightarrow> transmission list \<Rightarrow> transmission \<Rightarrow> mote_id" where
  \<comment> \<open>the value of \<^verbatim>\<open>lockOn\<close> after the loop\<close>
  "lockOn_of w arrivalTime transmissions t =
     lockOn_loop arrivalTime (w (t_dmac t)) (interferers_of transmissions t) (t_smac t)"

datatype rx_attempt =
  DeliveryDraw "py_error + real"
  | LockedOnInterferer mote_id "py_error + real"

definition resolve_reception ::
  "settings \<Rightarrow> world \<Rightarrow> (mote_id \<Rightarrow> real) \<Rightarrow> transmission list \<Rightarrow> transmission \<Rightarrow> rx_attempt" where
  "resolve_reception st w arrivalTime transmissions t =
     (if \<not> noInterference st then
        let interferers = interferers_of transmissions t;
            lockOn = lockOn_of w arrivalTime transmissions t
        in if lockOn = t_smac t
           then DeliveryDraw (computeSINR w (t_smac t) (t_dmac t) interferers)
           else LockedOnInterferer lockOn
                  (computeSINR w lockOn (t_dmac t) (remove1 lockOn interferers @ [t_smac t]))
      else DeliveryDraw (computeSINR w (t_smac t) (t_dmac t) []))"

section \<open>OTF housekeeping: cells to add or remove for one parent\<close>

text \<open>
  The body of the loop over the parents in \<^verbatim>\<open>_otf_housekeeping\<close>, for the numbers it
  computes and the 6top call it makes:
  \<^verbatim>\<open>
  etx = self._estimateETX(parent)
  if etx>self.RPL_MAX_ETX: # cap ETX
      etx  = self.RPL_MAX_ETX
  reqCells      = int(math.ceil(portion*genTraffic*etx))
  threshold     = int(math.ceil(portion*self.settings.otfThreshold))
  nowCells      = self.numCellsToNeighbors.get(parent,0)
  ...
  if nowCells<reqCells:
      numCellsToAdd = reqCells-nowCells+(threshold+1)/2
      self._top_cell_reservation_request(args = None, neighbor = parent,numCells = numCellsToAdd)
      ...
  elif reqCells<nowCells-threshold:
      numCellsToRemove = nowCells-reqCells-(threshold+1)/2
      self._top_removeCells(parent,numCellsToRemove)
  else:
      otfTriggered = False
  \<close>
  \<^verbatim>\<open>_estimateETX\<close> returns \<^verbatim>\<open>None\<close> when no transmission was acknowledged; then
  \<^verbatim>\<open>None > 4\<close> is false in Python 2 and the product raises \<^verbatim>\<open>TypeError\<close>. Its result is
  the parameter \<open>etx\<close>. \<open>portion\<close> is the parent's portion after the remaining portion
  of the previous parent was added. The two operands of \<^verbatim>\<open>/\<close> are ints, so it is the
  floor division. The signalling to the children (START and STOP) and the statistics
  are not modelled.

  \<open>portion\<close>, \<open>genTraffic\<close> and \<open>etx\<close> are Python floats, that is IEEE 754 doubles,
  and so is every product: the exact product rounded to the nearest double, ties to the
  even significand. A finite double is modelled by the real number it stands for.
  \<open>round_double x\<close> is the double nearest to \<open>x\<close> with the exponent unbounded above: a
  significand of 53 bits, the unit in the last place being \<open>2 ^ (e - 52)\<close> for
  \<open>2 ^ e \<le> |x| < 2 ^ (e + 1)\<close> and \<open>2 ^ - 1074\<close> below \<open>2 ^ - 1022\<close>. A product whose
  rounded value reaches \<open>2 ^ 1024\<close> is infinite in Python; \<^verbatim>\<open>math.ceil\<close> keeps an
  infinity or a NaN, and \<^verbatim>\<open>int\<close> raises \<^verbatim>\<open>OverflowError\<close> on an infinity and
  \<^verbatim>\<open>ValueError\<close> on a NaN (an infinity times zero). The int \<^verbatim>\<open>otfThreshold\<close> is
  converted to a double before the product, which raises \<^verbatim>\<open>OverflowError\<close> when it
  does not fit.
\<close>

definition round_half_even :: "real \<Rightarrow> int" where
  "round_half_even x =
     (if x - of_int \<lfloor>x\<rfloor> < 1 / 2 \<or> (x - of_int \<lfloor>x\<rfloor> = 1 / 2 \<and> even \<lfloor>x\<rfloor>)
      then \<lfloor>x\<rfloor> else \<lfloor>x\<rfloor> + 1)"

definition ulp_exponent :: "real \<Rightarrow> int" where
  "ulp_exponent x = max \<lfloor>log 2 \<bar>x\<bar>\<rfloor> (- 1022) - 52"

definition round_double :: "real \<Rightarrow> real" where
  "round_double x =
     (if x = 0 then 0
      else of_int (round_half_even (x / 2 powr of_int (ulp_exponent x)))
             * 2 powr of_int (ulp_exponent x))"

definition is_infinite :: "real \<Rightarrow> bool" where
  \<comment> \<open>the rounded value is beyond the largest double\<close>
  "is_infinite x \<longleftrightarrow> \<bar>round_double x\<bar> \<ge> 2 ^ 1024"

definition RPL_MAX_ETX :: real where
  "RPL_MAX_ETX = 4"

datatype otf_action = TopAdd int | TopRemove int | OtfNothing

definition otf_reqCells :: "real \<Rightarrow> real \<Rightarrow> real \<Rightarrow> py_error + int" where
  "otf_reqCells portion genTraffic etx =
     (let e = (if etx > RPL_MAX_ETX then RPL_MAX_ETX else etx)
      in if is_infinite (portion * genTraffic)
         then (if e = 0 then Inl ValueError else Inl OverflowError)
         else if is_infinite (round_double (portion * genTraffic) * e) then Inl OverflowError
         else Inr \<lceil>round_double (round_double (portion * genTraffic) * e)\<rceil>)"

definition otf_threshold :: "settings \<Rightarrow> real \<Rightarrow> py_error + int" where
  "otf_threshold st portion =
     (if is_infinite (of_int (otfThreshold st)) then Inl OverflowError
      else if is_infinite (portion * round_double (of_int (otfThreshold st))) then Inl OverflowError
      else Inr \<lceil>round_double (portion * round_double (of_int (otfThreshold st)))\<rceil>)"

definition otf_nowCells :: "mote \<Rightarrow> mote_id \<Rightarrow> int" where
  "otf_nowCells m parent = (case numCellsToNeighbors m parent of None \<Rightarrow> 0 | Some n \<Rightarrow> n)"

definition otf_housekeeping_parent ::
  "settings \<Rightarrow> mote \<Rightarrow> mote_id \<Rightarrow> real \<Rightarrow> real \<Rightarrow> real option \<Rightarrow> py_error + otf_action" where
  "otf_housekeeping_parent st self parent portion genTraffic etx =
     (case etx of
        None \<Rightarrow> Inl TypeError
      | Some e \<Rightarrow>
          ebind (otf_reqCells portion genTraffic e) (\<lambda>reqCells.
          ebind (otf_threshold st portion) (\<lambda>threshold.
            let nowCells = otf_nowCells self parent
            in if nowCells < reqCells
                 then Inr (TopAdd (reqCells - nowCells + (threshold + 1) div 2))
               else if reqCells < nowCells - threshold
                 then Inr (TopRemove (nowCells - reqCells - (threshold + 1) div 2))
               else Inr OtfNothing)))"

section \<open>The schedule: \<^verbatim>\<open>boot\<close>, \<^verbatim>\<open>_tsch_removeCells\<close> and the 6top deletion\<close>

text \<open>
  \<^verbatim>\<open>
  def boot(self):
      for i in range(0, self.settings.numSharedSlots) :
          self.schedule[i*int(math.floor(float(self.settings.slotframeLength)
                                         / float(self.settings.numSharedSlots)))] = {
              'ch': 0, 'dir': self.DIR_SHARED, 'neighbor': None,
              'numTx': 0, 'numTxAck': 0, 'numRx': 0, 'history': [],
              'rxDetectedCollision': False, 'debug_canbeInterfered': [],
              'debug_interference': [], 'debug_lockInterference': [],
              'debug_cellCreatedAsn': self.engine.getAsn(),
          }
          self.sharedSlots += [i*(int)(self.settings.slotframeLength / self.settings.numSharedSlots)]
      ...
  \<close>
  The rest of \<^verbatim>\<open>boot\<close> schedules engine events and resets the traffic counters; the
  engine is not among the sources and the model stops after the loop. Both quotients are
  the integer quotient of the two settings.
\<close>

definition shared_cell :: "nat \<Rightarrow> cell" where
  "shared_cell asn =
     \<lparr>ch = 0, dir = DIR_SHARED, neighbor = None, numTx = 0, numTxAck = 0, numRx = 0,
      history = [], rxDetectedCollision = False, debug_canbeInterfered = [],
      debug_interference = [], debug_lockInterference = [], debug_cellCreatedAsn = asn\<rparr>"

fun boot_loop :: "settings \<Rightarrow> nat \<Rightarrow> nat list \<Rightarrow> mote \<Rightarrow> mote" where
  "boot_loop st asn [] m = m"
| "boot_loop st asn (i # rest) m =
     boot_loop st asn rest
       (m\<lparr>schedule := (schedule m)(i * (slotframeLength st div numSharedSlots st) \<mapsto> shared_cell asn),
          sharedSlots := sharedSlots m @ [i * (slotframeLength st div numSharedSlots st)]\<rparr>)"

definition boot :: "settings \<Rightarrow> nat \<Rightarrow> mote \<Rightarrow> mote" where
  "boot st asn m = boot_loop st asn [0..<numSharedSlots st] m"

text \<open>
  \<^verbatim>\<open>
  def _tsch_addCells(self,neighbor,cellList):
      for cell in cellList:
          self.schedule[cell[0]] = {
              'ch': cell[1], 'dir': cell[2], 'neighbor': neighbor,
              'numTx': 0, 'numTxAck': 0, 'numRx': 0, 'history': [],
              'rxDetectedCollision': False, 'debug_canbeInterfered': [],
              'debug_interference': [], 'debug_lockInterference': [],
              'debug_cellCreatedAsn': self.engine.getAsn(),
          }
      self._tsch_schedule_activeCell()
  \<close>
\<close>

definition added_cell :: "nat \<Rightarrow> nat \<Rightarrow> direction \<Rightarrow> mote_id \<Rightarrow> cell" where
  "added_cell asn c d nb =
     \<lparr>ch = c, dir = d, neighbor = Some nb, numTx = 0, numTxAck = 0, numRx = 0,
      history = [], rxDetectedCollision = False, debug_canbeInterfered = [],
      debug_interference = [], debug_lockInterference = [], debug_cellCreatedAsn = asn\<rparr>"

fun tsch_addCells :: "nat \<Rightarrow> mote \<Rightarrow> mote_id \<Rightarrow> (nat \<times> nat \<times> direction) list \<Rightarrow> mote" where
  "tsch_addCells asn m nb [] = m"
| "tsch_addCells asn m nb ((ts, c, d) # cellList) =
     tsch_addCells asn (m\<lparr>schedule := (schedule m)(ts \<mapsto> added_cell asn c d nb)\<rparr>) nb cellList"

text \<open>
  \<^verbatim>\<open>
  def _tsch_removeCells(self,neighbor,tsList, dir = None):
      for ts in tsList:
          if ts in self.schedule.keys() and self.schedule[ts]['neighbor']==neighbor:
              if dir == self.DIR_TX :
                  self.numCellsToNeighbors[neighbor] -= 1
              elif dir == self.DIR_RX :
                  self.numCellsFromNeighbors[neighbor] -= 1
              self.schedule.pop(ts)
      self._tsch_schedule_activeCell()
  \<close>
  \<^verbatim>\<open>neighbor\<close> is a mote. The last line only reschedules an engine event.
\<close>

definition holds_for :: "mote \<Rightarrow> nat \<Rightarrow> mote_id \<Rightarrow> bool" where
  \<comment> \<open>\<^verbatim>\<open>ts in m.schedule.keys() and m.schedule[ts]['neighbor'] == n\<close>\<close>
  "holds_for m ts n = (case schedule m ts of None \<Rightarrow> False | Some c \<Rightarrow> neighbor c = Some n)"

definition removeCell :: "mote \<Rightarrow> mote_id \<Rightarrow> nat \<Rightarrow> direction option \<Rightarrow> py_error + mote" where
  \<comment> \<open>the body of the loop, for one \<^verbatim>\<open>ts\<close>\<close>
  "removeCell m nb ts d =
     (case schedule m ts of
        None \<Rightarrow> Inr m
      | Some c \<Rightarrow>
          if neighbor c = Some nb then
            (if d = Some DIR_TX then
               (case numCellsToNeighbors m nb of
                  None \<Rightarrow> Inl KeyError
                | Some n \<Rightarrow>
                    Inr (m\<lparr>numCellsToNeighbors := (numCellsToNeighbors m)(nb \<mapsto> n - 1),
                           schedule := (schedule m)(ts := None)\<rparr>))
             else if d = Some DIR_RX then
               (case numCellsFromNeighbors m nb of
                  None \<Rightarrow> Inl KeyError
                | Some n \<Rightarrow>
                    Inr (m\<lparr>numCellsFromNeighbors := (numCellsFromNeighbors m)(nb \<mapsto> n - 1),
                           schedule := (schedule m)(ts := None)\<rparr>))
             else Inr (m\<lparr>schedule := (schedule m)(ts := None)\<rparr>))
          else Inr m)"

fun tsch_removeCells :: "mote \<Rightarrow> mote_id \<Rightarrow> nat list \<Rightarrow> direction option \<Rightarrow> py_error + mote" where
  "tsch_removeCells m nb [] d = Inr m"
| "tsch_removeCells m nb (ts # tsList) d =
     (case removeCell m nb ts d of
        Inl e \<Rightarrow> Inl e
      | Inr m1 \<Rightarrow> tsch_removeCells m1 nb tsList d)"

text \<open>
  \<^verbatim>\<open>
  def _myNeigbors(self):
      return [n for n in self.PDR.keys() if self.PDR[n]>0]
  def _delete_cell_neighbor(self,cells,neighbor):
      for cell in cells:
          neighbor.reserve[cell[0]][cell[1]]=False
  \<close>
\<close>

definition myNeigbors :: "mote \<Rightarrow> mote_id list" where
  "myNeigbors m = map fst (filter (\<lambda>(n, p). p > 0) (PDR m))"

fun delete_cell_neighbor :: "(nat \<times> nat) list \<Rightarrow> mote \<Rightarrow> py_error + mote" where
  "delete_cell_neighbor [] nbm = Inr nbm"
| "delete_cell_neighbor ((ts, c) # cells) nbm =
     (if ts < length (reserve nbm) \<and> c < length (reserve nbm ! ts)
      then delete_cell_neighbor cells
             (nbm\<lparr>reserve := (reserve nbm)[ts := (reserve nbm ! ts)[c := False]]\<rparr>)
      else Inl IndexError)"

text \<open>
  \<^verbatim>\<open>
  def top_cell_deletion_receiver(self,neighbor,tsList):
      cellList=[]
      for ts in tsList :
          cellList +=[(ts,self.schedule.get(ts)['ch'])]
      self._tsch_removeCells(neighbor = neighbor, tsList = tsList, dir = self.DIR_RX)
      for neighb in self._myNeigbors():
          if neighbor!=neighb:
              self._delete_cell_neighbor(cellList,neighb)
  \<close>
  \<^verbatim>\<open>self.schedule.get(ts)\<close> is \<^verbatim>\<open>None\<close> for a slot that is not scheduled, and indexing
  it raises \<^verbatim>\<open>TypeError\<close>.
\<close>

fun deletion_cellList :: "mote \<Rightarrow> nat list \<Rightarrow> py_error + (nat \<times> nat) list" where
  "deletion_cellList m [] = Inr []"
| "deletion_cellList m (ts # tsList) =
     (case schedule m ts of
        None \<Rightarrow> Inl TypeError
      | Some c \<Rightarrow>
          (case deletion_cellList m tsList of
             Inl e \<Rightarrow> Inl e
           | Inr cells \<Rightarrow> Inr ((ts, ch c) # cells)))"

fun delete_cell_neighbors :: "(nat \<times> nat) list \<Rightarrow> mote_id \<Rightarrow> mote_id list \<Rightarrow> world \<Rightarrow> py_error + world" where
  "delete_cell_neighbors cellList nb [] w = Inr w"
| "delete_cell_neighbors cellList nb (neighb # rest) w =
     (if nb \<noteq> neighb then
        (case delete_cell_neighbor cellList (w neighb) of
           Inl e \<Rightarrow> Inl e
         | Inr nbm \<Rightarrow> delete_cell_neighbors cellList nb rest (w(neighb := nbm)))
      else delete_cell_neighbors cellList nb rest w)"

definition top_cell_deletion_receiver :: "world \<Rightarrow> mote_id \<Rightarrow> mote_id \<Rightarrow> nat list \<Rightarrow> py_error + world" where
  "top_cell_deletion_receiver w self nb tsList =
     ebind (deletion_cellList (w self) tsList) (\<lambda>cellList.
     ebind (tsch_removeCells (w self) nb tsList (Some DIR_RX)) (\<lambda>m1.
       delete_cell_neighbors cellList nb (myNeigbors m1) (w(self := m1))))"

text \<open>
  \<^verbatim>\<open>
  def top_cell_deletion_sender(self,neighbor,tsList):
      self._tsch_removeCells(neighbor = neighbor, tsList = tsList, dir = self.DIR_TX)
      neighbor.top_cell_deletion_receiver(self,tsList)
      assert self.numCellsToNeighbors[neighbor]>=0
  \<close>
\<close>

definition top_cell_deletion_sender :: "world \<Rightarrow> mote_id \<Rightarrow> mote_id \<Rightarrow> nat list \<Rightarrow> py_error + world" where
  "top_cell_deletion_sender w self nb tsList =
     ebind (tsch_removeCells (w self) nb tsList (Some DIR_TX)) (\<lambda>m1.
     ebind (top_cell_deletion_receiver (w(self := m1)) nb self tsList) (\<lambda>w2.
       case numCellsToNeighbors (w2 self) nb of
         None \<Rightarrow> Inl KeyError
       | Some n \<Rightarrow> if n \<ge> 0 then Inr w2 else Inl AssertionError))"

text \<open>
  The calls that take cells out of a schedule, and a run of them: the run stops at the
  first exception.
\<close>

datatype deletion =
  DeletionSender mote_id mote_id "nat list"
  | DeletionReceiver mote_id mote_id "nat list"
  | RemoveCells mote_id mote_id "nat list" "direction option"

definition apply_deletion :: "world \<Rightarrow> deletion \<Rightarrow> py_error + world" where
  "apply_deletion w d =
     (case d of
        DeletionSender self nb tsList \<Rightarrow> top_cell_deletion_sender w self nb tsList
      | DeletionReceiver self nb tsList \<Rightarrow> top_cell_deletion_receiver w self nb tsList
      | RemoveCells self nb tsList dr \<Rightarrow>
          ebind (tsch_removeCells (w self) nb tsList dr) (\<lambda>m. Inr (w(self := m))))"

fun apply_deletions :: "world \<Rightarrow> deletion list \<Rightarrow> py_error + world" where
  "apply_deletions w [] = Inr w"
| "apply_deletions w (d # ds) =
     (case apply_deletion w d of Inl e \<Rightarrow> Inl e | Inr w' \<Rightarrow> apply_deletions w' ds)"

definition shared_offsets :: "settings \<Rightarrow> nat set" where
  "shared_offsets st =
     {i * (slotframeLength st div numSharedSlots st) | i. i < numSharedSlots st}"

section \<open>6top: abort and the reservation request\<close>

text \<open>
  \<^verbatim>\<open>
  def _incrementMoteStats(self,name):
      self.motestats[name] += 1

  def _top_abort_transaction(self):
      if self.pendingTransaction != None:
          if self.pendingTransaction.cells :
              cellsToRemove = []
              dirToRemove = None
              for (ts, ch, dir) in self.pendingTransaction.cells :
                  dirToRemove = dir
                  cellsToRemove += [ts]
              if dirToRemove and cellsToRemove :
                  self._tsch_removeCells(self.pendingTransaction.neighbor,cellsToRemove, dirToRemove)
          self.requestTriggered[self.pendingTransaction.neighbor] = False
      self.transactionRetries = 0
      self.pendingTransaction = None
      self._incrementMoteStats('transactionAborted')
  \<close>
  A \<^verbatim>\<open>cells\<close> that is \<^verbatim>\<open>None\<close> or empty is false. The direction is a non-empty
  string, so the inner test holds whenever the list is not empty.
\<close>

definition incrementMoteStats :: "mote \<Rightarrow> stat_name \<Rightarrow> mote" where
  "incrementMoteStats m name = m\<lparr>motestats := (motestats m)(name := motestats m name + 1)\<rparr>"

definition abort_rollback :: "mote \<Rightarrow> pending \<Rightarrow> py_error + mote" where
  "abort_rollback m p =
     (case pt_cells p of
        None \<Rightarrow> Inr m
      | Some [] \<Rightarrow> Inr m
      | Some (c # cs) \<Rightarrow>
          tsch_removeCells m (pt_neighbor p) (map fst (c # cs)) (Some (snd (snd (last (c # cs))))))"

definition top_abort_transaction :: "mote \<Rightarrow> py_error + mote" where
  "top_abort_transaction m =
     ebind
       (case pendingTransaction m of
          None \<Rightarrow> Inr m
        | Some p \<Rightarrow>
            ebind (abort_rollback m p) (\<lambda>m1.
              Inr (m1\<lparr>requestTriggered := (requestTriggered m1)(pt_neighbor p \<mapsto> False)\<rparr>)))
       (\<lambda>m2. Inr (incrementMoteStats
                     (m2\<lparr>transactionRetries := 0, pendingTransaction := None\<rparr>)
                     transactionAborted))"

text \<open>
  \<^verbatim>\<open>
  def _app_schedule_sendControl(self,init=False,cells=None, numCells=None, type=None,
                                neighb=None, dir=None, usedSlots = None, value = None):
      asn    = self.engine.getAsn()
      ts     = asn%self.settings.slotframeLength
      if not init:
          cycle = int(math.ceil(self.settings.dioPeriod
                                /(self.settings.slotframeLength*self.settings.slotDuration)))
      else:
          cycle = 1
      if type == "answer" :
          priority = 11
      else :
          priority = 10
      delay = self.settings.slotDuration + random.randint(0, pow(2, self.backoffExponent) -1)
      if neighb not in self.sequenceNumberWithNeighbor :
          self.sequenceNumberWithNeighbor[neighb] = 0
      self.sequenceNumberWithNeighbor[neighb] += 1
      self.engine.scheduleIn(
              delay       = delay,
              cb          = self._app_action_sendControl,
              args        = [cells,numCells, neighb, dir,type, self, usedSlots, value,
                             self.sequenceNumberWithNeighbor[neighb]],
              uniqueTag   = (self.id, 'sendControl'),
              priority    = priority,
          )

  def top_add_request(self, numCellsReq, neighbor, dir, alreadyUsedSlots) :
      self._app_schedule_sendControl(numCells = numCellsReq, type = "req", neighb = neighbor,
                                     dir = dir, usedSlots = alreadyUsedSlots)
      return True
  \<close>
  The engine is not among the sources: the call of \<^verbatim>\<open>scheduleIn\<close> is the record
  \<open>send_control\<close> that the function returns beside the mote. \<open>rand\<close> is the number that
  \<^verbatim>\<open>random.randint\<close> returns. The two settings of the quotient are floats; \<^verbatim>\<open>cycle\<close>
  is not used, and the quotient raises when its divisor is zero. With a negative
  exponent \<^verbatim>\<open>pow\<close> returns a float and \<^verbatim>\<open>randint\<close> raises \<^verbatim>\<open>ValueError\<close>. The list
  \<^verbatim>\<open>usedSlots\<close> is kept as the set of its elements.
\<close>

record send_control =
  sc_delay :: real
  sc_priority :: nat
  sc_cells :: cells_arg
  sc_numCells :: "int option"
  sc_neighb :: mote_id
  sc_dir :: "direction option"
  sc_type :: string
  sc_smac :: mote_id
  sc_usedSlots :: "nat set option"
  sc_value :: "string option"
  sc_seq :: int

definition app_schedule_sendControl ::
  "settings \<Rightarrow> int \<Rightarrow> mote \<Rightarrow> mote_id \<Rightarrow> bool \<Rightarrow> cells_arg \<Rightarrow> int option \<Rightarrow> string \<Rightarrow> mote_id
   \<Rightarrow> direction option \<Rightarrow> nat set option \<Rightarrow> string option \<Rightarrow> py_error + mote \<times> send_control" where
  "app_schedule_sendControl st rand m self init cells numCells type neighb d usedSlots val =
     (if slotframeLength st = 0 then Inl ZeroDivisionError
      else if \<not> init \<and> real (slotframeLength st) * slotDuration st = 0 then Inl ZeroDivisionError
      else if backoffExponent m < 0 then Inl ValueError
      else
        let sq = (case sequenceNumberWithNeighbor m neighb of None \<Rightarrow> 0 | Some n \<Rightarrow> n) + 1
        in Inr (m\<lparr>sequenceNumberWithNeighbor := (sequenceNumberWithNeighbor m)(neighb \<mapsto> sq)\<rparr>,
                \<lparr>sc_delay = slotDuration st + of_int rand,
                 sc_priority = (if type = ''answer'' then 11 else 10),
                 sc_cells = cells, sc_numCells = numCells, sc_neighb = neighb, sc_dir = d,
                 sc_type = type, sc_smac = self, sc_usedSlots = usedSlots, sc_value = val,
                 sc_seq = sq\<rparr>))"

definition top_add_request ::
  "settings \<Rightarrow> int \<Rightarrow> mote \<Rightarrow> mote_id \<Rightarrow> int option \<Rightarrow> mote_id \<Rightarrow> direction \<Rightarrow> nat set
   \<Rightarrow> py_error + mote \<times> send_control" where
  "top_add_request st rand m self numCellsReq nb d alreadyUsedSlots =
     app_schedule_sendControl st rand m self False NoCells numCellsReq ''req'' nb (Some d)
       (Some alreadyUsedSlots) None"

text \<open>
  \<^verbatim>\<open>
  def getTxCells(self):
      return [(ts,c['ch'],c['neighbor']) for (ts,c) in self.schedule.items()
              if c['dir']==self.DIR_TX]

  def _top_cell_reservation_request(self,args=None, neighbor=None,numCells=None,dir=DIR_TX):
      if self.pendingTransaction != None :
          self.transactionRetries += 1
          if self.transactionRetries == self.transactionTimeout :
              self._top_abort_transaction()
          else :
              return
      if neighbor in self.requestTriggered and self.requestTriggered[neighbor] == True \
         or neighbor not in self.sequenceNumberWithNeighbor.keys():
          return
      self.requestTriggered[neighbor] = True
      self.pendingTransaction = pendingTransaction("moteRequest", neighbor, None,
                                                   self.sequenceNumberWithNeighbor[neighbor])
      if (self.settings.queuing != 0 and (self.settings.bootstrap
              or (not self.settings.bootstrap and self.getTxCells()))):
          self.top_add_request(numCells, neighbor,dir, self.schedule.keys())
      else :
          if self.settings.queuing == 1 :
              cells=neighbor.top_cell_reservation_response(self,1,dir,None, [0])
          else :
              cells=neighbor.top_cell_reservation_response(self,numCells,dir, None, None)
          cellList=[]
          for ts, ch in cells.iteritems():
              if ts not in self.schedule.keys() :
                  cellList += [(ts,ch,dir)]
          self._tsch_addCells(neighbor,cellList)
          if dir==self.DIR_TX:
              if neighbor not in self.numCellsToNeighbors:
                  self.numCellsToNeighbors[neighbor]    = 0
              self.numCellsToNeighbors[neighbor]  += len(cellList)
          else:
              if neighbor not in self.numCellsFromNeighbors:
                  self.numCellsFromNeighbors[neighbor]    = 0
              self.numCellsFromNeighbors[neighbor]  += len(cellList)
          (a log line when len(cells) != numCells)
  \<close>
  The function is in three parts: \<open>request_tick\<close> is the count of a pending
  transaction, with the flag that the call goes on; \<open>request_exchange\<close> is the rest.
  \<^verbatim>\<open>top_cell_reservation_response\<close> of the neighbour draws random numbers and calls
  the engine; it is the parameter \<open>response\<close>, called with the world, the neighbour, the
  caller and the arguments, and returns the world and the items of the dict \<^verbatim>\<open>cells\<close>
  in the order of iteration. The result is the world and the control message scheduled
  by the caller, if any.
\<close>

type_synonym reservation_response =
  "world \<Rightarrow> mote_id \<Rightarrow> mote_id \<Rightarrow> int option \<Rightarrow> direction \<Rightarrow> nat list option
   \<Rightarrow> py_error + world \<times> (nat \<times> nat) list"

definition getTxCells :: "mote \<Rightarrow> (nat \<times> nat \<times> mote_id option) set" where
  "getTxCells m = {(ts, ch c, neighbor c) | ts c. schedule m ts = Some c \<and> dir c = DIR_TX}"

definition request_tick :: "mote \<Rightarrow> py_error + mote \<times> bool" where
  "request_tick m =
     (case pendingTransaction m of
        None \<Rightarrow> Inr (m, True)
      | Some p \<Rightarrow>
          let m1 = m\<lparr>transactionRetries := transactionRetries m + 1\<rparr>
          in if transactionRetries m1 = transactionTimeout m1
             then ebind (top_abort_transaction m1) (\<lambda>m2. Inr (m2, True))
             else Inr (m1, False))"

definition add_answered_cells ::
  "nat \<Rightarrow> mote \<Rightarrow> mote_id \<Rightarrow> direction \<Rightarrow> (nat \<times> nat) list \<Rightarrow> mote" where
  \<comment> \<open>the lines after the response of the neighbour\<close>
  "add_answered_cells asn m nb d cells =
     (let cellList = map (\<lambda>(ts, c). (ts, c, d)) (filter (\<lambda>(ts, c). schedule m ts = None) cells);
          m1 = tsch_addCells asn m nb cellList
      in if d = DIR_TX
         then m1\<lparr>numCellsToNeighbors := (numCellsToNeighbors m1)
                   (nb \<mapsto> (case numCellsToNeighbors m1 nb of None \<Rightarrow> 0 | Some n \<Rightarrow> n)
                           + int (length cellList))\<rparr>
         else m1\<lparr>numCellsFromNeighbors := (numCellsFromNeighbors m1)
                   (nb \<mapsto> (case numCellsFromNeighbors m1 nb of None \<Rightarrow> 0 | Some n \<Rightarrow> n)
                           + int (length cellList))\<rparr>)"

definition request_exchange ::
  "settings \<Rightarrow> nat \<Rightarrow> int \<Rightarrow> reservation_response \<Rightarrow> world \<Rightarrow> mote_id \<Rightarrow> mote_id \<Rightarrow> int option
   \<Rightarrow> direction \<Rightarrow> py_error + world \<times> send_control option" where
  "request_exchange st asn rand response w self nb numCells d =
     (case sequenceNumberWithNeighbor (w self) nb of
        None \<Rightarrow> Inr (w, None)
      | Some sq \<Rightarrow>
          if requestTriggered (w self) nb = Some True then Inr (w, None)
          else
            let m1 = (w self)\<lparr>requestTriggered := (requestTriggered (w self))(nb \<mapsto> True),
                       pendingTransaction :=
                         Some \<lparr>pt_type = ''moteRequest'', pt_neighbor = nb, pt_cells = None,
                               pt_sequenceNum = sq\<rparr>\<rparr>
            in if queuing st \<noteq> 0 \<and> (bootstrap st \<or> getTxCells m1 \<noteq> {}) then
                 ebind (top_add_request st rand m1 self numCells nb d (dom (schedule m1)))
                   (\<lambda>(m2, ev). Inr (w(self := m2), Some ev))
               else
                 ebind (if queuing st = 1
                        then response (w(self := m1)) nb self (Some 1) d (Some [0])
                        else response (w(self := m1)) nb self numCells d None)
                   (\<lambda>(w2, cells).
                      Inr (w2(self := add_answered_cells asn (w2 self) nb d cells), None)))"

definition top_cell_reservation_request ::
  "settings \<Rightarrow> nat \<Rightarrow> int \<Rightarrow> reservation_response \<Rightarrow> world \<Rightarrow> mote_id \<Rightarrow> mote_id \<Rightarrow> int option
   \<Rightarrow> direction \<Rightarrow> py_error + world \<times> send_control option" where
  "top_cell_reservation_request st asn rand response w self nb numCells d =
     ebind (request_tick (w self)) (\<lambda>(m, continues).
       if continues then request_exchange st asn rand response (w(self := m)) self nb numCells d
       else Inr (w(self := m), None))"

section \<open>\<^verbatim>\<open>rxDone\<close>: CONTROL frames and idle listens\<close>

text \<open>
  The reconciliation that \<^verbatim>\<open>rxDone\<close> runs on a confirmation, with \<^verbatim>\<open>data[5]\<close> the
  mote that sent it:
  \<^verbatim>\<open>
  if data[4] == "confirmation" :
      if len(data[0]) == len(self.cellsAllocToNeighbor[data[5]]) :
          if data[0] != self.cellsAllocToNeighbor[data[5]] :
              cells = list(set(data[0] + self.cellsAllocToNeighbor[data[5]]))
              removeSelf = []
              removeNeighb = []
              for ts in cells :
                  if ts in self.schedule.keys() and ts not in data[5].schedule.keys() \
                     and self.schedule[ts]['neighbor'] == data[5]:
                      removeSelf += [ts]
                  if ts in data[5].schedule.keys() and ts not in self.schedule.keys() \
                     and data[5].schedule[ts]['neighbor'] == self:
                      removeNeighb += [ts]
              self._tsch_removeCells(data[5],removeSelf,self.DIR_RX)
              data[5]._tsch_removeCells(self, removeNeighb, data[5].DIR_TX)
              self.cellsAllocToNeighbor[data[5]] = []
      self.pendingTransaction = None
      data[5].pendingTransaction = None
  \<close>
  The order in which Python iterates over the set is not fixed; the model takes the
  order of first occurrence. A confirmation is built with a list of slots as its
  \<^verbatim>\<open>data[0]\<close>; on \<^verbatim>\<open>None\<close> \<^verbatim>\<open>len\<close> raises, and a dict cannot be added to a list.
\<close>

definition confirmation_reconcile ::
  "world \<Rightarrow> mote_id \<Rightarrow> mote_id \<Rightarrow> nat list \<Rightarrow> nat list \<Rightarrow> py_error + world" where
  "confirmation_reconcile w self src conf alloc =
     (let cells = remdups (conf @ alloc);
          removeSelf = filter (\<lambda>ts. holds_for (w self) ts src \<and> schedule (w src) ts = None) cells;
          removeNeighb = filter (\<lambda>ts. holds_for (w src) ts self \<and> schedule (w self) ts = None) cells
      in ebind (tsch_removeCells (w self) src removeSelf (Some DIR_RX)) (\<lambda>m1.
           let w1 = w(self := m1)
           in ebind (tsch_removeCells (w1 src) self removeNeighb (Some DIR_TX)) (\<lambda>m2.
                let w2 = w1(src := m2)
                in Inr (w2(self := (w2 self)
                          \<lparr>cellsAllocToNeighbor := (cellsAllocToNeighbor (w2 self))(src \<mapsto> [])\<rparr>)))))"

definition rx_confirmation :: "world \<Rightarrow> mote_id \<Rightarrow> control_data \<Rightarrow> py_error + world" where
  "rx_confirmation w self data =
     ebind
       (case d_cells data of
          NoCells \<Rightarrow> Inl TypeError
        | CellDict cd \<Rightarrow>
            ebind (py_lookup (cellsAllocToNeighbor (w self)) (d_src data)) (\<lambda>alloc.
              if length cd = length alloc then Inl TypeError else Inr w)
        | TsList conf \<Rightarrow>
            ebind (py_lookup (cellsAllocToNeighbor (w self)) (d_src data)) (\<lambda>alloc.
              if length conf = length alloc then
                (if conf \<noteq> alloc then confirmation_reconcile w self (d_src data) conf alloc
                 else Inr w)
              else Inr w))
       (\<lambda>w1. let w2 = w1(self := (w1 self)\<lparr>pendingTransaction := None\<rparr>)
             in Inr (w2(d_src data := (w2 (d_src data))\<lparr>pendingTransaction := None\<rparr>)))"

text \<open>
  \<^verbatim>\<open>
  def rxDone(self,type=None,data=None,smac=None,dmac=None,payload=None):
      asn   = self.engine.getAsn()
      ts    = asn%self.settings.slotframeLength
      assert ts in self.schedule
      assert self.waitingFor==self.DIR_RX or self.waitingFor==self.DIR_SHARED
      (isACKed, isNACKed) = (True, False)
      if type == "DATA":
          ...
      elif type == 'CONTROL' :
          if data[5] not in self.sequenceNumberWithNeighbor :
              self.sequenceNumberWithNeighbor[data[5]] = 0
          allGood = True
          if data[8] != self.sequenceNumberWithNeighbor[data[5]] + 1 :
              allGood = False
          self.sequenceNumberWithNeighbor[data[5]] = data[8]
          if self.engine.getAsn() in self.ignorePacket :
              allGood = False
          if dmac == self and allGood:
              self._incrementMoteStats('controlPacketsReceived')
              if data[4] == 'req' :
                  assert data[1]
                  self.top_cell_reservation_response(neighbor = data[5], numCells = data[1],
                      dirNeighbor = data[3], args = None, slotUsedByNeighbor = data[6])
              if data[4] == 'answer' :
                  self.top_new_handle_request_ok(data[0], data[1], data[5], data[3])
              if data[4] == 'OTF' :
                  self.otfStatus[data[5]] = data[7]
              (isACKed, isNACKed) = (True, False)
              if data[4] == "confirmation" :
                  ... (above)
      else:
          self._logChargeConsumed(self.CHARGE_Idle_uC)
          (isACKed, isNACKed) = (False, False)
      if not self.settings.queuing :
          self.waitingFor = None
      else :
          self.waitingFor = self.DIR_SHARED
      return isACKed, isNACKed
  \<close>
  The branch of DATA frames is not modelled: a frame is a CONTROL frame with its
  \<^verbatim>\<open>data\<close> and \<^verbatim>\<open>dmac\<close>, or the call without arguments of an idle listen. The
  handlers of a request and of an answer, \<^verbatim>\<open>top_cell_reservation_response\<close> and
  \<^verbatim>\<open>top_new_handle_request_ok\<close>, draw random numbers and schedule engine events;
  they are parameters, called with the arguments \<^verbatim>\<open>rxDone\<close> passes.
\<close>

datatype rx_frame = IdleListen | ControlFrame control_data mote_id

type_synonym response_handler =
  "world \<Rightarrow> mote_id \<Rightarrow> mote_id \<Rightarrow> nat \<Rightarrow> direction option \<Rightarrow> nat list option \<Rightarrow> py_error + world"

type_synonym request_ok_handler =
  "world \<Rightarrow> mote_id \<Rightarrow> cells_arg \<Rightarrow> nat option \<Rightarrow> mote_id \<Rightarrow> direction option \<Rightarrow> py_error + world"

definition CHARGE_Idle_uC :: real where
  "CHARGE_Idle_uC = 24.60"

definition stored_seq :: "mote \<Rightarrow> mote_id \<Rightarrow> int" where
  \<comment> \<open>the counter for a source, after the entry of an unknown source was set to 0\<close>
  "stored_seq m src = (case sequenceNumberWithNeighbor m src of None \<Rightarrow> 0 | Some n \<Rightarrow> n)"

definition rxDone_control ::
  "nat \<Rightarrow> response_handler \<Rightarrow> request_ok_handler \<Rightarrow> world \<Rightarrow> mote_id \<Rightarrow> control_data \<Rightarrow> mote_id
     \<Rightarrow> py_error + world \<times> (bool \<times> bool)" where
  "rxDone_control asn response request_ok w self data dmac =
     (let src = d_src data;
          allGood = (d_seq data = stored_seq (w self) src + 1 \<and> asn \<notin> set (ignorePacket (w self)));
          w1 = w(self := (w self)
                 \<lparr>sequenceNumberWithNeighbor :=
                    (sequenceNumberWithNeighbor (w self))(src \<mapsto> d_seq data)\<rparr>)
      in if dmac = self \<and> allGood then
           let w2 = w1(self := incrementMoteStats (w1 self) controlPacketsReceived)
           in ebind
                (if d_type data = ''req'' then
                   (case d_numCells data of
                      None \<Rightarrow> Inl AssertionError
                    | Some n \<Rightarrow>
                        if n = 0 then Inl AssertionError
                        else response w2 self src n (d_dir data) (d_usedSlots data))
                 else Inr w2) (\<lambda>w3.
              ebind
                (if d_type data = ''answer''
                 then request_ok w3 self (d_cells data) (d_numCells data) src (d_dir data)
                 else Inr w3) (\<lambda>w4.
              let w5 = (if d_type data = ''OTF''
                        then w4(self := (w4 self)
                               \<lparr>otfStatus := (otfStatus (w4 self))(src \<mapsto> d_otf data)\<rparr>)
                        else w4)
              in ebind
                   (if d_type data = ''confirmation'' then rx_confirmation w5 self data
                    else Inr w5) (\<lambda>w6. Inr (w6, (True, False)))))
         else Inr (w1, (True, False)))"

definition rxDone ::
  "settings \<Rightarrow> nat \<Rightarrow> response_handler \<Rightarrow> request_ok_handler \<Rightarrow> world \<Rightarrow> mote_id \<Rightarrow> rx_frame
     \<Rightarrow> py_error + world \<times> (bool \<times> bool)" where
  "rxDone st asn response request_ok w self frame =
     (if slotframeLength st = 0 then Inl ZeroDivisionError
      else if schedule (w self) (asn mod slotframeLength st) = None then Inl AssertionError
      else if \<not> (waitingFor (w self) = Some DIR_RX \<or> waitingFor (w self) = Some DIR_SHARED)
        then Inl AssertionError
      else
        ebind
          (case frame of
             ControlFrame data dmac \<Rightarrow> rxDone_control asn response request_ok w self data dmac
           | IdleListen \<Rightarrow>
               Inr (w(self := (w self)
                      \<lparr>chargeConsumed := chargeConsumed (w self) + CHARGE_Idle_uC\<rparr>),
                    (False, False)))
          (\<lambda>(w1, acks).
             Inr (w1(self := (w1 self)
                    \<lparr>waitingFor := (if queuing st = 0 then None else Some DIR_SHARED)\<rparr>),
                  acks)))"

section \<open>\<^verbatim>\<open>txDone\<close>\<close>

text \<open>
  Queues hold references to packet dicts. \<^verbatim>\<open>q.index(p)\<close>, \<^verbatim>\<open>q.remove(p)\<close> and
  \<^verbatim>\<open>p in q\<close> compare dicts by value: they find the first element of the queue whose
  value equals the value of \<^verbatim>\<open>p\<close>. \<^verbatim>\<open>index\<close> and \<^verbatim>\<open>remove\<close> raise
  \<^verbatim>\<open>ValueError\<close> when there is none.
\<close>

definition TSCH_QUEUE_SIZE :: nat where
  "TSCH_QUEUE_SIZE = 50"

fun py_index :: "(addr \<Rightarrow> packet) \<Rightarrow> addr list \<Rightarrow> packet \<Rightarrow> nat option" where
  "py_index h [] v = None"
| "py_index h (b # q) v = (if h b = v then Some 0 else map_option Suc (py_index h q v))"

fun py_remove :: "(addr \<Rightarrow> packet) \<Rightarrow> addr list \<Rightarrow> packet \<Rightarrow> addr list option" where
  "py_remove h [] v = None"
| "py_remove h (b # q) v = (if h b = v then Some q else map_option ((#) b) (py_remove h q v))"

definition py_in :: "(addr \<Rightarrow> packet) \<Rightarrow> addr list \<Rightarrow> packet \<Rightarrow> bool" where
  "py_in h q v = list_ex (\<lambda>b. h b = v) q"

definition remove_if_in :: "(addr \<Rightarrow> packet) \<Rightarrow> addr list \<Rightarrow> packet \<Rightarrow> addr list" where
  \<comment> \<open>\<^verbatim>\<open>if p in q: q.remove(p)\<close>\<close>
  "remove_if_in h q v = (case py_remove h q v of None \<Rightarrow> q | Some q' \<Rightarrow> q')"

datatype queue_name = TxQueue | ControlQueueHP | ControlQueueNP

definition get_queue :: "queue_name \<Rightarrow> mote \<Rightarrow> addr list" where
  "get_queue qn m =
     (case qn of TxQueue \<Rightarrow> txQueue m | ControlQueueHP \<Rightarrow> controlQueueHP m
      | ControlQueueNP \<Rightarrow> controlQueueNP m)"

definition set_queue :: "queue_name \<Rightarrow> addr list \<Rightarrow> mote \<Rightarrow> mote" where
  "set_queue qn q m =
     (case qn of TxQueue \<Rightarrow> m\<lparr>txQueue := q\<rparr> | ControlQueueHP \<Rightarrow> m\<lparr>controlQueueHP := q\<rparr>
      | ControlQueueNP \<Rightarrow> m\<lparr>controlQueueNP := q\<rparr>)"

definition dec_retriesLeft :: "mote \<Rightarrow> addr \<Rightarrow> mote" where
  \<comment> \<open>\<^verbatim>\<open>if q[i]['retriesLeft'] > 0: q[i]['retriesLeft'] -= 1\<close>, on the packet at \<open>b\<close>\<close>
  "dec_retriesLeft m b =
     (if retriesLeft (pkts m b) > 0
      then m\<lparr>pkts := (pkts m)(b := (pkts m b)\<lparr>retriesLeft := retriesLeft (pkts m b) - 1\<rparr>)\<rparr>
      else m)"

text \<open>
  The block that \<^verbatim>\<open>txDone\<close> runs on the data queue for a DATA packet that was not
  acknowledged, and (with \<^verbatim>\<open>controlQueueHP\<close> or \<^verbatim>\<open>controlQueueNP\<close> in the place of
  \<^verbatim>\<open>txQueue\<close>) on the control queues when \<^verbatim>\<open>queuing\<close> is 2:
  \<^verbatim>\<open>
  i = self.txQueue.index(self.pktToSend)
  if self.txQueue[i]['retriesLeft'] > 0:
      self.txQueue[i]['retriesLeft'] -= 1
  # drop packet if retried too many time
  if self.txQueue[i]['retriesLeft'] == 0:
      if  len(self.txQueue) == self.TSCH_QUEUE_SIZE:
          # update mote stats
          self._incrementMoteStats('droppedMacRetries')
          # remove packet from queue
          self.txQueue.remove(self.pktToSend)
  \<close>
\<close>

definition retry_or_drop :: "queue_name \<Rightarrow> mote \<Rightarrow> addr \<Rightarrow> py_error + mote" where
  "retry_or_drop qn m a =
     (case py_index (pkts m) (get_queue qn m) (pkts m a) of
        None \<Rightarrow> Inl ValueError
      | Some i \<Rightarrow>
          let b = get_queue qn m ! i;
              m1 = dec_retriesLeft m b
          in if retriesLeft (pkts m1 b) = 0 then
               (if length (get_queue qn m1) = TSCH_QUEUE_SIZE then
                  (let m2 = incrementMoteStats m1 droppedMacRetries
                   in case py_remove (pkts m2) (get_queue qn m2) (pkts m2 a) of
                        None \<Rightarrow> Inl ValueError
                      | Some q \<Rightarrow> Inr (set_queue qn q m2))
                else Inr m1)
             else Inr m1)"

text \<open>
  The block for a CONTROL packet that was not acknowledged when \<^verbatim>\<open>queuing\<close> is 1.
  On a shared slot (\<open>shared\<close>) the drop is also taken at the last CSMA backoff and
  resets the backoff state; on a dedicated slot the three backoff lines and the second
  disjunct are absent.
  \<^verbatim>\<open>
  if self.controlQueue :
      i = self.controlQueue.index(self.pktToSend)
      if self.controlQueue[i]['retriesLeft'] > 0:
          self.controlQueue[i]['retriesLeft'] -= 1
      if self.controlQueue[i]['retriesLeft'] == 0 or self.macBackoffNB == self.macMaxCSMABackoffs:
          self.sendcontrolFailed = False
          self.requestTriggered[self.pktToSend['dmac']] = False
          self.macBackoffNB = 0
          self.sendcontrolDelay = 0
          self.backoffExponent = self.macMinBE
          self._incrementMoteStats('droppedMacRetries')
          self.controlQueue.remove(self.pktToSend)
          self._top_abort_transaction()
          if self.pktToSend['data'][4] != 'req' :
              self.pktToSend['dmac']._top_abort_transaction()
  \<close>
\<close>

definition control_drop :: "bool \<Rightarrow> mote \<Rightarrow> addr \<Rightarrow> py_error + mote" where
  \<comment> \<open>the lines of the drop up to the abort of the own transaction\<close>
  "control_drop shared m1 a =
     (case p_dmac (pkts m1 a) of
        None \<Rightarrow> Inl KeyError
      | Some dm \<Rightarrow>
          let m2 = m1\<lparr>sendcontrolFailed := False,
                      requestTriggered := (requestTriggered m1)(dm \<mapsto> False)\<rparr>;
              m3 = (if shared
                    then m2\<lparr>macBackoffNB := 0, sendcontrolDelay := 0,
                            backoffExponent := macMinBE m2\<rparr>
                    else m2);
              m4 = incrementMoteStats m3 droppedMacRetries
          in case py_remove (pkts m4) (controlQueue m4) (pkts m4 a) of
               None \<Rightarrow> Inl ValueError
             | Some q \<Rightarrow> top_abort_transaction (m4\<lparr>controlQueue := q\<rparr>))"

definition peer_abort :: "world \<Rightarrow> mote_id \<Rightarrow> addr \<Rightarrow> py_error + world" where
  \<comment> \<open>the last two lines: the abort of the transaction of the destination\<close>
  "peer_abort w self a =
     (case p_data (pkts (w self) a) of
        None \<Rightarrow> Inl TypeError
      | Some d \<Rightarrow>
          if d_type d \<noteq> ''req'' then
            (case p_dmac (pkts (w self) a) of
               None \<Rightarrow> Inl KeyError
             | Some dm \<Rightarrow> ebind (top_abort_transaction (w dm)) (\<lambda>pm. Inr (w(dm := pm))))
          else Inr w)"

definition control_retry :: "bool \<Rightarrow> world \<Rightarrow> mote_id \<Rightarrow> addr \<Rightarrow> py_error + world" where
  "control_retry shared w self a =
     (let m = w self
      in if controlQueue m = [] then Inr w
         else
           case py_index (pkts m) (controlQueue m) (pkts m a) of
             None \<Rightarrow> Inl ValueError
           | Some i \<Rightarrow>
               let b = controlQueue m ! i;
                   m1 = dec_retriesLeft m b
               in if retriesLeft (pkts m1 b) = 0
                     \<or> (shared \<and> macBackoffNB m1 = macMaxCSMABackoffs m1)
                  then ebind (control_drop shared m1 a) (\<lambda>m5. peer_abort (w(self := m5)) self a)
                  else Inr (w(self := m1)))"

text \<open>
  The three outcomes of \<^verbatim>\<open>txDone\<close>. \<open>c\<close> is the cell \<^verbatim>\<open>self.schedule[ts]\<close>,
  \<open>delay\<close> the number that \<^verbatim>\<open>random.randint(1, pow(2, self.backoffExponent))\<close>
  returns for \<^verbatim>\<open>sendcontrolDelay\<close>.
  \<^verbatim>\<open>
  if isACKed:
      self.schedule[ts]['numTxAck'] += 1
      self.schedule[ts]['history'] += [1]
      self._logQueueDelayStat(asn-self.pktToSend['asn'])
      if self.schedule[ts]['neighbor'] == self.preferredParent:
          self.timeCorrectedSlot = asn
      if self.pktToSend['type'] == "CONTROL":
          self.requestTriggered[self.pktToSend['dmac']] = False
          if self.settings.queuing == 2:
              if self.pktToSend in self.controlQueueHP :
                  self.controlQueueHP.remove(self.pktToSend)
              elif self.pktToSend in self.controlQueueNP :
                  self.controlQueueNP.remove(self.pktToSend)
          elif self.settings.queuing == 1 :
              if self.pktToSend in self.controlQueue :
                  self.sendcontrolFailed = False
                  self.controlQueue.remove(self.pktToSend)
          self.sendcontrolFailed = False
          self.requestTriggered[self.pktToSend['dmac']] = False
          self.macBackoffNB = 0
          self.sendcontrolDelay = 0
          self.backoffExponent = self.macMinBE
      elif self.pktToSend['type'] == "DATA" :
          self.txQueue.remove(self.pktToSend)
  \<close>
\<close>

definition time_correction :: "nat \<Rightarrow> cell \<Rightarrow> mote \<Rightarrow> mote" where
  "time_correction asn c m =
     (if neighbor c = preferredParent m then m\<lparr>timeCorrectedSlot := Some asn\<rparr> else m)"

definition txDone_acked :: "settings \<Rightarrow> nat \<Rightarrow> nat \<Rightarrow> cell \<Rightarrow> mote \<Rightarrow> py_error + mote" where
  "txDone_acked st asn ts c m =
     (let m1 = m\<lparr>schedule := (schedule m)
                   (ts \<mapsto> c\<lparr>numTxAck := numTxAck c + 1, history := history c @ [1]\<rparr>)\<rparr>
      in case pktToSend m1 of
           None \<Rightarrow> Inl TypeError
         | Some a \<Rightarrow>
             let m2 = m1\<lparr>queuestats_delay :=
                           queuestats_delay m1 @ [int asn - int (p_asn (pkts m1 a))]\<rparr>;
                 m3 = time_correction asn c m2
             in if p_type (pkts m3 a) = CONTROL then
                  (case p_dmac (pkts m3 a) of
                     None \<Rightarrow> Inl KeyError
                   | Some dm \<Rightarrow>
                       let m4 = m3\<lparr>requestTriggered := (requestTriggered m3)(dm \<mapsto> False)\<rparr>;
                           m5 =
                             (if queuing st = 2 then
                                (if py_in (pkts m4) (controlQueueHP m4) (pkts m4 a)
                                 then m4\<lparr>controlQueueHP :=
                                          remove_if_in (pkts m4) (controlQueueHP m4) (pkts m4 a)\<rparr>
                                 else m4\<lparr>controlQueueNP :=
                                          remove_if_in (pkts m4) (controlQueueNP m4) (pkts m4 a)\<rparr>)
                              else if queuing st = 1 then
                                (if py_in (pkts m4) (controlQueue m4) (pkts m4 a)
                                 then m4\<lparr>sendcontrolFailed := False,
                                         controlQueue :=
                                           remove_if_in (pkts m4) (controlQueue m4) (pkts m4 a)\<rparr>
                                 else m4)
                              else m4)
                       in Inr (m5\<lparr>sendcontrolFailed := False,
                                  requestTriggered := (requestTriggered m5)(dm \<mapsto> False),
                                  macBackoffNB := 0, sendcontrolDelay := 0,
                                  backoffExponent := macMinBE m5\<rparr>))
                else
                  (case py_remove (pkts m3) (txQueue m3) (pkts m3 a) of
                     None \<Rightarrow> Inl ValueError
                   | Some q \<Rightarrow> Inr (m3\<lparr>txQueue := q\<rparr>)))"

text \<open>
  \<^verbatim>\<open>
  elif isNACKed:
      self.schedule[ts]['numTxAck'] += 1
      self.schedule[ts]['history'] += [1]
      if self.schedule[ts]['neighbor'] == self.preferredParent:
          self.timeCorrectedSlot = asn
      if self.pktToSend['type'] == "DATA" :
          (the block on txQueue)
      elif self.pktToSend['type'] == "CONTROL"  and ts in self.sharedSlots :
          if self.settings.queuing == 1 :
              self.macBackoffNB += 1
              self.backoffExponent = min(self.backoffExponent + 1, self.macMaxBE)
              rand = random.randint(1, pow(2, self.backoffExponent))
              self.sendcontrolDelay = random.randint(1, pow(2, self.backoffExponent))
              self.sendcontrolFailed = True
              (the block on controlQueue, shared)
          elif self.settings.queuing == 2 :
              if self.pktToSend in self.controlQueueHP :
                  (the block on controlQueueHP)
              elif self.pktToSend in self.controlQueueNP :
                  (the block on controlQueueNP)
      elif self.pktToSend['type'] == "CONTROL"  and ts not in self.sharedSlots :
          if self.settings.queuing == 1 :
              self.sendControlFailed = True
              (the block on controlQueue, dedicated)
          elif self.settings.queuing == 2 :
              (as on a shared slot)
  \<close>
  \<^verbatim>\<open>sendControlFailed\<close>, with a capital C, is an attribute of its own.
\<close>

definition csma_backoff :: "int \<Rightarrow> mote \<Rightarrow> mote" where
  "csma_backoff delay m =
     m\<lparr>macBackoffNB := macBackoffNB m + 1,
       backoffExponent := min (backoffExponent m + 1) (macMaxBE m),
       sendcontrolDelay := delay, sendcontrolFailed := True\<rparr>"

definition txDone_nacked ::
  "settings \<Rightarrow> nat \<Rightarrow> int \<Rightarrow> nat \<Rightarrow> cell \<Rightarrow> world \<Rightarrow> mote_id \<Rightarrow> py_error + world" where
  "txDone_nacked st asn delay ts c w self =
     (let m = w self;
          m1 = m\<lparr>schedule := (schedule m)
                   (ts \<mapsto> c\<lparr>numTxAck := numTxAck c + 1, history := history c @ [1]\<rparr>)\<rparr>;
          m2 = time_correction asn c m1
      in case pktToSend m2 of
           None \<Rightarrow> Inl TypeError
         | Some a \<Rightarrow>
             if p_type (pkts m2 a) = DATA then
               ebind (retry_or_drop TxQueue m2 a) (\<lambda>m3. Inr (w(self := m3)))
             else if queuing st = 1 then
               (if ts \<in> set (sharedSlots m2)
                then control_retry True (w(self := csma_backoff delay m2)) self a
                else control_retry False (w(self := m2\<lparr>sendControlFailed := True\<rparr>)) self a)
             else if queuing st = 2 then
               (if py_in (pkts m2) (controlQueueHP m2) (pkts m2 a)
                then ebind (retry_or_drop ControlQueueHP m2 a) (\<lambda>m3. Inr (w(self := m3)))
                else if py_in (pkts m2) (controlQueueNP m2) (pkts m2 a)
                then ebind (retry_or_drop ControlQueueNP m2 a) (\<lambda>m3. Inr (w(self := m3)))
                else Inr (w(self := m2)))
             else Inr (w(self := m2)))"

text \<open>
  \<^verbatim>\<open>
  else:
      self.schedule[ts]['history'] += [0]
      if self.pktToSend['type'] == "DATA" :
          (the block on txQueue)
      elif self.pktToSend['type'] == 'CONTROL' and ts in self.sharedSlots:
          if self.settings.queuing == 2 :
              if self.controlQueueHP :
                  (the block on controlQueueHP)
              else :
                  (the block on controlQueueNP)
          elif self.settings.queuing == 1 :
              self.macBackoffNB += 1
              self.backoffExponent = min(self.backoffExponent + 1, self.macMaxBE)
              self.sendcontrolDelay = random.randint(1, pow(2, self.backoffExponent))
              self.sendcontrolFailed = True
              (the block on controlQueue, shared)
      elif self.pktToSend['type'] == 'CONTROL' and ts not in self.sharedSlots:
          if self.settings.queuing == 2 :
              (as on a shared slot)
          elif self.settings.queuing == 1 :
              self.sendcontrolFailed = True
              (the block on controlQueue, dedicated)
  \<close>
\<close>

definition txDone_failed ::
  "settings \<Rightarrow> int \<Rightarrow> nat \<Rightarrow> cell \<Rightarrow> world \<Rightarrow> mote_id \<Rightarrow> py_error + world" where
  "txDone_failed st delay ts c w self =
     (let m = w self;
          m1 = m\<lparr>schedule := (schedule m)(ts \<mapsto> c\<lparr>history := history c @ [0]\<rparr>)\<rparr>
      in case pktToSend m1 of
           None \<Rightarrow> Inl TypeError
         | Some a \<Rightarrow>
             if p_type (pkts m1 a) = DATA then
               ebind (retry_or_drop TxQueue m1 a) (\<lambda>m2. Inr (w(self := m2)))
             else if queuing st = 2 then
               (if controlQueueHP m1 \<noteq> []
                then ebind (retry_or_drop ControlQueueHP m1 a) (\<lambda>m2. Inr (w(self := m2)))
                else ebind (retry_or_drop ControlQueueNP m1 a) (\<lambda>m2. Inr (w(self := m2))))
             else if queuing st = 1 then
               (if ts \<in> set (sharedSlots m1)
                then control_retry True (w(self := csma_backoff delay m1)) self a
                else control_retry False (w(self := m1\<lparr>sendcontrolFailed := True\<rparr>)) self a)
             else Inr (w(self := m1)))"

text \<open>
  The end of \<^verbatim>\<open>txDone\<close>, where \<^verbatim>\<open>self.engine.motes\<close> is the list of all motes:
  \<^verbatim>\<open>
  if not self.settings.queuing :
      self.waitingFor = None
  else :
      self.waitingFor = self.DIR_SHARED
  # for debug
  ch = self.schedule[ts]['ch']
  rx = self.schedule[ts]['neighbor']
  canbeInterfered = 0
  for mote in self.engine.motes:
      if mote == self:
          continue
      if ts in mote.schedule and ch == mote.schedule[ts]['ch'] \
         and mote.schedule[ts]['dir'] == self.DIR_TX:
          if mote.getRSSI(rx)>rx.minRssi:
              canbeInterfered = 1
  self.schedule[ts]['debug_canbeInterfered'] += [canbeInterfered]
  \<close>
  \<^verbatim>\<open>getRSSI\<close> reads \<^verbatim>\<open>rx.id\<close>, which raises \<^verbatim>\<open>AttributeError\<close> on the
  \<^verbatim>\<open>None\<close> of a shared cell.
\<close>

fun canbeInterfered_loop ::
  "world \<Rightarrow> mote_id \<Rightarrow> nat \<Rightarrow> nat \<Rightarrow> mote_id option \<Rightarrow> mote_id list \<Rightarrow> nat \<Rightarrow> py_error + nat" where
  "canbeInterfered_loop w self ts c rx [] canbeInterfered = Inr canbeInterfered"
| "canbeInterfered_loop w self ts c rx (mt # rest) canbeInterfered =
     (if mt = self then canbeInterfered_loop w self ts c rx rest canbeInterfered
      else
        case schedule (w mt) ts of
          None \<Rightarrow> canbeInterfered_loop w self ts c rx rest canbeInterfered
        | Some mc \<Rightarrow>
            if c = ch mc \<and> dir mc = DIR_TX then
              (case rx of
                 None \<Rightarrow> Inl AttributeError
               | Some r \<Rightarrow>
                   canbeInterfered_loop w self ts c rx rest
                     (if getRSSI (w mt) r > minRssi (w r) then 1 else canbeInterfered))
            else canbeInterfered_loop w self ts c rx rest canbeInterfered)"

definition txDone_end :: "settings \<Rightarrow> mote_id list \<Rightarrow> nat \<Rightarrow> world \<Rightarrow> mote_id \<Rightarrow> py_error + world" where
  "txDone_end st engine_motes ts w self =
     (let w1 = w(self := (w self)
                 \<lparr>waitingFor := (if queuing st = 0 then None else Some DIR_SHARED)\<rparr>)
      in case schedule (w1 self) ts of
           None \<Rightarrow> Inl KeyError
         | Some c \<Rightarrow>
             ebind (canbeInterfered_loop w1 self ts (ch c) (neighbor c) engine_motes 0) (\<lambda>v.
               Inr (w1(self := (w1 self)
                      \<lparr>schedule := (schedule (w1 self))
                         (ts \<mapsto> c\<lparr>debug_canbeInterfered := debug_canbeInterfered c @ [v]\<rparr>)\<rparr>))))"

text \<open>
  \<^verbatim>\<open>
  def txDone(self,isACKed,isNACKed):
      asn   = self.engine.getAsn()
      ts    = asn%self.settings.slotframeLength
      assert ts in self.schedule
      assert self.schedule[ts]['dir']==self.DIR_TX or self.schedule[ts]['dir']==self.DIR_SHARED
      assert self.waitingFor==self.DIR_TX or self.waitingFor==self.DIR_SHARED
      if isACKed: ...
      elif isNACKed: ...
      else: ...
      (the end)
  \<close>
\<close>

definition txDone ::
  "settings \<Rightarrow> nat \<Rightarrow> int \<Rightarrow> mote_id list \<Rightarrow> world \<Rightarrow> mote_id \<Rightarrow> bool \<Rightarrow> bool \<Rightarrow> py_error + world" where
  "txDone st asn delay engine_motes w self isACKed isNACKed =
     (if slotframeLength st = 0 then Inl ZeroDivisionError
      else
        let ts = asn mod slotframeLength st
        in case schedule (w self) ts of
             None \<Rightarrow> Inl AssertionError
           | Some c \<Rightarrow>
               if \<not> (dir c = DIR_TX \<or> dir c = DIR_SHARED) then Inl AssertionError
               else if \<not> (waitingFor (w self) = Some DIR_TX \<or> waitingFor (w self) = Some DIR_SHARED)
                 then Inl AssertionError
               else
                 ebind
                   (if isACKed
                    then ebind (txDone_acked st asn ts c (w self)) (\<lambda>m. Inr (w(self := m)))
                    else if isNACKed then txDone_nacked st asn delay ts c w self
                    else txDone_failed st delay ts c w self)
                   (\<lambda>w1. txDone_end st engine_motes ts w1 self))"

text \<open>
  The slice that the 6top housekeeping reads from a cell's history,
  \<^verbatim>\<open>recentHistory = cell['history'][-self.NUM_MAX_HISTORY:]\<close>.
\<close>

definition NUM_MAX_HISTORY :: nat where
  "NUM_MAX_HISTORY = 32"

definition recentHistory :: "cell \<Rightarrow> nat list" where
  "recentHistory c = drop (length (history c) - NUM_MAX_HISTORY) (history c)"

section \<open>Predicates and example states used by the properties\<close>

text \<open>
  A channel is free in both tables when both reads succeed and return \<^verbatim>\<open>False\<close>.
  A reserve table is well formed at a slot when it has the row of the slot and the row
  has an entry for every channel, as the table built by \<^verbatim>\<open>__init__\<close> has for every
  slot of the slotframe.
\<close>

definition free_in_both :: "settings \<Rightarrow> mote \<Rightarrow> mote \<Rightarrow> nat \<Rightarrow> nat \<Rightarrow> bool" where
  "free_in_both st self nb ts j \<longleftrightarrow>
     j < numChans st \<and> reserve_at self ts j = Inr False \<and> reserve_at nb ts j = Inr False"

definition reserve_ok :: "settings \<Rightarrow> mote \<Rightarrow> nat \<Rightarrow> bool" where
  "reserve_ok st m ts \<longleftrightarrow> ts < length (reserve m) \<and> numChans st \<le> length (reserve m ! ts)"

definition st_demo :: settings where
  "st_demo =
     \<lparr>slotframeLength = 4, numChans = 3, numSharedSlots = 1, queuing = 1,
      otfThreshold = 0, noInterference = False, settings_minRssi = - 97,
      bootstrap = True, slotDuration = 1 / 100, dioPeriod = 10\<rparr>"

definition reserved_row :: "bool list \<Rightarrow> mote" where
  \<comment> \<open>a fresh mote whose reserve table has the given row at slot 2\<close>
  "reserved_row row = (new_mote st_demo)\<lparr>reserve := (reserve (new_mote st_demo))[2 := row]\<rparr>"

definition st_otf :: settings where
  "st_otf =
     \<lparr>slotframeLength = 101, numChans = 16, numSharedSlots = 1, queuing = 1,
      otfThreshold = 2, noInterference = False, settings_minRssi = - 97,
      bootstrap = True, slotDuration = 1 / 100, dioPeriod = 10\<rparr>"

definition has_cells :: "int \<Rightarrow> mote" where
  \<comment> \<open>a fresh mote with \<open>n\<close> TX cells counted to mote 5\<close>
  "has_cells n = (new_mote st_otf)\<lparr>numCellsToNeighbors := [5 \<mapsto> n]\<rparr>"

text \<open>
  Four transmissions in one slot. Mote 1 sends to mote 0 on channel 3; motes 2 and 3
  send on channel 3 to mote 4 and arrive earlier; mote 5 sends on channel 7 and arrives
  first of all. Mote 0 hears motes 2 and 5 above its \<^verbatim>\<open>minRssi\<close> of \<open>- 97\<close> and
  mote 3 below it.
\<close>

definition w_lock :: world where
  "w_lock = (\<lambda>_. new_mote st_demo)(0 := (new_mote st_demo)\<lparr>RSSI := [1 \<mapsto> - 70, 2 \<mapsto> - 80, 3 \<mapsto> - 99]\<rparr>)"

definition tx_lock :: "mote_id \<Rightarrow> mote_id \<Rightarrow> nat \<Rightarrow> transmission" where
  "tx_lock s d c = \<lparr>t_channel = c, t_type = DATA, t_data = None, t_smac = s, t_dmac = d, t_payload = [int s, 0, 1]\<rparr>"

definition at_lock :: "mote_id \<Rightarrow> real" where
  "at_lock s = (if s = 2 then - 5 else if s = 3 then - 9 else if s = 5 then - 20 else 0)"

text \<open>
  An interferer of a transmission \<open>t\<close>, in the words of the specification: the
  transmitter of a transmission other than \<open>t\<close> on the channel of \<open>t\<close> whose RSSI at the
  destination of \<open>t\<close> exceeds the destination's \<^verbatim>\<open>minRssi\<close>.
\<close>

definition interferer :: "world \<Rightarrow> transmission list \<Rightarrow> transmission \<Rightarrow> mote_id \<Rightarrow> bool" where
  "interferer w transmissions t i \<longleftrightarrow>
     (\<exists>u \<in> set transmissions. u \<noteq> t \<and> t_channel u = t_channel t \<and> t_smac u = i)
     \<and> getRSSI (w (t_dmac t)) i > minRssi (w (t_dmac t))"

definition drop_slot :: "mote \<Rightarrow> mote_id \<Rightarrow> nat \<Rightarrow> nat \<rightharpoonup> cell" where
  \<comment> \<open>the schedule after the loop body of \<^verbatim>\<open>_tsch_removeCells\<close> ran for \<open>ts\<close>\<close>
  "drop_slot m nb ts = (if holds_for m ts nb then (schedule m)(ts := None) else schedule m)"

definition drop_slots :: "mote \<Rightarrow> mote_id \<Rightarrow> nat list \<Rightarrow> nat \<rightharpoonup> cell" where
  \<comment> \<open>the schedule after \<^verbatim>\<open>_tsch_removeCells\<close> ran for the list\<close>
  "drop_slots m nb tsList = (\<lambda>ts. if ts \<in> set tsList \<and> holds_for m ts nb then None else schedule m ts)"

definition keeps_shared :: "world \<Rightarrow> world \<Rightarrow> bool" where
  \<comment> \<open>every cell without a neighbour, as the shared cells are, is still there\<close>
  "keeps_shared w w' \<longleftrightarrow>
     (\<forall>m ts c. schedule (w m) ts = Some c \<and> neighbor c = None \<longrightarrow> schedule (w' m) ts = Some c)"

text \<open>
  Two motes after \<^verbatim>\<open>boot\<close> with a slotframe of 10 slots and 2 shared slots, and a
  dedicated cell at slot 7 from mote 1 (TX) to mote 2 (RX), with the counters and the
  \<^verbatim>\<open>PDR\<close> entries that go with it.
\<close>

definition st_shared :: settings where
  "st_shared =
     \<lparr>slotframeLength = 10, numChans = 3, numSharedSlots = 2, queuing = 1,
      otfThreshold = 0, noInterference = False, settings_minRssi = - 97,
      bootstrap = True, slotDuration = 1 / 100, dioPeriod = 10\<rparr>"

definition booted :: mote where
  "booted = boot st_shared 0 (new_mote st_shared)"

definition w_del :: world where
  "w_del = (\<lambda>_. booted)
     (1 := (tsch_addCells 0 booted 2 [(7, 1, DIR_TX)])
             \<lparr>numCellsToNeighbors := [2 \<mapsto> 1], PDR := [(2, 1)]\<rparr>,
      2 := (tsch_addCells 0 booted 1 [(7, 1, DIR_RX)])
             \<lparr>numCellsFromNeighbors := [1 \<mapsto> 1], PDR := [(1, 1), (3, 1 / 2)]\<rparr>)"

text \<open>
  Settings with more shared slots than slots in the slotframe, and a shared cell that
  has been used for three transmissions.
\<close>

definition st_few :: settings where
  "st_few =
     \<lparr>slotframeLength = 2, numChans = 3, numSharedSlots = 3, queuing = 1,
      otfThreshold = 0, noInterference = False, settings_minRssi = - 97,
      bootstrap = True, slotDuration = 1 / 100, dioPeriod = 10\<rparr>"

definition used_shared_cell :: cell where
  "used_shared_cell = (shared_cell 0)\<lparr>numTx := 3, numTxAck := 2, history := [0, 1, 1]\<rparr>"

definition w_used :: world where
  "w_used = w_del(1 := (w_del 1)\<lparr>schedule := (schedule (w_del 1))(5 \<mapsto> used_shared_cell)\<rparr>)"

text \<open>
  The cells a pending transaction records: none when \<^verbatim>\<open>cells\<close> is \<^verbatim>\<open>None\<close>.
  \<open>aborted m p m2\<close> says that \<open>m2\<close> is \<open>m\<close> after the abort of its pending
  transaction \<open>p\<close>, for the fields the abort writes apart from the two cell counters.
\<close>

definition cells_of :: "pending \<Rightarrow> (nat \<times> nat \<times> direction) list" where
  "cells_of p = (case pt_cells p of None \<Rightarrow> [] | Some cs \<Rightarrow> cs)"

definition aborted :: "mote \<Rightarrow> pending \<Rightarrow> mote \<Rightarrow> bool" where
  "aborted m p m2 \<longleftrightarrow>
     schedule m2 = drop_slots m (pt_neighbor p) (map fst (cells_of p))
     \<and> requestTriggered m2 = (requestTriggered m)(pt_neighbor p \<mapsto> False)
     \<and> pendingTransaction m2 = None
     \<and> transactionRetries m2 = 0
     \<and> motestats m2 = (motestats m)(transactionAborted := motestats m transactionAborted + 1)"

text \<open>
  A mote that installed the RX cell at slot 7 for mote 2 as a responder, holds the
  pending transaction of it, and has counted 19 retries.
\<close>

definition p_timeout :: pending where
  "p_timeout = \<lparr>pt_type = ''parentAdds'', pt_neighbor = 2, pt_cells = Some [(7, 1, DIR_RX)],
                 pt_sequenceNum = 3\<rparr>"

definition m_timeout :: mote where
  "m_timeout = (tsch_addCells 0 booted 2 [(7, 1, DIR_RX)])
     \<lparr>sequenceNumberWithNeighbor := [2 \<mapsto> 3], transactionRetries := 19,
      pendingTransaction := Some p_timeout, numCellsToNeighbors := [2 \<mapsto> 0],
      numCellsFromNeighbors := [2 \<mapsto> 1]\<rparr>"

text \<open>
  The slots of \<open>cells\<close> that \<open>self\<close> holds for \<open>src\<close> while \<open>src\<close> has no cell there:
  the list \<^verbatim>\<open>removeSelf\<close> of the reconciliation, and \<^verbatim>\<open>removeNeighb\<close> with the two
  motes exchanged.
\<close>

definition removeSelf_of :: "world \<Rightarrow> mote_id \<Rightarrow> mote_id \<Rightarrow> nat list \<Rightarrow> nat list" where
  "removeSelf_of w self src cells =
     filter (\<lambda>ts. holds_for (w self) ts src \<and> schedule (w src) ts = None) cells"

text \<open>
  The state in which \<^verbatim>\<open>rxDone\<close> starts the handler of an accepted CONTROL frame (the
  counter of the source is set and the frame is counted), and the state in which it
  returns after a confirmation whose handling ended in \<open>w\<close>.
\<close>

definition rx_accepted :: "world \<Rightarrow> mote_id \<Rightarrow> control_data \<Rightarrow> world" where
  "rx_accepted w self data =
     w(self := incrementMoteStats
                 ((w self)\<lparr>sequenceNumberWithNeighbor :=
                             (sequenceNumberWithNeighbor (w self))(d_src data \<mapsto> d_seq data)\<rparr>)
                 controlPacketsReceived)"

definition rx_finished :: "settings \<Rightarrow> world \<Rightarrow> mote_id \<Rightarrow> mote_id \<Rightarrow> world" where
  "rx_finished st w self src =
     (let w2 = w(self := (w self)\<lparr>pendingTransaction := None\<rparr>);
          w3 = w2(src := (w2 src)\<lparr>pendingTransaction := None\<rparr>)
      in w3(self := (w3 self)\<lparr>waitingFor := (if queuing st = 0 then None else Some DIR_SHARED)\<rparr>))"

text \<open>
  A responder (mote 2) that allocated the RX cells at slots 7 and 8 to an initiator
  (mote 4), and the initiator after it installed the cells \<open>installed\<close> of the answer,
  having the cells \<open>busy\<close> with mote 6 already. The handlers of requests and answers of
  the examples raise: the examples never reach them.
\<close>

definition no_response :: response_handler where
  "no_response w self nb n d used = Inl TypeError"

definition no_request_ok :: request_ok_handler where
  "no_request_ok w self cells n nb d = Inl TypeError"

definition responder :: mote where
  "responder = (tsch_addCells 0 booted 4 [(7, 3, DIR_RX), (8, 2, DIR_RX)])
     \<lparr>sequenceNumberWithNeighbor := [4 \<mapsto> 2],
      pendingTransaction :=
        Some \<lparr>pt_type = ''parentAdds'', pt_neighbor = 4,
              pt_cells = Some [(7, 3, DIR_RX), (8, 2, DIR_RX)], pt_sequenceNum = 2\<rparr>,
      numCellsFromNeighbors := [4 \<mapsto> 2], cellsAllocToNeighbor := [4 \<mapsto> [7, 8]]\<rparr>"

definition initiator :: "(nat \<times> nat \<times> direction) list \<Rightarrow> (nat \<times> nat \<times> direction) list \<Rightarrow> mote" where
  "initiator busy installed = (tsch_addCells 0 (tsch_addCells 0 booted 6 busy) 2 installed)
     \<lparr>sequenceNumberWithNeighbor := [2 \<mapsto> 3],
      pendingTransaction :=
        Some \<lparr>pt_type = ''moteRequest'', pt_neighbor = 2, pt_cells = None, pt_sequenceNum = 0\<rparr>,
      numCellsToNeighbors := [2 \<mapsto> int (length installed)],
      numCellsFromNeighbors := [6 \<mapsto> int (length busy)]\<rparr>"

definition w_conf :: "(nat \<times> nat \<times> direction) list \<Rightarrow> (nat \<times> nat \<times> direction) list \<Rightarrow> world" where
  "w_conf busy installed = (\<lambda>_. booted)(4 := initiator busy installed, 2 := responder)"

definition confirmation_of :: "nat list \<Rightarrow> int \<Rightarrow> control_data" where
  "confirmation_of slots sq =
     \<lparr>d_cells = TsList slots, d_numCells = Some (length slots), d_neighb = 2, d_dir = None,
      d_type = ''confirmation'', d_src = 4, d_usedSlots = None, d_otf = None, d_seq = sq\<rparr>"

text \<open>
  A mote with one dedicated TX cell to mote 2 at slot 7 that is about to learn the
  outcome of a DATA packet: the packet, with \<open>r\<close> retries left, is the head of the data
  queue, \<open>rest\<close> is the rest of the queue.
\<close>

definition data_packet :: "int \<Rightarrow> packet" where
  "data_packet r =
     \<lparr>p_asn = 0, p_type = DATA, p_data = None, p_dmac = None, p_smac = None,
      p_payload = [4, 0, 1], retriesLeft = r\<rparr>"

definition sender :: "int \<Rightarrow> addr list \<Rightarrow> mote" where
  "sender r rest = (tsch_addCells 0 booted 2 [(7, 3, DIR_TX)])
     \<lparr>preferredParent := Some 2, numCellsToNeighbors := [2 \<mapsto> 1],
      pkts := (\<lambda>_. data_packet 5)(0 := data_packet r), txQueue := 0 # rest,
      pktToSend := Some 0, waitingFor := Some DIR_TX\<rparr>"

definition w_tx :: "int \<Rightarrow> addr list \<Rightarrow> world" where
  "w_tx r rest = (\<lambda>_. booted)(2 := responder, 4 := sender r rest)"

text \<open>
  The calls of \<^verbatim>\<open>txDone\<close> that the propagation model makes to one mote, one per
  transmission: each event is the ASN of the slot and the two flags.
\<close>

fun txDone_run ::
  "settings \<Rightarrow> int \<Rightarrow> mote_id list \<Rightarrow> world \<Rightarrow> mote_id \<Rightarrow> (nat \<times> bool \<times> bool) list \<Rightarrow> py_error + world" where
  "txDone_run st delay ms w self [] = Inr w"
| "txDone_run st delay ms w self ((asn, isACKed, isNACKed) # rest) =
     (case txDone st asn delay ms w self isACKed isNACKed of
        Inl e \<Rightarrow> Inl e
      | Inr w' \<Rightarrow> txDone_run st delay ms w' self rest)"

definition history_length :: "py_error + world \<Rightarrow> mote_id \<Rightarrow> nat \<Rightarrow> nat option" where
  "history_length res x ts =
     (case res of Inl e \<Rightarrow> None
      | Inr w \<Rightarrow> map_option (\<lambda>c. length (history c)) (schedule (w x) ts))"

definition queue_after :: "py_error + world \<Rightarrow> mote_id \<Rightarrow> addr \<Rightarrow> (int \<times> addr list \<times> int) option" where
  \<comment> \<open>retries left of the packet, data queue and \<^verbatim>\<open>droppedMacRetries\<close> of a mote afterwards\<close>
  "queue_after res x a =
     (case res of Inl e \<Rightarrow> None
      | Inr w \<Rightarrow> Some (retriesLeft (pkts (w x) a), txQueue (w x), motestats (w x) droppedMacRetries))"

text \<open>
  The mote of the timeout as mote 4 of a world, a neighbour whose
  \<^verbatim>\<open>top_cell_reservation_response\<close> raises (the examples send the request and never
  call it), and what the claim speaks of at the end of a call: the pending transaction,
  \<^verbatim>\<open>requestTriggered\<close> of the neighbour and the statistic of the mote.
\<close>

definition w_timeout :: world where
  "w_timeout = (\<lambda>_. booted)(4 := m_timeout)"

definition no_reservation_response :: reservation_response where
  "no_reservation_response w self nb numCells d used = Inl TypeError"

definition request_state ::
  "py_error + world \<times> send_control option \<Rightarrow> mote_id \<Rightarrow> mote_id
   \<Rightarrow> (pending option \<times> bool option \<times> int) option" where
  "request_state res x nb =
     (case res of
        Inl e \<Rightarrow> None
      | Inr (w, ev) \<Rightarrow>
          Some (pendingTransaction (w x), requestTriggered (w x) nb,
                motestats (w x) transactionAborted))"

section \<open>Verified properties\<close>

subsection \<open>C10: the channel chosen by \<^verbatim>\<open>_choose_channel\<close>\<close>

lemma reserve_at_ok:
  "reserve_ok st m ts \<Longrightarrow> j < numChans st \<Longrightarrow> reserve_at m ts j = Inr (reserve m ! ts ! j)"
  by (simp add: reserve_ok_def reserve_at_def py_get_def)

lemma choose_channel_loop_filter:
  assumes "reserve_ok st self ts" "reserve_ok st nb ts" "\<forall>j \<in> set js. j < numChans st"
  shows "choose_channel_loop self nb ts js k =
           Inr (k @ filter (\<lambda>j. \<not> reserve self ! ts ! j \<and> \<not> reserve nb ! ts ! j) js)"
  using assms(3)
proof (induction js arbitrary: k)
  case Nil
  then show ?case by simp
next
  case (Cons j js)
  then show ?case
    using assms(1,2) by (simp add: reserve_at_ok)
qed

lemma new_mote_reserve_ok:
  "ts < slotframeLength st \<Longrightarrow> reserve_ok st (new_mote st) ts"
  by (simp add: reserve_ok_def new_mote_def)

text \<open>
  C10. Let \<open>shuffle\<close> permute its argument and let both reserve tables be well formed at
  slot \<open>ts\<close>. If some channel below \<^verbatim>\<open>numChans\<close> is unreserved at \<open>ts\<close> in the table
  of the caller and in the table of the neighbour, \<^verbatim>\<open>_choose_channel\<close> returns such a
  channel. If no channel is unreserved in both tables, it raises \<^verbatim>\<open>IndexError\<close>: the
  list \<^verbatim>\<open>k\<close> is empty and \<^verbatim>\<open>k[0]\<close> fails.
\<close>

theorem choose_channel_free:
  assumes perm: "\<And>k. mset (shuffle k) = mset k"
    and ok: "reserve_ok st self ts" "reserve_ok st nb ts"
  shows "((\<exists>j. free_in_both st self nb ts j) \<longrightarrow>
            (\<exists>j. choose_channel shuffle st self nb ts = Inr j \<and> free_in_both st self nb ts j))
       \<and> ((\<forall>j. \<not> free_in_both st self nb ts j) \<longrightarrow>
            choose_channel shuffle st self nb ts = Inl IndexError)"
proof -
  define k where "k = filter (\<lambda>j. \<not> reserve self ! ts ! j \<and> \<not> reserve nb ! ts ! j) [0..<numChans st]"
  have loop: "choose_channel_loop self nb ts [0..<numChans st] [] = Inr k"
    using choose_channel_loop_filter [OF ok, of "[0..<numChans st]" "[]"] by (simp add: k_def)
  have res: "choose_channel shuffle st self nb ts = py_get (shuffle k) 0"
    by (simp add: choose_channel_def loop)
  have free_iff: "free_in_both st self nb ts j \<longleftrightarrow> j \<in> set k" for j
    using ok by (auto simp: free_in_both_def reserve_at_ok k_def)
  have set_eq: "set (shuffle k) = set k"
    using perm [of k] by (rule mset_eq_setD)
  show ?thesis
  proof (intro conjI impI)
    assume "\<exists>j. free_in_both st self nb ts j"
    then obtain i where "i \<in> set (shuffle k)"
      unfolding free_iff set_eq by blast
    then obtain j js where sh: "shuffle k = j # js"
      by (cases "shuffle k") auto
    have "j \<in> set (shuffle k)"
      unfolding sh by simp
    then have "free_in_both st self nb ts j"
      unfolding free_iff set_eq .
    moreover have "choose_channel shuffle st self nb ts = Inr j"
      unfolding res sh by (simp add: py_get_def)
    ultimately show "\<exists>j. choose_channel shuffle st self nb ts = Inr j \<and> free_in_both st self nb ts j"
      by blast
  next
    assume "\<forall>j. \<not> free_in_both st self nb ts j"
    then have "\<forall>j. j \<notin> set (shuffle k)"
      unfolding free_iff set_eq .
    then have "shuffle k = []"
      by (cases "shuffle k") auto
    then show "choose_channel shuffle st self nb ts = Inl IndexError"
      unfolding res by (simp add: py_get_def)
  qed
qed

lemma reserved_row_ok: "length row = 3 \<Longrightarrow> reserve_ok st_demo (reserved_row row) 2"
  by (simp add: reserve_ok_def reserved_row_def new_mote_def st_demo_def)

lemma reserved_row_at:
  "length row = 3 \<Longrightarrow> j < 3 \<Longrightarrow> reserve_at (reserved_row row) 2 j = Inr (row ! j)"
  by (simp add: reserve_at_def py_get_def reserved_row_def new_mote_def st_demo_def)

text \<open>
  With three channels and \<^verbatim>\<open>rev\<close> as the shuffle: channel 0 is reserved by the caller
  and channel 2 by the neighbour, so a free channel is returned; when the neighbour has
  reserved channels 1 and 2, no channel is free in both tables and the call raises.
\<close>

theorem choose_channel_free_witness:
  "(\<exists>j. choose_channel rev st_demo (reserved_row [True, False, False])
            (reserved_row [False, False, True]) 2 = Inr j
        \<and> free_in_both st_demo (reserved_row [True, False, False])
            (reserved_row [False, False, True]) 2 j)
   \<and> choose_channel rev st_demo (reserved_row [True, False, False])
            (reserved_row [False, True, True]) 2 = Inl IndexError"
proof
  have free: "free_in_both st_demo (reserved_row [True, False, False])
            (reserved_row [False, False, True]) 2 1"
    by (simp add: free_in_both_def reserved_row_at) (simp add: st_demo_def)
  show "\<exists>j. choose_channel rev st_demo (reserved_row [True, False, False])
            (reserved_row [False, False, True]) 2 = Inr j
        \<and> free_in_both st_demo (reserved_row [True, False, False])
            (reserved_row [False, False, True]) 2 j"
    using choose_channel_free [of rev st_demo "reserved_row [True, False, False]" 2
        "reserved_row [False, False, True]"] free
    by (simp add: reserved_row_ok) blast
  have none: "\<not> free_in_both st_demo (reserved_row [True, False, False])
            (reserved_row [False, True, True]) 2 j" for j
  proof
    assume f: "free_in_both st_demo (reserved_row [True, False, False])
            (reserved_row [False, True, True]) 2 j"
    then have "j < 3" by (simp add: free_in_both_def st_demo_def)
    then consider "j = 0" | "j = 1" | "j = 2" by linarith
    then show False
      using f by cases (simp_all add: free_in_both_def reserved_row_at)
  qed
  show "choose_channel rev st_demo (reserved_row [True, False, False])
            (reserved_row [False, True, True]) 2 = Inl IndexError"
    using choose_channel_free [of rev st_demo "reserved_row [True, False, False]" 2
        "reserved_row [False, True, True]"] none
    by (simp add: reserved_row_ok)
qed

subsection \<open>C8: the SINR\<close>

lemma totalInterference_loop_sum:
  "totalInterference_loop w d noise itfrs acc =
     acc + (\<Sum>itfr\<leftarrow>itfrs. max 0 (dBmTomW (getRSSI (w itfr) d) - noise))"
  by (induction itfrs arbitrary: acc) (auto simp: Let_def max_def)

lemma dBmTomW_pos: "0 < dBmTomW x"
  by (simp add: dBmTomW_def)

lemma clipped_sum_nonneg: "0 \<le> (\<Sum>x\<leftarrow>xs. max (0::real) (f x))"
  by (induction xs) auto

text \<open>
  C8. \<^verbatim>\<open>_computeSINR\<close> returns \<open>- 10\<close> when the signal \<open>S\<close>, the received power
  minus the noise in mW, is negative; otherwise it returns \<open>mWToDbm (S / (I + noise))\<close>,
  where \<open>I\<close> is the sum over the interferers of \<open>max 0\<close> of their received power minus
  the noise. This is \<open>spec_SINR\<close>; the loop of the code computes the same number. At
  \<open>S = 0\<close> both sides are the \<^verbatim>\<open>ValueError\<close> that \<^verbatim>\<open>math.log10(0)\<close> raises. The
  arithmetic is that of the real numbers.
\<close>

theorem computeSINR_spec:
  "computeSINR w source destination interferers = spec_SINR w source destination interferers"
proof -
  let ?noise = "dBmTomW (noisepower (w destination))"
  let ?I = "\<Sum>itfr\<leftarrow>interferers. max 0 (dBmTomW (getRSSI (w itfr) destination) - ?noise)"
  have "0 < ?I + ?noise"
    using dBmTomW_pos [of "noisepower (w destination)"] clipped_sum_nonneg [of _ interferers]
    by (simp add: add_nonneg_pos)
  then have "?I + ?noise \<noteq> 0" by simp
  then show ?thesis
    by (simp add: computeSINR_def spec_SINR_def Let_def totalInterference_loop_sum)
qed


subsection \<open>C6: cells added and removed by OTF\<close>

lemma round_half_even_nonneg: "0 \<le> x \<Longrightarrow> 0 \<le> round_half_even x"
  by (simp add: round_half_even_def)

lemma round_half_even_of_int [simp]: "round_half_even (of_int n) = n"
  by (simp add: round_half_even_def)

lemma round_double_nonneg: "0 \<le> x \<Longrightarrow> 0 \<le> round_double x"
  by (simp add: round_double_def round_half_even_nonneg)

lemma ulp_exponent_eq:
  assumes "2 powr of_int k \<le> \<bar>x\<bar>" and "\<bar>x\<bar> < 2 powr (of_int k + 1)" and "- 1022 \<le> k"
  shows "ulp_exponent x = k - 52"
proof -
  have "0 < \<bar>x\<bar>"
    using assms(1) powr_gt_zero [of 2 "of_int k"] by linarith
  then have "\<lfloor>log 2 \<bar>x\<bar>\<rfloor> = k"
    using assms(1,2) by (simp add: floor_log_eq_powr_iff)
  then show ?thesis
    using assms(3) by (simp add: ulp_exponent_def)
qed

lemma round_double_eval:
  assumes "2 powr of_int k \<le> \<bar>x\<bar>" and "\<bar>x\<bar> < 2 powr (of_int k + 1)" and "- 1022 \<le> k"
  shows "round_double x =
    of_int (round_half_even (x / 2 powr of_int (k - 52))) * 2 powr of_int (k - 52)"
proof -
  have "x \<noteq> 0"
    using assms(1) powr_gt_zero [of 2 "of_int k"] by auto
  then show ?thesis
    by (simp add: round_double_def ulp_exponent_eq [OF assms])
qed

lemma rd3: "round_double 3 = 3"
  using round_double_eval [of 1 3] by (simp add: round_half_even_def powr_minus)

lemma rd2: "round_double 2 = 2"
  using round_double_eval [of 1 2] by (simp add: round_half_even_def powr_minus)

lemma rd_a: "round_double (3602879701896397 / 4503599627370496) = 3602879701896397 / 4503599627370496"
  using round_double_eval [of "- 1" "3602879701896397 / 4503599627370496"]
  by (simp add: round_half_even_def powr_minus)

lemma rd_b: "round_double (18014398509481985 / 18014398509481984) = 1"
  using round_double_eval [of 0 "18014398509481985 / 18014398509481984"]
  by (simp add: round_half_even_def powr_minus)


lemma not_infinite_small: "\<bar>round_double x\<bar> \<le> 4 \<Longrightarrow> \<not> is_infinite x"
proof -
  have "(4::real) < 2 ^ 1024"
    by simp
  then show "\<bar>round_double x\<bar> \<le> 4 \<Longrightarrow> \<not> is_infinite x"
    unfolding is_infinite_def by linarith
qed

text \<open>
  C6. For a parent with \<open>now\<close> TX cells, \<open>req\<close> is the ceiling of the product
  \<^verbatim>\<open>portion*genTraffic*etx\<close> as Python computes it, in double precision from left to
  right, with the ETX capped at 4, and \<open>threshold\<close> is the ceiling of the double product
  \<^verbatim>\<open>portion*otfThreshold\<close>. The mote calls 6top to add cells if and only if
  \<open>now < req\<close>, and then \<open>req - now + (threshold + 1) div 2\<close> cells; it calls 6top to
  remove cells if and only if \<open>req < now - threshold\<close>, and then
  \<open>now - req - (threshold + 1) div 2\<close> cells. The setting \<^verbatim>\<open>otfThreshold\<close> and the
  portion are not negative, \<^verbatim>\<open>_estimateETX\<close> returned a number and no product
  is infinite.
\<close>

theorem otf_housekeeping_parent_cells:
  assumes "0 \<le> otfThreshold st" and "0 \<le> portion"
    and "\<not> is_infinite (portion * genTraffic)"
    and "\<not> is_infinite (round_double (portion * genTraffic) * min e 4)"
    and "\<not> is_infinite (of_int (otfThreshold st))"
    and "\<not> is_infinite (portion * round_double (of_int (otfThreshold st)))"
  shows "\<exists>req threshold.
         otf_reqCells portion genTraffic e = Inr req
       \<and> req = \<lceil>round_double (round_double (portion * genTraffic) * min e 4)\<rceil>
       \<and> otf_threshold st portion = Inr threshold
       \<and> threshold = \<lceil>round_double (portion * round_double (of_int (otfThreshold st)))\<rceil>
       \<and> ((\<exists>n. otf_housekeeping_parent st self parent portion genTraffic (Some e) = Inr (TopAdd n))
            \<longleftrightarrow> otf_nowCells self parent < req)
       \<and> (otf_nowCells self parent < req \<longrightarrow>
            otf_housekeeping_parent st self parent portion genTraffic (Some e) =
              Inr (TopAdd (req - otf_nowCells self parent + (threshold + 1) div 2)))
       \<and> ((\<exists>n. otf_housekeeping_parent st self parent portion genTraffic (Some e) = Inr (TopRemove n))
            \<longleftrightarrow> req < otf_nowCells self parent - threshold)
       \<and> (req < otf_nowCells self parent - threshold \<longrightarrow>
            otf_housekeeping_parent st self parent portion genTraffic (Some e) =
              Inr (TopRemove (otf_nowCells self parent - req - (threshold + 1) div 2)))"
proof -
  define r where "r = \<lceil>round_double (round_double (portion * genTraffic) * min e 4)\<rceil>"
  define t where "t = \<lceil>round_double (portion * round_double (of_int (otfThreshold st)))\<rceil>"
  define n where "n = otf_nowCells self parent"
  have cap: "(if e > RPL_MAX_ETX then RPL_MAX_ETX else e) = min e 4"
    by (simp add: RPL_MAX_ETX_def min_def)
  have req: "otf_reqCells portion genTraffic e = Inr r"
    unfolding otf_reqCells_def Let_def cap r_def using assms(3,4) by simp
  have thr: "otf_threshold st portion = Inr t"
    unfolding otf_threshold_def t_def using assms(5,6) by simp
  have "0 \<le> round_double (of_int (otfThreshold st))"
    using assms(1) by (simp add: round_double_nonneg)
  then have "0 \<le> portion * round_double (of_int (otfThreshold st))"
    using assms(2) by simp
  then have "0 \<le> round_double (portion * round_double (of_int (otfThreshold st)))"
    by (rule round_double_nonneg)
  then have t0: "0 \<le> t"
    unfolding t_def by linarith
  have step: "otf_housekeeping_parent st self parent portion genTraffic (Some e) =
      (if n < r then Inr (TopAdd (r - n + (t + 1) div 2))
       else if r < n - t then Inr (TopRemove (n - r - (t + 1) div 2))
       else Inr OtfNothing)"
    by (simp add: otf_housekeeping_parent_def Let_def req thr n_def ebind_def)
  have "((\<exists>k. otf_housekeeping_parent st self parent portion genTraffic (Some e) = Inr (TopAdd k))
            \<longleftrightarrow> n < r)
       \<and> (n < r \<longrightarrow> otf_housekeeping_parent st self parent portion genTraffic (Some e) =
              Inr (TopAdd (r - n + (t + 1) div 2)))
       \<and> ((\<exists>k. otf_housekeeping_parent st self parent portion genTraffic (Some e) = Inr (TopRemove k))
            \<longleftrightarrow> r < n - t)
       \<and> (r < n - t \<longrightarrow> otf_housekeeping_parent st self parent portion genTraffic (Some e) =
              Inr (TopRemove (n - r - (t + 1) div 2)))"
    unfolding step using t0 by auto
  then show ?thesis
    unfolding n_def using req thr r_def t_def by blast
qed

lemma otf_example_products:
  "\<not> is_infinite (1 * 3)" "\<not> is_infinite (round_double (1 * 3) * min 1 4)"
  "\<not> is_infinite (of_int (otfThreshold st_otf))"
  "\<not> is_infinite (1 * round_double (of_int (otfThreshold st_otf)))"
  "\<lceil>round_double (round_double (1 * 3) * min 1 4)\<rceil> = 3"
  "\<lceil>round_double (1 * round_double (of_int (otfThreshold st_otf)))\<rceil> = 2"
  by (simp_all add: st_otf_def rd3 rd2 not_infinite_small)

lemma otf_rounded_products:
  "\<not> is_infinite (3602879701896397 / 9007199254740992 * 2)"
  "\<not> is_infinite (round_double (3602879701896397 / 9007199254740992 * 2) * min (5 / 4) 4)"
  "\<not> is_infinite (3602879701896397 / 9007199254740992 * round_double (of_int (otfThreshold st_otf)))"
  "\<lceil>round_double (round_double (3602879701896397 / 9007199254740992 * 2) * min (5 / 4) 4)\<rceil> = 1"
  "\<lceil>round_double (3602879701896397 / 9007199254740992 * round_double (of_int (otfThreshold st_otf)))\<rceil> = 1"
  "\<lceil>(3602879701896397 / 9007199254740992 * 2 * (5 / 4) :: real)\<rceil> = 2"
  by (simp_all add: st_otf_def rd2 rd_a rd_b not_infinite_small)

text \<open>
  With \<^verbatim>\<open>otfThreshold = 2\<close>, portion 1, 3 packets per cycle and ETX 1: \<open>req = 3\<close> and
  \<open>threshold = 2\<close>. A mote with 1 cell adds \<open>3 - 1 + 1 = 3\<close> cells, a mote with 7 cells
  removes \<open>7 - 3 - 1 = 3\<close>, and a mote with 4 cells removes none. With the double
  nearest to 0.4 as portion, 2 packets per cycle and ETX 1.25, the double product is
  1.0 where the product of the three numbers is a little more: \<open>req = 1\<close>, and a mote
  with 1 cell adds none.
\<close>

theorem otf_housekeeping_parent_cells_witness:
  "otf_housekeeping_parent st_otf (has_cells 1) 5 1 3 (Some 1) = Inr (TopAdd 3)
   \<and> otf_housekeeping_parent st_otf (has_cells 7) 5 1 3 (Some 1) = Inr (TopRemove 3)
   \<and> otf_housekeeping_parent st_otf (has_cells 4) 5 1 3 (Some 1) \<noteq> Inr (TopRemove 0)
   \<and> otf_reqCells (3602879701896397 / 9007199254740992) 2 (5 / 4) = Inr 1
   \<and> otf_housekeeping_parent st_otf (has_cells 1) 5 (3602879701896397 / 9007199254740992) 2
        (Some (5 / 4)) \<noteq> Inr (TopAdd 2)
   \<and> \<lceil>(3602879701896397 / 9007199254740992 * 2 * (5 / 4) :: real)\<rceil> = 2"
proof -
  have now: "otf_nowCells (has_cells n) 5 = n" for n
    by (simp add: otf_nowCells_def has_cells_def)
  have pre: "0 \<le> otfThreshold st_otf" "(0::real) \<le> 1"
    "(0::real) \<le> 3602879701896397 / 9007199254740992"
    by (simp_all add: st_otf_def)
  note A = otf_housekeeping_parent_cells [where st = st_otf and portion = 1 and genTraffic = 3
      and e = 1 and parent = 5, OF pre(1) pre(2) otf_example_products(1-4),
      unfolded otf_example_products(5,6) now]
  from A [of "has_cells 1"]
  have 1: "otf_housekeeping_parent st_otf (has_cells 1) 5 1 3 (Some 1) = Inr (TopAdd 3)"
    by (auto simp: now)
  from A [of "has_cells 7"]
  have 2: "otf_housekeeping_parent st_otf (has_cells 7) 5 1 3 (Some 1) = Inr (TopRemove 3)"
    by (auto simp: now)
  from A [of "has_cells 4"]
  have 3: "otf_housekeeping_parent st_otf (has_cells 4) 5 1 3 (Some 1) \<noteq> Inr (TopRemove 0)"
    by (auto simp: now)
  note B = otf_housekeeping_parent_cells [where st = st_otf
      and portion = "3602879701896397 / 9007199254740992" and genTraffic = 2
      and e = "5 / 4" and parent = 5 and self = "has_cells 1",
      OF pre(1) pre(3) otf_rounded_products(1,2) otf_example_products(3) otf_rounded_products(3),
      unfolded otf_rounded_products(4,5) now]
  from B have 4: "otf_reqCells (3602879701896397 / 9007199254740992) 2 (5 / 4) = Inr 1"
    by auto
  from B have 5: "otf_housekeeping_parent st_otf (has_cells 1) 5 (3602879701896397 / 9007199254740992) 2
        (Some (5 / 4)) \<noteq> Inr (TopAdd 2)"
    by auto
  show ?thesis
    using 1 2 3 4 5 otf_rounded_products(6) by blast
qed

subsection \<open>C5: lock-on\<close>

lemma lockOn_loop_props:
  fixes arr :: "mote_id \<Rightarrow> real"
  shows "(lockOn_loop arr d xs l0 = l0
          \<or> (lockOn_loop arr d xs l0 \<in> set (filter (\<lambda>i. getRSSI d i > minRssi d) xs)
              \<and> arr (lockOn_loop arr d xs l0) < arr l0))
       \<and> (\<forall>i \<in> set (filter (\<lambda>i. getRSSI d i > minRssi d) xs). arr (lockOn_loop arr d xs l0) \<le> arr i)
       \<and> arr (lockOn_loop arr d xs l0) \<le> arr l0"
proof (induction xs arbitrary: l0)
  case Nil
  then show ?case by simp
next
  case (Cons x xs)
  show ?case
  proof (cases "arr x < arr l0 \<and> getRSSI d x > minRssi d")
    case True
    then have eq: "lockOn_loop arr d (x # xs) l0 = lockOn_loop arr d xs x" by simp
    show ?thesis
      unfolding eq using Cons.IH [of x] True by auto
  next
    case False
    then have eq: "lockOn_loop arr d (x # xs) l0 = lockOn_loop arr d xs l0" by auto
    show ?thesis
      unfolding eq using Cons.IH [of l0] False by auto
  qed
qed

lemma interferer_iff:
  "interferer w transmissions t i \<longleftrightarrow>
     i \<in> set (filter (\<lambda>i. getRSSI (w (t_dmac t)) i > minRssi (w (t_dmac t)))
               (interferers_of transmissions t))"
  by (auto simp: interferer_def interferers_of_def)

text \<open>
  C5. For a transmission \<open>t\<close> whose destination listens on its channel, with
  interference modelled: \<^verbatim>\<open>lockOn\<close> is the transmitter of \<open>t\<close> or an interferer (the
  transmitter of another transmission of the slot on the channel of \<open>t\<close>, whose RSSI at
  the destination exceeds the destination's \<^verbatim>\<open>minRssi\<close>) that arrives before \<open>t\<close>; no
  interferer arrives before \<^verbatim>\<open>lockOn\<close>; \<^verbatim>\<open>lockOn\<close> is the transmitter of \<open>t\<close> exactly
  when no interferer arrives before \<open>t\<close>. The desired packet goes to the delivery draw
  exactly when \<^verbatim>\<open>lockOn\<close> is the transmitter of \<open>t\<close>, with the SINR of \<open>t\<close> against the
  transmitters of all other transmissions on the channel; otherwise it is lost to the
  interferer \<^verbatim>\<open>lockOn\<close>, whose SINR is taken against the other transmitters on the
  channel and the transmitter of \<open>t\<close>.
\<close>

theorem lockOn_earliest_audible:
  fixes arrivalTime :: "mote_id \<Rightarrow> real"
  assumes "\<not> noInterference st"
  shows "(lockOn_of w arrivalTime transmissions t = t_smac t
          \<or> (interferer w transmissions t (lockOn_of w arrivalTime transmissions t)
              \<and> arrivalTime (lockOn_of w arrivalTime transmissions t) < arrivalTime (t_smac t)))
       \<and> (\<forall>i. interferer w transmissions t i \<longrightarrow>
             arrivalTime (lockOn_of w arrivalTime transmissions t) \<le> arrivalTime i)
       \<and> (lockOn_of w arrivalTime transmissions t = t_smac t \<longleftrightarrow>
            (\<forall>i. interferer w transmissions t i \<longrightarrow> \<not> arrivalTime i < arrivalTime (t_smac t)))
       \<and> ((\<exists>sinr. resolve_reception st w arrivalTime transmissions t = DeliveryDraw sinr) \<longleftrightarrow>
            lockOn_of w arrivalTime transmissions t = t_smac t)
       \<and> (lockOn_of w arrivalTime transmissions t = t_smac t \<longrightarrow>
            resolve_reception st w arrivalTime transmissions t =
              DeliveryDraw (computeSINR w (t_smac t) (t_dmac t)
                (map t_smac (filter (\<lambda>u. u \<noteq> t \<and> t_channel u = t_channel t) transmissions))))
       \<and> (lockOn_of w arrivalTime transmissions t \<noteq> t_smac t \<longrightarrow>
            resolve_reception st w arrivalTime transmissions t =
              LockedOnInterferer (lockOn_of w arrivalTime transmissions t)
                (computeSINR w (lockOn_of w arrivalTime transmissions t) (t_dmac t)
                  (remove1 (lockOn_of w arrivalTime transmissions t)
                     (map t_smac (filter (\<lambda>u. u \<noteq> t \<and> t_channel u = t_channel t) transmissions))
                   @ [t_smac t])))"
proof -
  define L where "L = lockOn_of w arrivalTime transmissions t"
  define A where "A = set (filter (\<lambda>i. getRSSI (w (t_dmac t)) i > minRssi (w (t_dmac t)))
               (interferers_of transmissions t))"
  have A: "interferer w transmissions t i \<longleftrightarrow> i \<in> A" for i
    by (simp add: A_def interferer_iff)
  note P = lockOn_loop_props [of arrivalTime "w (t_dmac t)" "interferers_of transmissions t" "t_smac t",
      folded lockOn_of_def, folded L_def A_def]
  have 1: "L = t_smac t \<or> (L \<in> A \<and> arrivalTime L < arrivalTime (t_smac t))"
    using P by blast
  have 2: "\<forall>i \<in> A. arrivalTime L \<le> arrivalTime i"
    using P by blast
  have 3: "L = t_smac t \<longleftrightarrow> (\<forall>i \<in> A. \<not> arrivalTime i < arrivalTime (t_smac t))"
  proof
    assume "L = t_smac t"
    then show "\<forall>i \<in> A. \<not> arrivalTime i < arrivalTime (t_smac t)"
      using 2 by fastforce
  next
    assume "\<forall>i \<in> A. \<not> arrivalTime i < arrivalTime (t_smac t)"
    then show "L = t_smac t"
      using 1 by blast
  qed
  have 4: "(\<exists>sinr. resolve_reception st w arrivalTime transmissions t = DeliveryDraw sinr) \<longleftrightarrow>
            L = t_smac t"
    using assms by (simp add: resolve_reception_def Let_def L_def)
  have 5: "L = t_smac t \<Longrightarrow> resolve_reception st w arrivalTime transmissions t =
              DeliveryDraw (computeSINR w (t_smac t) (t_dmac t)
                (map t_smac (filter (\<lambda>u. u \<noteq> t \<and> t_channel u = t_channel t) transmissions)))"
    using assms by (simp add: resolve_reception_def Let_def L_def interferers_of_def)
  have 6: "L \<noteq> t_smac t \<Longrightarrow> resolve_reception st w arrivalTime transmissions t =
              LockedOnInterferer L (computeSINR w L (t_dmac t)
                  (remove1 L (map t_smac (filter (\<lambda>u. u \<noteq> t \<and> t_channel u = t_channel t) transmissions))
                   @ [t_smac t]))"
    using assms by (simp add: resolve_reception_def Let_def L_def interferers_of_def)
  show ?thesis
    unfolding L_def [symmetric] A using 1 2 3 4 5 6 by blast
qed

lemma interferer_lock:
  "interferer w_lock [tx_lock 1 0 3, tx_lock 2 4 3, tx_lock 3 4 3, tx_lock 5 4 7] (tx_lock 1 0 3) i
     \<longleftrightarrow> i = 2"
  by (auto simp: interferer_def tx_lock_def w_lock_def getRSSI_def new_mote_def st_demo_def)

lemma no_interferer_lock:
  "\<not> interferer w_lock [tx_lock 1 0 3, tx_lock 5 4 7] (tx_lock 1 0 3) i"
  by (auto simp: interferer_def tx_lock_def)

text \<open>
  Mote 1 sends to mote 0 on channel 3. The three other transmissions of the slot arrive
  earlier: those of motes 2 and 3 on channel 3, that of mote 5, the earliest, on channel
  7. Mote 0 hears motes 2 and 5 and not mote 3. The receiver locks on mote 2, the only
  interferer, and the packet is lost. With mote 5 alone, on the other channel, the packet
  goes to the delivery draw.
\<close>

theorem lockOn_earliest_audible_witness:
  "lockOn_of w_lock at_lock [tx_lock 1 0 3, tx_lock 2 4 3, tx_lock 3 4 3, tx_lock 5 4 7] (tx_lock 1 0 3) = 2
   \<and> (\<exists>sinr. resolve_reception st_demo w_lock at_lock
               [tx_lock 1 0 3, tx_lock 2 4 3, tx_lock 3 4 3, tx_lock 5 4 7] (tx_lock 1 0 3) =
             LockedOnInterferer 2 sinr)
   \<and> (\<exists>sinr. resolve_reception st_demo w_lock at_lock [tx_lock 1 0 3, tx_lock 5 4 7] (tx_lock 1 0 3) =
             DeliveryDraw sinr)"
proof -
  let ?txs = "[tx_lock 1 0 3, tx_lock 2 4 3, tx_lock 3 4 3, tx_lock 5 4 7]"
  have ni: "\<not> noInterference st_demo" by (simp add: st_demo_def)
  note T = lockOn_earliest_audible [OF ni, of w_lock at_lock ?txs "tx_lock 1 0 3", unfolded interferer_lock]
  have smac: "t_smac (tx_lock 1 0 3) = 1" by (simp add: tx_lock_def)
  have early: "at_lock 2 < at_lock (t_smac (tx_lock 1 0 3))"
    unfolding smac by (simp add: at_lock_def)
  from T [THEN conjunct2, THEN conjunct2, THEN conjunct1]
  have "lockOn_of w_lock at_lock ?txs (tx_lock 1 0 3) \<noteq> t_smac (tx_lock 1 0 3)"
    using early by auto
  with T [THEN conjunct1] have L: "lockOn_of w_lock at_lock ?txs (tx_lock 1 0 3) = 2"
    by blast
  have ne: "lockOn_of w_lock at_lock ?txs (tx_lock 1 0 3) \<noteq> t_smac (tx_lock 1 0 3)"
    unfolding L smac by simp
  from T [THEN conjunct2, THEN conjunct2, THEN conjunct2, THEN conjunct2, THEN conjunct2, THEN mp, OF ne]
  have a: "\<exists>sinr. resolve_reception st_demo w_lock at_lock ?txs (tx_lock 1 0 3) = LockedOnInterferer 2 sinr"
    unfolding L by blast
  note T2 = lockOn_earliest_audible [OF ni, of w_lock at_lock "[tx_lock 1 0 3, tx_lock 5 4 7]" "tx_lock 1 0 3"]
  from T2 [THEN conjunct2, THEN conjunct2, THEN conjunct1] no_interferer_lock
  have "lockOn_of w_lock at_lock [tx_lock 1 0 3, tx_lock 5 4 7] (tx_lock 1 0 3) = t_smac (tx_lock 1 0 3)"
    by blast
  with T2 [THEN conjunct2, THEN conjunct2, THEN conjunct2, THEN conjunct1]
  have b: "\<exists>sinr. resolve_reception st_demo w_lock at_lock [tx_lock 1 0 3, tx_lock 5 4 7] (tx_lock 1 0 3) = DeliveryDraw sinr"
    by blast
  show ?thesis using L a b by blast
qed

subsection \<open>The error monad\<close>

lemma ebind_Inr_iff: "ebind m f = Inr y \<longleftrightarrow> (\<exists>x. m = Inr x \<and> f x = Inr y)"
  by (cases m) (simp_all add: ebind_def)

lemma ebind_simps [simp]: "ebind (Inr x) f = f x" "ebind (Inl e) f = Inl e"
  by (simp_all add: ebind_def)

subsection \<open>C7: the shared cells\<close>

lemma boot_loop_schedule:
  "schedule (boot_loop st asn is m) ts =
     (if ts \<in> (\<lambda>i. i * (slotframeLength st div numSharedSlots st)) ` set is
      then Some (shared_cell asn) else schedule m ts)"
  by (induction "is" arbitrary: m) auto

lemma shared_offsets_image:
  "shared_offsets st = (\<lambda>i. i * (slotframeLength st div numSharedSlots st)) ` set [0..<numSharedSlots st]"
  by (auto simp: shared_offsets_def)

lemma boot_schedule:
  "schedule (boot st asn m) ts =
     (if ts \<in> shared_offsets st then Some (shared_cell asn) else schedule m ts)"
  by (simp add: boot_def boot_loop_schedule shared_offsets_image del: set_upt)

lemma card_shared_offsets:
  assumes "numSharedSlots st \<le> slotframeLength st"
  shows "card (shared_offsets st) = numSharedSlots st"
proof (cases "numSharedSlots st = 0")
  case True
  then show ?thesis by (simp add: shared_offsets_def)
next
  case False
  then have "0 < slotframeLength st div numSharedSlots st"
    using assms by (simp add: div_greater_zero_iff)
  then have "inj_on (\<lambda>i. i * (slotframeLength st div numSharedSlots st)) {0..<numSharedSlots st}"
    by (auto simp: inj_on_def)
  then show ?thesis
    by (simp add: shared_offsets_image card_image)
qed

lemma removeCell_frame:
  assumes "removeCell m nb ts d = Inr m1"
  shows "\<exists>cTo cFrom. m1 = m\<lparr>numCellsToNeighbors := cTo, numCellsFromNeighbors := cFrom,
                             schedule := drop_slot m nb ts\<rparr>"
proof (cases "holds_for m ts nb")
  case False
  then have "m1 = m"
    using assms by (auto simp: removeCell_def holds_for_def split: option.splits)
  then have "m1 = m\<lparr>numCellsToNeighbors := numCellsToNeighbors m,
      numCellsFromNeighbors := numCellsFromNeighbors m, schedule := drop_slot m nb ts\<rparr>"
    using False by (simp add: drop_slot_def)
  then show ?thesis by blast
next
  case True
  then obtain c where c: "schedule m ts = Some c" "neighbor c = Some nb"
    by (auto simp: holds_for_def split: option.splits)
  consider "d = Some DIR_TX" | "d \<noteq> Some DIR_TX" "d = Some DIR_RX" | "d \<noteq> Some DIR_TX" "d \<noteq> Some DIR_RX"
    by blast
  then show ?thesis
  proof cases
    case 1
    with assms c obtain n where "numCellsToNeighbors m nb = Some n"
      and "m1 = m\<lparr>numCellsToNeighbors := (numCellsToNeighbors m)(nb \<mapsto> n - 1),
                           schedule := (schedule m)(ts := None)\<rparr>"
      by (simp add: removeCell_def split: option.splits)
    then have "m1 = m\<lparr>numCellsToNeighbors := (numCellsToNeighbors m)(nb \<mapsto> n - 1),
        numCellsFromNeighbors := numCellsFromNeighbors m, schedule := drop_slot m nb ts\<rparr>"
      using True by (simp add: drop_slot_def)
    then show ?thesis by blast
  next
    case 2
    with assms c obtain n where "numCellsFromNeighbors m nb = Some n"
      and "m1 = m\<lparr>numCellsFromNeighbors := (numCellsFromNeighbors m)(nb \<mapsto> n - 1),
                           schedule := (schedule m)(ts := None)\<rparr>"
      by (simp add: removeCell_def split: option.splits)
    then have "m1 = m\<lparr>numCellsToNeighbors := numCellsToNeighbors m,
        numCellsFromNeighbors := (numCellsFromNeighbors m)(nb \<mapsto> n - 1), schedule := drop_slot m nb ts\<rparr>"
      using True by (simp add: drop_slot_def)
    then show ?thesis by blast
  next
    case 3
    with assms c have "m1 = m\<lparr>schedule := (schedule m)(ts := None)\<rparr>"
      by (simp add: removeCell_def)
    then have "m1 = m\<lparr>numCellsToNeighbors := numCellsToNeighbors m,
        numCellsFromNeighbors := numCellsFromNeighbors m, schedule := drop_slot m nb ts\<rparr>"
      using True by (simp add: drop_slot_def)
    then show ?thesis by blast
  qed
qed

lemma drop_slots_step:
  assumes "schedule m1 = drop_slot m nb ts"
  shows "drop_slots m1 nb tsList = drop_slots m nb (ts # tsList)"
  using assms by (auto simp: drop_slots_def drop_slot_def holds_for_def fun_eq_iff)

lemma tsch_removeCells_frame:
  "tsch_removeCells m nb tsList d = Inr m' \<Longrightarrow>
     \<exists>cTo cFrom. m' = m\<lparr>numCellsToNeighbors := cTo, numCellsFromNeighbors := cFrom,
                          schedule := drop_slots m nb tsList\<rparr>"
proof (induction tsList arbitrary: m)
  case Nil
  then have "m' = m\<lparr>numCellsToNeighbors := numCellsToNeighbors m,
      numCellsFromNeighbors := numCellsFromNeighbors m, schedule := drop_slots m nb []\<rparr>"
    by (simp add: drop_slots_def)
  then show ?case by blast
next
  case (Cons ts tsList)
  from Cons.prems obtain m1 where step: "removeCell m nb ts d = Inr m1"
    and rest: "tsch_removeCells m1 nb tsList d = Inr m'"
    by (auto split: sum.splits)
  from removeCell_frame [OF step] obtain cTo cFrom where
    m1: "m1 = m\<lparr>numCellsToNeighbors := cTo, numCellsFromNeighbors := cFrom,
                  schedule := drop_slot m nb ts\<rparr>"
    by blast
  then have "schedule m1 = drop_slot m nb ts" by simp
  then have ds: "drop_slots m1 nb tsList = drop_slots m nb (ts # tsList)"
    by (rule drop_slots_step)
  from Cons.IH [OF rest] obtain cTo' cFrom' where
    "m' = m1\<lparr>numCellsToNeighbors := cTo', numCellsFromNeighbors := cFrom',
              schedule := drop_slots m1 nb tsList\<rparr>"
    by blast
  then have "m' = m\<lparr>numCellsToNeighbors := cTo', numCellsFromNeighbors := cFrom',
              schedule := drop_slots m nb (ts # tsList)\<rparr>"
    unfolding ds by (simp add: m1)
  then show ?case by blast
qed

lemma tsch_removeCells_keeps:
  assumes "tsch_removeCells m nb tsList d = Inr m'" "schedule m ts = Some c" "neighbor c = None"
  shows "schedule m' ts = Some c"
proof -
  from tsch_removeCells_frame [OF assms(1)] have "schedule m' = drop_slots m nb tsList"
    by auto
  then show ?thesis
    using assms(2,3) by (simp add: drop_slots_def holds_for_def)
qed

lemma delete_cell_neighbor_schedule:
  "delete_cell_neighbor cells nbm = Inr nbm' \<Longrightarrow> schedule nbm' = schedule nbm"
  by (induction cells nbm rule: delete_cell_neighbor.induct) (auto split: if_splits)

lemma delete_cell_neighbors_schedule:
  "delete_cell_neighbors cellList nb ns w = Inr w' \<Longrightarrow> schedule (w' m) = schedule (w m)"
proof (induction ns arbitrary: w)
  case Nil
  then show ?case by simp
next
  case (Cons n ns)
  show ?case
  proof (cases "nb \<noteq> n")
    case False
    with Cons show ?thesis by simp
  next
    case True
    with Cons.prems obtain nbm where d: "delete_cell_neighbor cellList (w n) = Inr nbm"
      and r: "delete_cell_neighbors cellList nb ns (w(n := nbm)) = Inr w'"
      by (auto split: sum.splits)
    from Cons.IH [OF r] delete_cell_neighbor_schedule [OF d] show ?thesis
      by (cases "m = n") auto
  qed
qed

lemma keeps_shared_refl: "keeps_shared w w"
  by (simp add: keeps_shared_def)

lemma keeps_shared_trans: "keeps_shared w w1 \<Longrightarrow> keeps_shared w1 w2 \<Longrightarrow> keeps_shared w w2"
  unfolding keeps_shared_def by blast

lemma keeps_shared_remove:
  assumes "tsch_removeCells (w self) nb tsList d = Inr m1"
  shows "keeps_shared w (w(self := m1))"
  unfolding keeps_shared_def using tsch_removeCells_keeps [OF assms] by auto

lemma keeps_shared_same_schedules:
  assumes "\<And>m. schedule (w' m) = schedule (w m)"
  shows "keeps_shared w w'"
  unfolding keeps_shared_def using assms by simp

lemma receiver_keeps_shared:
  assumes "top_cell_deletion_receiver w self nb tsList = Inr w'"
  shows "keeps_shared w w'"
proof -
  from assms obtain cellList m1 where
    rm: "tsch_removeCells (w self) nb tsList (Some DIR_RX) = Inr m1"
    and dl: "delete_cell_neighbors cellList nb (myNeigbors m1) (w(self := m1)) = Inr w'"
    by (auto simp: top_cell_deletion_receiver_def ebind_Inr_iff)
  have "keeps_shared (w(self := m1)) w'"
    using delete_cell_neighbors_schedule [OF dl] by (rule keeps_shared_same_schedules)
  with keeps_shared_remove [of w self, OF rm] show ?thesis
    by (rule keeps_shared_trans)
qed

lemma sender_keeps_shared:
  assumes "top_cell_deletion_sender w self nb tsList = Inr w'"
  shows "keeps_shared w w'"
proof -
  from assms obtain m1 where
    rm: "tsch_removeCells (w self) nb tsList (Some DIR_TX) = Inr m1"
    and rc: "top_cell_deletion_receiver (w(self := m1)) nb self tsList = Inr w'"
    by (auto simp: top_cell_deletion_sender_def ebind_Inr_iff split: option.splits if_splits)
  from keeps_shared_remove [of w self, OF rm] receiver_keeps_shared [OF rc] show ?thesis
    by (rule keeps_shared_trans)
qed

lemma apply_deletion_keeps_shared:
  assumes "apply_deletion w d = Inr w'"
  shows "keeps_shared w w'"
proof (cases d)
  case (DeletionSender self nb tsList)
  with assms show ?thesis by (simp add: apply_deletion_def sender_keeps_shared)
next
  case (DeletionReceiver self nb tsList)
  with assms show ?thesis by (simp add: apply_deletion_def receiver_keeps_shared)
next
  case (RemoveCells self nb tsList dr)
  with assms obtain m1 where "tsch_removeCells (w self) nb tsList dr = Inr m1" "w' = w(self := m1)"
    by (auto simp: apply_deletion_def ebind_Inr_iff)
  then show ?thesis using keeps_shared_remove [of w self] by blast
qed

lemma apply_deletions_keeps_shared:
  "apply_deletions w ds = Inr w' \<Longrightarrow> keeps_shared w w'"
proof (induction ds arbitrary: w)
  case Nil
  then show ?case by (simp add: keeps_shared_refl)
next
  case (Cons d ds)
  then obtain w1 where "apply_deletion w d = Inr w1" "apply_deletions w1 ds = Inr w'"
    by (auto split: sum.splits)
  with Cons.IH apply_deletion_keeps_shared show ?case
    using keeps_shared_trans by blast
qed

lemma shared_offsets_st_shared: "shared_offsets st_shared = {0, 5}"
proof -
  have d: "slotframeLength st_shared div numSharedSlots st_shared = 5"
    and k: "numSharedSlots st_shared = 2"
    by (simp_all add: st_shared_def)
  have "{i * (5::nat) | i. i < 2} = {0, 5}"
  proof
    show "{i * (5::nat) | i. i < 2} \<subseteq> {0, 5}"
      by (auto dest: less_2_cases)
    have "(0::nat) = 0 * 5 \<and> (0::nat) < 2" "(5::nat) = 1 * 5 \<and> (1::nat) < 2"
      by simp_all
    then show "{0, 5} \<subseteq> {i * (5::nat) | i. i < 2}"
      by blast
  qed
  then show ?thesis
    by (simp add: shared_offsets_def st_shared_def)
qed

lemma booted_schedule: "schedule booted ts = (if ts = 0 \<or> ts = 5 then Some (shared_cell 0) else None)"
  by (simp add: booted_def boot_schedule shared_offsets_st_shared new_mote_def)

lemma booted_fields:
  "numCellsToNeighbors booted = Map.empty" "numCellsFromNeighbors booted = Map.empty"
  "PDR booted = []" "reserve booted = replicate 10 (replicate 3 False)"
  by (simp_all add: booted_def boot_def new_mote_def st_shared_def numeral_2_eq_2)

lemma run_used:
  "\<exists>w'. apply_deletions w_used [DeletionSender 1 2 [7, 5]] = Inr w'
        \<and> schedule (w' 1) 7 = None \<and> schedule (w' 2) 7 = None"
  by (simp add: apply_deletion_def top_cell_deletion_sender_def top_cell_deletion_receiver_def
      removeCell_def w_used_def w_del_def booted_schedule booted_fields added_cell_def shared_cell_def
      used_shared_cell_def myNeigbors_def)

lemma shared_offsets_few:
  assumes "slotframeLength st < numSharedSlots st"
  shows "shared_offsets st = {0}"
proof -
  from assms have d: "slotframeLength st div numSharedSlots st = 0" and k: "0 < numSharedSlots st"
    by simp_all
  show ?thesis
    unfolding shared_offsets_def d using k by auto
qed

text \<open>
  C7, as the code has it. \<^verbatim>\<open>boot\<close> on a fresh mote leaves a schedule that holds one
  cell at each offset \<open>i * (slotframeLength div numSharedSlots)\<close> for
  \<open>i < numSharedSlots\<close> and nothing else, each cell on channel 0, of direction SHARED and
  with no neighbour. These are \<^verbatim>\<open>numSharedSlots\<close> cells when there are no more shared
  slots than slots in the slotframe; with more, all offsets are 0 and the schedule holds
  the single cell of slot 0. No run of 6top deletions (\<^verbatim>\<open>top_cell_deletion_sender\<close>,
  \<^verbatim>\<open>top_cell_deletion_receiver\<close>, \<^verbatim>\<open>_tsch_removeCells\<close>, with any arguments)
  that returns removes or changes a cell without a neighbour, whatever its counters and
  history: \<^verbatim>\<open>_tsch_removeCells\<close> removes only cells whose neighbour is the mote it is
  given.
\<close>

theorem shared_cells_boot_and_kept:
  "schedule (boot st asn (new_mote st)) =
           (\<lambda>ts. if ts \<in> shared_offsets st then Some (shared_cell asn) else None)
       \<and> ch (shared_cell asn) = 0 \<and> dir (shared_cell asn) = DIR_SHARED
       \<and> neighbor (shared_cell asn) = None
       \<and> (numSharedSlots st \<le> slotframeLength st \<longrightarrow>
            card (dom (schedule (boot st asn (new_mote st)))) = numSharedSlots st)
       \<and> (slotframeLength st < numSharedSlots st \<longrightarrow>
            dom (schedule (boot st asn (new_mote st))) = {0})
       \<and> (\<forall>w ds w' m ts c. apply_deletions w ds = Inr w' \<longrightarrow>
             schedule (w m) ts = Some c \<longrightarrow> neighbor c = None \<longrightarrow> schedule (w' m) ts = Some c)"
proof -
  have sch: "schedule (boot st asn (new_mote st)) =
           (\<lambda>ts. if ts \<in> shared_offsets st then Some (shared_cell asn) else None)"
    by (rule ext) (simp add: boot_schedule new_mote_def)
  have dm: "dom (schedule (boot st asn (new_mote st))) = shared_offsets st"
    unfolding sch by (auto simp: dom_def)
  have crd: "card (dom (schedule (boot st asn (new_mote st)))) = numSharedSlots st"
    if "numSharedSlots st \<le> slotframeLength st"
    using card_shared_offsets [OF that] dm by simp
  have few: "dom (schedule (boot st asn (new_mote st))) = {0}"
    if "slotframeLength st < numSharedSlots st"
    using shared_offsets_few [OF that] dm by simp
  have kept: "schedule (w' m) ts = Some c"
    if "apply_deletions w ds = Inr w'" "schedule (w m) ts = Some c" "neighbor c = None"
    for w ds w' m ts c
    using apply_deletions_keeps_shared [OF that(1)] that(2,3)
    unfolding keeps_shared_def by blast
  have cell: "ch (shared_cell asn) = 0 \<and> dir (shared_cell asn) = DIR_SHARED
       \<and> neighbor (shared_cell asn) = None"
    by (simp add: shared_cell_def)
  show ?thesis
    using sch cell crd few kept by blast
qed

text \<open>
  A slotframe of 10 slots with 2 shared slots: \<^verbatim>\<open>boot\<close> installs two cells, at slots 0
  and 5. The deletion of slots 7 and 5 that mote 1 sends to mote 2 removes the dedicated
  cell at slot 7 on both motes and leaves the cells of slot 5: the used one of mote 1
  and the untouched one of mote 2.
\<close>

theorem shared_cells_boot_and_kept_witness:
  "schedule (boot st_shared 0 (new_mote st_shared)) 5 = Some (shared_cell 0)
   \<and> card (dom (schedule (boot st_shared 0 (new_mote st_shared)))) = 2
   \<and> schedule (w_used 1) 5 = Some used_shared_cell
   \<and> (\<exists>w'. apply_deletions w_used [DeletionSender 1 2 [7, 5]] = Inr w'
          \<and> schedule (w' 1) 5 = Some used_shared_cell \<and> schedule (w' 2) 5 = Some (shared_cell 0)
          \<and> schedule (w' 1) 7 = None \<and> schedule (w' 2) 7 = None)"
proof -
  have le: "numSharedSlots st_shared \<le> slotframeLength st_shared"
    by (simp add: st_shared_def)
  note T = shared_cells_boot_and_kept [of st_shared 0]
  have a: "schedule (boot st_shared 0 (new_mote st_shared)) 5 = Some (shared_cell 0)"
    using T [THEN conjunct1] by (simp add: shared_offsets_st_shared)
  have k: "numSharedSlots st_shared = 2"
    by (simp add: st_shared_def)
  have b: "card (dom (schedule (boot st_shared 0 (new_mote st_shared)))) = 2"
    using T [THEN conjunct2, THEN conjunct2, THEN conjunct2, THEN conjunct2, THEN conjunct1, THEN mp, OF le]
    unfolding k .
  from run_used obtain w' where run: "apply_deletions w_used [DeletionSender 1 2 [7, 5]] = Inr w'"
    and gone: "schedule (w' 1) 7 = None" "schedule (w' 2) 7 = None"
    by blast
  have before: "schedule (w_used 1) 5 = Some used_shared_cell" "schedule (w_used 2) 5 = Some (shared_cell 0)"
    by (simp_all add: w_used_def w_del_def booted_schedule)
  have nn: "neighbor used_shared_cell = None" "neighbor (shared_cell 0) = None"
    by (simp_all add: used_shared_cell_def shared_cell_def)
  note K = T [THEN conjunct2, THEN conjunct2, THEN conjunct2, THEN conjunct2, THEN conjunct2,
      THEN conjunct2, rule_format, OF run]
  have c: "schedule (w' 1) 5 = Some used_shared_cell" "schedule (w' 2) 5 = Some (shared_cell 0)"
    using K [OF before(1) nn(1)] K [OF before(2) nn(2)] by simp_all
  show ?thesis
    using a b before(1) run gone c by blast
qed

text \<open>
  The claim fails when there are more shared slots than slots in the slotframe. With a
  slotframe of 2 slots and 3 shared slots the quotient is 0: the three iterations of
  \<^verbatim>\<open>boot\<close> write the cell of slot 0, and the schedule holds one SHARED cell, not three.
\<close>

theorem shared_cells_counterexample:
  "numSharedSlots st_few = 3
   \<and> dom (schedule (boot st_few 0 (new_mote st_few))) = {0}
   \<and> card (dom (schedule (boot st_few 0 (new_mote st_few)))) = 1"
proof -
  have lt: "slotframeLength st_few < numSharedSlots st_few"
    by (simp add: st_few_def)
  have "dom (schedule (boot st_few 0 (new_mote st_few))) = shared_offsets st_few"
    by (auto simp: boot_schedule new_mote_def dom_def)
  then have "dom (schedule (boot st_few 0 (new_mote st_few))) = {0}"
    using shared_offsets_few [OF lt] by simp
  then show ?thesis
    by (simp add: st_few_def)
qed

subsection \<open>C4: abort at the timeout\<close>

lemma drop_slots_Nil: "drop_slots m nb [] = schedule m"
  by (simp add: drop_slots_def)

lemma removeCell_succeeds:
  assumes "numCellsToNeighbors m nb \<noteq> None" "numCellsFromNeighbors m nb \<noteq> None"
  shows "\<exists>m1. removeCell m nb ts d = Inr m1 \<and> numCellsToNeighbors m1 nb \<noteq> None
              \<and> numCellsFromNeighbors m1 nb \<noteq> None"
  using assms by (auto simp: removeCell_def split: option.splits)

lemma tsch_removeCells_succeeds:
  assumes "numCellsToNeighbors m nb \<noteq> None" "numCellsFromNeighbors m nb \<noteq> None"
  shows "\<exists>m'. tsch_removeCells m nb tsList d = Inr m'"
  using assms
proof (induction tsList arbitrary: m)
  case Nil
  then show ?case by simp
next
  case (Cons ts tsList)
  from removeCell_succeeds [OF Cons.prems] obtain m1 where
    "removeCell m nb ts d = Inr m1" "numCellsToNeighbors m1 nb \<noteq> None"
    "numCellsFromNeighbors m1 nb \<noteq> None"
    by blast
  with Cons.IH [of m1] show ?case by simp
qed

lemma abort_rollback_frame:
  assumes "abort_rollback m p = Inr m1"
  shows "\<exists>cTo cFrom. m1 = m\<lparr>numCellsToNeighbors := cTo, numCellsFromNeighbors := cFrom,
                             schedule := drop_slots m (pt_neighbor p) (map fst (cells_of p))\<rparr>"
proof (cases "pt_cells p")
  case None
  with assms have "m1 = m\<lparr>numCellsToNeighbors := numCellsToNeighbors m,
      numCellsFromNeighbors := numCellsFromNeighbors m,
      schedule := drop_slots m (pt_neighbor p) (map fst (cells_of p))\<rparr>"
    by (simp add: abort_rollback_def cells_of_def drop_slots_Nil)
  then show ?thesis by blast
next
  case (Some cs)
  show ?thesis
  proof (cases cs)
    case Nil
    with assms Some have "m1 = m\<lparr>numCellsToNeighbors := numCellsToNeighbors m,
        numCellsFromNeighbors := numCellsFromNeighbors m,
        schedule := drop_slots m (pt_neighbor p) (map fst (cells_of p))\<rparr>"
      by (simp add: abort_rollback_def cells_of_def drop_slots_Nil)
    then show ?thesis by blast
  next
    case (Cons c cs')
    with assms Some have
      "tsch_removeCells m (pt_neighbor p) (map fst (cells_of p)) (Some (snd (snd (last cs)))) = Inr m1"
      by (simp add: abort_rollback_def cells_of_def)
    then show ?thesis by (rule tsch_removeCells_frame)
  qed
qed

lemma abort_rollback_succeeds:
  assumes "pt_cells p = None \<or> (numCellsToNeighbors m (pt_neighbor p) \<noteq> None
             \<and> numCellsFromNeighbors m (pt_neighbor p) \<noteq> None)"
  shows "\<exists>m1. abort_rollback m p = Inr m1"
proof (cases "pt_cells p")
  case None
  then show ?thesis by (simp add: abort_rollback_def)
next
  case (Some cs)
  with assms have k: "numCellsToNeighbors m (pt_neighbor p) \<noteq> None"
    "numCellsFromNeighbors m (pt_neighbor p) \<noteq> None"
    by auto
  show ?thesis
  proof (cases cs)
    case Nil
    with Some show ?thesis by (simp add: abort_rollback_def)
  next
    case (Cons c cs')
    with Some have eq: "abort_rollback m p =
        tsch_removeCells m (pt_neighbor p) (map fst cs) (Some (snd (snd (last cs))))"
      by (simp add: abort_rollback_def del: tsch_removeCells.simps)
    show ?thesis
      unfolding eq by (rule tsch_removeCells_succeeds [OF k])
  qed
qed

lemma top_abort_transaction_aborted:
  assumes "pendingTransaction m = Some p" "top_abort_transaction m = Inr m2"
  shows "aborted m p m2"
proof -
  from assms obtain m1 where r: "abort_rollback m p = Inr m1"
    and m2: "m2 = incrementMoteStats
        (m1\<lparr>requestTriggered := (requestTriggered m1)(pt_neighbor p \<mapsto> False),
            transactionRetries := 0, pendingTransaction := None\<rparr>) transactionAborted"
    by (auto simp: top_abort_transaction_def ebind_Inr_iff)
  from abort_rollback_frame [OF r] obtain cTo cFrom where
    m1: "m1 = m\<lparr>numCellsToNeighbors := cTo, numCellsFromNeighbors := cFrom,
                 schedule := drop_slots m (pt_neighbor p) (map fst (cells_of p))\<rparr>"
    by blast
  show ?thesis
    unfolding aborted_def m2 m1 by (simp add: incrementMoteStats_def)
qed

lemma top_abort_transaction_succeeds:
  assumes "pendingTransaction m = Some p"
    and "pt_cells p = None \<or> (numCellsToNeighbors m (pt_neighbor p) \<noteq> None
             \<and> numCellsFromNeighbors m (pt_neighbor p) \<noteq> None)"
  shows "\<exists>m2. top_abort_transaction m = Inr m2"
  using abort_rollback_succeeds [OF assms(2)] assms(1)
  by (auto simp: top_abort_transaction_def)

lemma drop_slots_not_held:
  "ts \<in> set tsList \<Longrightarrow> schedule m' = drop_slots m nb tsList \<Longrightarrow> \<not> holds_for m' ts nb"
  by (auto simp: drop_slots_def holds_for_def split: option.splits)

lemma drop_slots_retries [simp]:
  "drop_slots (m\<lparr>transactionRetries := n\<rparr>) nb tsList = drop_slots m nb tsList"
  by (simp add: drop_slots_def holds_for_def fun_eq_iff)

lemma booted_more_fields:
  "transactionTimeout booted = 20" "motestats booted = (\<lambda>_. 0)" "requestTriggered booted = Map.empty"
  by (simp_all add: booted_def boot_def new_mote_def st_shared_def numeral_2_eq_2)

lemma top_abort_transaction_frame:
  assumes "top_abort_transaction m = Inr m2"
  shows "sequenceNumberWithNeighbor m2 = sequenceNumberWithNeighbor m
       \<and> backoffExponent m2 = backoffExponent m"
proof (cases "pendingTransaction m")
  case None
  with assms show ?thesis
    by (auto simp: top_abort_transaction_def incrementMoteStats_def)
next
  case (Some p)
  with assms obtain m1 where r: "abort_rollback m p = Inr m1"
    and m2: "m2 = incrementMoteStats
        (m1\<lparr>requestTriggered := (requestTriggered m1)(pt_neighbor p \<mapsto> False),
            transactionRetries := 0, pendingTransaction := None\<rparr>) transactionAborted"
    by (auto simp: top_abort_transaction_def ebind_Inr_iff)
  from abort_rollback_frame [OF r] obtain cTo cFrom where
    m1: "m1 = m\<lparr>numCellsToNeighbors := cTo, numCellsFromNeighbors := cFrom,
                 schedule := drop_slots m (pt_neighbor p) (map fst (cells_of p))\<rparr>"
    by blast
  show ?thesis
    unfolding m2 m1 by (simp add: incrementMoteStats_def)
qed

lemma request_tick_pending:
  assumes "pendingTransaction m = Some p"
  shows "request_tick m =
    (if transactionRetries m + 1 = transactionTimeout m
     then ebind (top_abort_transaction (m\<lparr>transactionRetries := transactionRetries m + 1\<rparr>))
            (\<lambda>m2. Inr (m2, True))
     else Inr (m\<lparr>transactionRetries := transactionRetries m + 1\<rparr>, False))"
  using assms by (simp add: request_tick_def Let_def)

lemma request_exchange_returns:
  assumes "sequenceNumberWithNeighbor (w self) nb = None \<or> requestTriggered (w self) nb = Some True"
  shows "request_exchange st asn rand response w self nb numCells d = Inr (w, None)"
  using assms by (auto simp: request_exchange_def split: option.splits)

lemma request_exchange_sends:
  assumes "sequenceNumberWithNeighbor (w self) nb = Some sq"
    and "requestTriggered (w self) nb \<noteq> Some True"
    and "queuing st \<noteq> 0" and "bootstrap st \<or> getTxCells (w self) \<noteq> {}"
    and "slotframeLength st \<noteq> 0" and "slotDuration st \<noteq> 0" and "0 \<le> backoffExponent (w self)"
  shows "\<exists>ev. request_exchange st asn rand response w self nb numCells d =
      Inr (w(self := (w self)
             \<lparr>requestTriggered := (requestTriggered (w self))(nb \<mapsto> True),
              pendingTransaction :=
                Some \<lparr>pt_type = ''moteRequest'', pt_neighbor = nb, pt_cells = None,
                      pt_sequenceNum = sq\<rparr>,
              sequenceNumberWithNeighbor := (sequenceNumberWithNeighbor (w self))(nb \<mapsto> sq + 1)\<rparr>),
           Some ev)
    \<and> sc_type ev = ''req'' \<and> sc_smac ev = self \<and> sc_neighb ev = nb
    \<and> sc_numCells ev = numCells \<and> sc_dir ev = Some d \<and> sc_seq ev = sq + 1"
proof -
  define m1 where "m1 = (w self)\<lparr>requestTriggered := (requestTriggered (w self))(nb \<mapsto> True),
                       pendingTransaction :=
                         Some \<lparr>pt_type = ''moteRequest'', pt_neighbor = nb, pt_cells = None,
                               pt_sequenceNum = sq\<rparr>\<rparr>"
  have g: "getTxCells m1 = getTxCells (w self)"
    by (simp add: getTxCells_def m1_def)
  have f: "backoffExponent m1 = backoffExponent (w self)"
    "sequenceNumberWithNeighbor m1 = sequenceNumberWithNeighbor (w self)"
    by (simp_all add: m1_def)
  have sd: "real (slotframeLength st) * slotDuration st \<noteq> 0"
    using assms(5,6) by simp
  have c: "queuing st \<noteq> 0 \<and> (bootstrap st \<or> getTxCells m1 \<noteq> {})"
    using assms(3,4) by (simp add: g)
  have ex: "request_exchange st asn rand response w self nb numCells d =
      ebind (top_add_request st rand m1 self numCells nb d (dom (schedule m1)))
                   (\<lambda>(m2, ev). Inr (w(self := m2), Some ev))"
    unfolding request_exchange_def Let_def assms(1) option.case if_not_P [OF assms(2)]
      m1_def [symmetric] if_P [OF c] ..
  show ?thesis
    unfolding ex top_add_request_def app_schedule_sendControl_def Let_def
    using assms(1,5,7) sd by (simp add: f m1_def)
qed

text \<open>
  C4, as the code has it. While a mote holds a pending transaction, a call of
  \<^verbatim>\<open>_top_cell_reservation_request\<close> increments \<^verbatim>\<open>transactionRetries\<close> and, below
  the timeout, does nothing else. On the call where the counter reaches
  \<^verbatim>\<open>transactionTimeout\<close> (20 on every mote) it runs \<^verbatim>\<open>_top_abort_transaction\<close>,
  which returns when the transaction records no cells or both cell counters have an
  entry for the peer. Right after the abort no cell recorded in the pending transaction
  is held for the peer, the other slots are untouched, \<^verbatim>\<open>requestTriggered\<close> of the
  peer is false, \<^verbatim>\<open>pendingTransaction\<close> is \<^verbatim>\<open>None\<close>, the retry counter is 0 and
  \<^verbatim>\<open>transactionAborted\<close> is one more than before. The call does not stop there: it
  goes on from the aborted state with the rest of the function. It ends in the aborted
  state only when the neighbour of the call has no sequence number or its
  \<^verbatim>\<open>requestTriggered\<close> is true. Otherwise it sets \<^verbatim>\<open>requestTriggered\<close> of the
  neighbour and opens a new transaction \<^verbatim>\<open>moteRequest\<close>; when the request is sent as a
  control message (queuing is on, with the bootstrap setting or a TX cell), the call
  ends in that state with the sequence number incremented.
\<close>

theorem request_tick_aborts_at_timeout:
  assumes "pendingTransaction (w self) = Some p"
  shows "transactionTimeout (new_mote st) = 20
       \<and> (transactionRetries (w self) + 1 \<noteq> transactionTimeout (w self) \<longrightarrow>
            top_cell_reservation_request st asn rand response w self nb numCells d =
              Inr (w(self := (w self)\<lparr>transactionRetries := transactionRetries (w self) + 1\<rparr>), None))
       \<and> (transactionRetries (w self) + 1 = transactionTimeout (w self) \<longrightarrow>
            (pt_cells p = None
               \<or> (numCellsToNeighbors (w self) (pt_neighbor p) \<noteq> None
                   \<and> numCellsFromNeighbors (w self) (pt_neighbor p) \<noteq> None)
              \<longrightarrow> (\<exists>m2. top_abort_transaction
                     ((w self)\<lparr>transactionRetries := transactionRetries (w self) + 1\<rparr>) = Inr m2))
          \<and> (\<forall>m2. top_abort_transaction
                     ((w self)\<lparr>transactionRetries := transactionRetries (w self) + 1\<rparr>) = Inr m2
                \<longrightarrow> schedule m2 = drop_slots (w self) (pt_neighbor p) (map fst (cells_of p))
                  \<and> (\<forall>(ts, c, dr) \<in> set (cells_of p). \<not> holds_for m2 ts (pt_neighbor p))
                  \<and> requestTriggered m2 = (requestTriggered (w self))(pt_neighbor p \<mapsto> False)
                  \<and> pendingTransaction m2 = None
                  \<and> transactionRetries m2 = 0
                  \<and> motestats m2 transactionAborted = motestats (w self) transactionAborted + 1
                  \<and> sequenceNumberWithNeighbor m2 = sequenceNumberWithNeighbor (w self)
                  \<and> backoffExponent m2 = backoffExponent (w self)
                  \<and> top_cell_reservation_request st asn rand response w self nb numCells d =
                      request_exchange st asn rand response (w(self := m2)) self nb numCells d
                  \<and> (sequenceNumberWithNeighbor m2 nb = None \<or> requestTriggered m2 nb = Some True
                      \<longrightarrow> top_cell_reservation_request st asn rand response w self nb numCells d =
                            Inr (w(self := m2), None))
                  \<and> (\<forall>sq. sequenceNumberWithNeighbor m2 nb = Some sq
                          \<and> requestTriggered m2 nb \<noteq> Some True
                          \<and> queuing st \<noteq> 0 \<and> (bootstrap st \<or> getTxCells m2 \<noteq> {})
                          \<and> slotframeLength st \<noteq> 0 \<and> slotDuration st \<noteq> 0
                          \<and> 0 \<le> backoffExponent m2
                      \<longrightarrow> (\<exists>ev. top_cell_reservation_request st asn rand response w self nb numCells d =
                                  Inr (w(self := m2
                                         \<lparr>requestTriggered := (requestTriggered m2)(nb \<mapsto> True),
                                          pendingTransaction :=
                                            Some \<lparr>pt_type = ''moteRequest'', pt_neighbor = nb,
                                                  pt_cells = None, pt_sequenceNum = sq\<rparr>,
                                          sequenceNumberWithNeighbor :=
                                            (sequenceNumberWithNeighbor m2)(nb \<mapsto> sq + 1)\<rparr>),
                                       Some ev)
                                \<and> sc_type ev = ''req'' \<and> sc_smac ev = self \<and> sc_neighb ev = nb
                                \<and> sc_numCells ev = numCells \<and> sc_dir ev = Some d
                                \<and> sc_seq ev = sq + 1))))"
proof -
  let ?m1 = "(w self)\<lparr>transactionRetries := transactionRetries (w self) + 1\<rparr>"
  let ?call = "top_cell_reservation_request st asn rand response w self nb numCells d"
  have p1: "pendingTransaction ?m1 = Some p"
    using assms by simp
  have timeout: "transactionTimeout (new_mote st) = 20"
    by (simp add: new_mote_def)
  have tick: "?call = Inr (w(self := ?m1), None)"
    if "transactionRetries (w self) + 1 \<noteq> transactionTimeout (w self)"
    using that by (simp add: top_cell_reservation_request_def request_tick_pending [OF assms])
  have ok: "\<exists>m2. top_abort_transaction ?m1 = Inr m2"
    if "pt_cells p = None \<or> (numCellsToNeighbors (w self) (pt_neighbor p) \<noteq> None
                     \<and> numCellsFromNeighbors (w self) (pt_neighbor p) \<noteq> None)"
    using top_abort_transaction_succeeds [OF p1] that by simp
  have ab: "schedule m2 = drop_slots (w self) (pt_neighbor p) (map fst (cells_of p))
          \<and> (\<forall>(ts, c, dr) \<in> set (cells_of p). \<not> holds_for m2 ts (pt_neighbor p))
          \<and> requestTriggered m2 = (requestTriggered (w self))(pt_neighbor p \<mapsto> False)
          \<and> pendingTransaction m2 = None
          \<and> transactionRetries m2 = 0
          \<and> motestats m2 transactionAborted = motestats (w self) transactionAborted + 1
          \<and> sequenceNumberWithNeighbor m2 = sequenceNumberWithNeighbor (w self)
          \<and> backoffExponent m2 = backoffExponent (w self)"
    if "top_abort_transaction ?m1 = Inr m2" for m2
  proof -
    from top_abort_transaction_aborted [OF p1 that] have a: "aborted ?m1 p m2" .
    then have sch: "schedule m2 = drop_slots (w self) (pt_neighbor p) (map fst (cells_of p))"
      by (simp add: aborted_def)
    have "\<not> holds_for m2 ts (pt_neighbor p)" if "(ts, c, dr) \<in> set (cells_of p)" for ts c dr
    proof -
      from that have "ts \<in> set (map fst (cells_of p))" by force
      then show ?thesis using sch by (rule drop_slots_not_held)
    qed
    moreover have "sequenceNumberWithNeighbor m2 = sequenceNumberWithNeighbor (w self)"
      "backoffExponent m2 = backoffExponent (w self)"
      using top_abort_transaction_frame [OF that] by simp_all
    ultimately show ?thesis
      using a sch by (auto simp: aborted_def)
  qed
  have comp: "?call = request_exchange st asn rand response (w(self := m2)) self nb numCells d"
    if "transactionRetries (w self) + 1 = transactionTimeout (w self)"
      and "top_abort_transaction ?m1 = Inr m2" for m2
    using that by (simp add: top_cell_reservation_request_def request_tick_pending [OF assms])
  have ret: "?call = Inr (w(self := m2), None)"
    if "transactionRetries (w self) + 1 = transactionTimeout (w self)"
      and "top_abort_transaction ?m1 = Inr m2"
      and "sequenceNumberWithNeighbor m2 nb = None \<or> requestTriggered m2 nb = Some True" for m2
    unfolding comp [OF that(1,2)]
    by (rule request_exchange_returns) (use that(3) in simp)
  have snd: "\<exists>ev. ?call =
        Inr (w(self := m2
               \<lparr>requestTriggered := (requestTriggered m2)(nb \<mapsto> True),
                pendingTransaction :=
                  Some \<lparr>pt_type = ''moteRequest'', pt_neighbor = nb,
                        pt_cells = None, pt_sequenceNum = sq\<rparr>,
                sequenceNumberWithNeighbor :=
                  (sequenceNumberWithNeighbor m2)(nb \<mapsto> sq + 1)\<rparr>),
             Some ev)
      \<and> sc_type ev = ''req'' \<and> sc_smac ev = self \<and> sc_neighb ev = nb
      \<and> sc_numCells ev = numCells \<and> sc_dir ev = Some d
      \<and> sc_seq ev = sq + 1"
    if "transactionRetries (w self) + 1 = transactionTimeout (w self)"
      and "top_abort_transaction ?m1 = Inr m2"
      and "sequenceNumberWithNeighbor m2 nb = Some sq" "requestTriggered m2 nb \<noteq> Some True"
      "queuing st \<noteq> 0" "bootstrap st \<or> getTxCells m2 \<noteq> {}"
      "slotframeLength st \<noteq> 0" "slotDuration st \<noteq> 0" "0 \<le> backoffExponent m2" for m2 sq
    unfolding comp [OF that(1,2)]
    using request_exchange_sends [where w = "w(self := m2)" and self = self and nb = nb and sq = sq
        and st = st and asn = asn and rand = rand and response = response and numCells = numCells
        and d = d] that(3-9)
    by simp
  show ?thesis
    using timeout tick ok ab comp ret snd by blast
qed

lemma timeout_example:
  "pendingTransaction (w_timeout 4) = Some p_timeout"
  "transactionRetries (w_timeout 4) + 1 = transactionTimeout (w_timeout 4)"
  "numCellsToNeighbors (w_timeout 4) (pt_neighbor p_timeout) \<noteq> None
     \<and> numCellsFromNeighbors (w_timeout 4) (pt_neighbor p_timeout) \<noteq> None"
  "cells_of p_timeout = [(7, 1, DIR_RX)]" "pt_neighbor p_timeout = 2"
  "motestats (w_timeout 4) transactionAborted = 0"
  "sequenceNumberWithNeighbor (w_timeout 4) = [2 \<mapsto> 3]"
  "requestTriggered (w_timeout 4) = Map.empty"
  "backoffExponent (w_timeout 4) = 1"
  by (simp_all add: w_timeout_def m_timeout_def p_timeout_def cells_of_def booted_more_fields
      booted_def boot_def new_mote_def st_shared_def numeral_2_eq_2)

lemma st_shared_sends:
  "queuing st_shared \<noteq> 0" "bootstrap st_shared" "slotframeLength st_shared \<noteq> 0"
  "slotDuration st_shared \<noteq> 0"
  by (simp_all add: st_shared_def)

text \<open>
  Mote 4 holds the transaction with mote 2 and has counted 19 retries. The next call
  for mote 2 aborts: the RX cell at slot 7 is removed and the statistic is 1; the call
  then opens a new request to mote 2 and sends it. The same call for mote 6, which has
  no sequence number, ends in the aborted state. At 5 retries the call only counts.
\<close>

theorem request_tick_aborts_at_timeout_witness:
  "pendingTransaction (w_timeout 4) = Some p_timeout
   \<and> (\<exists>w' ev. top_cell_reservation_request st_shared 0 0 no_reservation_response w_timeout 4 2
                  (Some 1) DIR_TX = Inr (w', Some ev)
          \<and> \<not> holds_for (w' 4) 7 2 \<and> motestats (w' 4) transactionAborted = 1
          \<and> pendingTransaction (w' 4) =
              Some \<lparr>pt_type = ''moteRequest'', pt_neighbor = 2, pt_cells = None, pt_sequenceNum = 3\<rparr>
          \<and> requestTriggered (w' 4) 2 = Some True
          \<and> sc_type ev = ''req'' \<and> sc_seq ev = 4)
   \<and> (\<exists>w'. top_cell_reservation_request st_shared 0 0 no_reservation_response w_timeout 4 6
                  (Some 1) DIR_TX = Inr (w', None)
          \<and> \<not> holds_for (w' 4) 7 2 \<and> motestats (w' 4) transactionAborted = 1
          \<and> pendingTransaction (w' 4) = None \<and> requestTriggered (w' 4) 2 = Some False
          \<and> transactionRetries (w' 4) = 0)
   \<and> top_cell_reservation_request st_shared 0 0 no_reservation_response
        (w_timeout(4 := m_timeout\<lparr>transactionRetries := 5\<rparr>)) 4 2 (Some 1) DIR_TX =
        Inr (w_timeout(4 := m_timeout\<lparr>transactionRetries := 6\<rparr>), None)"
proof -
  note E = timeout_example
  note T = request_tick_aborts_at_timeout [where w = w_timeout and self = 4 and p = p_timeout
      and st = st_shared and asn = 0 and rand = 0 and response = no_reservation_response
      and numCells = "Some 1" and d = DIR_TX, OF E(1), THEN conjunct2, THEN conjunct2, THEN mp, OF E(2)]
  from T [of 2, THEN conjunct1] E(3) obtain m2 where
    m2: "top_abort_transaction ((w_timeout 4)\<lparr>transactionRetries := transactionRetries (w_timeout 4) + 1\<rparr>) = Inr m2"
    by blast
  note F = T [of 2, THEN conjunct2, THEN spec, THEN mp, OF m2]
  note G = T [of 6, THEN conjunct2, THEN spec, THEN mp, OF m2]
  have held: "\<not> holds_for m2 7 2"
    using F [THEN conjunct2, THEN conjunct1] unfolding E(4,5) by simp
  have rt: "requestTriggered m2 = [2 \<mapsto> False]"
    using F [THEN conjunct2, THEN conjunct2, THEN conjunct1] unfolding E(5,8) .
  have pn: "pendingTransaction m2 = None"
    using F [THEN conjunct2, THEN conjunct2, THEN conjunct2, THEN conjunct1] .
  have tr: "transactionRetries m2 = 0"
    using F [THEN conjunct2, THEN conjunct2, THEN conjunct2, THEN conjunct2, THEN conjunct1] .
  have ms: "motestats m2 transactionAborted = 1"
    using F [THEN conjunct2, THEN conjunct2, THEN conjunct2, THEN conjunct2, THEN conjunct2, THEN conjunct1] unfolding E(6) by simp
  have sq: "sequenceNumberWithNeighbor m2 = [2 \<mapsto> 3]"
    using F [THEN conjunct2, THEN conjunct2, THEN conjunct2, THEN conjunct2, THEN conjunct2, THEN conjunct2, THEN conjunct1] unfolding E(7) .
  have be: "backoffExponent m2 = 1"
    using F [THEN conjunct2, THEN conjunct2, THEN conjunct2, THEN conjunct2, THEN conjunct2, THEN conjunct2, THEN conjunct2, THEN conjunct1] unfolding E(9) .
  have pre: "sequenceNumberWithNeighbor m2 2 = Some 3
                          \<and> requestTriggered m2 2 \<noteq> Some True
                          \<and> queuing st_shared \<noteq> 0 \<and> (bootstrap st_shared \<or> getTxCells m2 \<noteq> {})
                          \<and> slotframeLength st_shared \<noteq> 0 \<and> slotDuration st_shared \<noteq> 0
                          \<and> 0 \<le> backoffExponent m2"
    by (simp add: sq rt be st_shared_sends)
  from F [THEN conjunct2, THEN conjunct2, THEN conjunct2, THEN conjunct2, THEN conjunct2, THEN conjunct2, THEN conjunct2, THEN conjunct2, THEN conjunct2, THEN conjunct2, THEN spec, THEN mp, OF pre]
  obtain ev where run: "top_cell_reservation_request st_shared 0 0 no_reservation_response w_timeout 4 2
        (Some 1) DIR_TX =
      Inr (w_timeout(4 := m2
             \<lparr>requestTriggered := (requestTriggered m2)(2 \<mapsto> True),
              pendingTransaction :=
                Some \<lparr>pt_type = ''moteRequest'', pt_neighbor = 2, pt_cells = None, pt_sequenceNum = 3\<rparr>,
              sequenceNumberWithNeighbor := (sequenceNumberWithNeighbor m2)(2 \<mapsto> 3 + 1)\<rparr>),
           Some ev)"
    and ev: "sc_type ev = ''req''" "sc_seq ev = 3 + 1"
    by blast
  have a: "\<exists>w' ev. top_cell_reservation_request st_shared 0 0 no_reservation_response w_timeout 4 2
                  (Some 1) DIR_TX = Inr (w', Some ev)
          \<and> \<not> holds_for (w' 4) 7 2 \<and> motestats (w' 4) transactionAborted = 1
          \<and> pendingTransaction (w' 4) =
              Some \<lparr>pt_type = ''moteRequest'', pt_neighbor = 2, pt_cells = None, pt_sequenceNum = 3\<rparr>
          \<and> requestTriggered (w' 4) 2 = Some True
          \<and> sc_type ev = ''req'' \<and> sc_seq ev = 4"
    using held ms ev unfolding run by (simp add: holds_for_def)
  have none6: "sequenceNumberWithNeighbor m2 6 = None \<or> requestTriggered m2 6 = Some True"
    by (simp add: sq)
  from G [THEN conjunct2, THEN conjunct2, THEN conjunct2, THEN conjunct2, THEN conjunct2, THEN conjunct2, THEN conjunct2, THEN conjunct2, THEN conjunct2, THEN conjunct1, THEN mp, OF none6]
  have b: "\<exists>w'. top_cell_reservation_request st_shared 0 0 no_reservation_response w_timeout 4 6
                  (Some 1) DIR_TX = Inr (w', None)
          \<and> \<not> holds_for (w' 4) 7 2 \<and> motestats (w' 4) transactionAborted = 1
          \<and> pendingTransaction (w' 4) = None \<and> requestTriggered (w' 4) 2 = Some False
          \<and> transactionRetries (w' 4) = 0"
    using held ms pn tr by (simp add: rt)
  have pend5: "pendingTransaction ((w_timeout(4 := m_timeout\<lparr>transactionRetries := 5\<rparr>)) 4) = Some p_timeout"
    by (simp add: m_timeout_def)
  have notdue: "transactionRetries ((w_timeout(4 := m_timeout\<lparr>transactionRetries := 5\<rparr>)) 4) + 1
      \<noteq> transactionTimeout ((w_timeout(4 := m_timeout\<lparr>transactionRetries := 5\<rparr>)) 4)"
    by (simp add: m_timeout_def booted_more_fields)
  from request_tick_aborts_at_timeout [where w = "w_timeout(4 := m_timeout\<lparr>transactionRetries := 5\<rparr>)"
      and self = 4 and p = p_timeout and st = st_shared and asn = 0 and rand = 0
      and response = no_reservation_response and nb = 2 and numCells = "Some 1" and d = DIR_TX,
      OF pend5, THEN conjunct2, THEN conjunct1, THEN mp, OF notdue]
  have c: "top_cell_reservation_request st_shared 0 0 no_reservation_response
        (w_timeout(4 := m_timeout\<lparr>transactionRetries := 5\<rparr>)) 4 2 (Some 1) DIR_TX =
        Inr (w_timeout(4 := m_timeout\<lparr>transactionRetries := 6\<rparr>), None)"
    by simp
  show ?thesis
    using E(1) a b c by blast
qed

lemma timeout_tick_sends:
  assumes "pendingTransaction (w self) = Some p"
    and "transactionRetries (w self) + 1 = transactionTimeout (w self)"
    and "top_abort_transaction ((w self)\<lparr>transactionRetries := transactionRetries (w self) + 1\<rparr>) = Inr m2"
    and "sequenceNumberWithNeighbor m2 nb = Some sq" "requestTriggered m2 nb \<noteq> Some True"
      "queuing st \<noteq> 0" "bootstrap st \<or> getTxCells m2 \<noteq> {}"
      "slotframeLength st \<noteq> 0" "slotDuration st \<noteq> 0" "0 \<le> backoffExponent m2"
  shows "\<exists>ev. top_cell_reservation_request st asn rand response w self nb numCells d =
        Inr (w(self := m2
               \<lparr>requestTriggered := (requestTriggered m2)(nb \<mapsto> True),
                pendingTransaction :=
                  Some \<lparr>pt_type = ''moteRequest'', pt_neighbor = nb,
                        pt_cells = None, pt_sequenceNum = sq\<rparr>,
                sequenceNumberWithNeighbor :=
                  (sequenceNumberWithNeighbor m2)(nb \<mapsto> sq + 1)\<rparr>),
             Some ev)"
proof -
  have comp: "top_cell_reservation_request st asn rand response w self nb numCells d =
      request_exchange st asn rand response (w(self := m2)) self nb numCells d"
    using assms(2,3) by (simp add: top_cell_reservation_request_def request_tick_pending [OF assms(1)])
  show ?thesis
    unfolding comp
    using request_exchange_sends [where w = "w(self := m2)" and self = self and nb = nb and sq = sq
        and st = st and asn = asn and rand = rand and response = response and numCells = numCells
        and d = d] assms(4-10)
    by auto
qed

text \<open>
  The claim fails at the end of the call that reaches the timeout. Mote 4 holds the
  transaction with mote 2 and has counted 19 retries; nothing was triggered. After the
  call for mote 2 the statistic is 1, but \<^verbatim>\<open>pendingTransaction\<close> is the new request to
  mote 2, not \<^verbatim>\<open>None\<close>, and \<^verbatim>\<open>requestTriggered\<close> of mote 2 is true, not cleared.
\<close>

theorem request_tick_counterexample:
  "request_state (Inr (w_timeout, None)) 4 2 = Some (Some p_timeout, None, 0)
   \<and> transactionRetries (w_timeout 4) + 1 = transactionTimeout (w_timeout 4)
   \<and> request_state
       (top_cell_reservation_request st_shared 0 0 no_reservation_response w_timeout 4 2
          (Some 1) DIR_TX) 4 2 =
       Some (Some \<lparr>pt_type = ''moteRequest'', pt_neighbor = 2, pt_cells = None, pt_sequenceNum = 3\<rparr>,
             Some True, 1)"
proof -
  note E = timeout_example
  have p1: "pendingTransaction ((w_timeout 4)\<lparr>transactionRetries := transactionRetries (w_timeout 4) + 1\<rparr>)
      = Some p_timeout"
    using E(1) by simp
  have k: "pt_cells p_timeout = None
      \<or> (numCellsToNeighbors ((w_timeout 4)\<lparr>transactionRetries := transactionRetries (w_timeout 4) + 1\<rparr>)
            (pt_neighbor p_timeout) \<noteq> None
         \<and> numCellsFromNeighbors ((w_timeout 4)\<lparr>transactionRetries := transactionRetries (w_timeout 4) + 1\<rparr>)
            (pt_neighbor p_timeout) \<noteq> None)"
    using E(3) by simp
  from top_abort_transaction_succeeds [OF p1 k] obtain m2 where
    m2: "top_abort_transaction ((w_timeout 4)\<lparr>transactionRetries := transactionRetries (w_timeout 4) + 1\<rparr>) = Inr m2"
    by blast
  from top_abort_transaction_aborted [OF p1 m2]
  have rt: "requestTriggered m2 = [2 \<mapsto> False]"
    and ms: "motestats m2 transactionAborted = 1"
    by (simp_all add: aborted_def E)
  from top_abort_transaction_frame [OF m2]
  have sq: "sequenceNumberWithNeighbor m2 = [2 \<mapsto> 3]" and be: "backoffExponent m2 = 1"
    by (simp_all add: E)
  from timeout_tick_sends [where w = w_timeout and self = 4 and nb = 2 and sq = 3 and st = st_shared
      and asn = 0 and rand = 0 and response = no_reservation_response and numCells = "Some 1"
      and d = DIR_TX, OF E(1) E(2) m2]
  obtain ev where run: "top_cell_reservation_request st_shared 0 0 no_reservation_response w_timeout 4 2
        (Some 1) DIR_TX =
      Inr (w_timeout(4 := m2
             \<lparr>requestTriggered := (requestTriggered m2)(2 \<mapsto> True),
              pendingTransaction :=
                Some \<lparr>pt_type = ''moteRequest'', pt_neighbor = 2, pt_cells = None, pt_sequenceNum = 3\<rparr>,
              sequenceNumberWithNeighbor := (sequenceNumberWithNeighbor m2)(2 \<mapsto> 3 + 1)\<rparr>),
           Some ev)"
    by (auto simp: sq rt be st_shared_sends)
  have after: "request_state
       (top_cell_reservation_request st_shared 0 0 no_reservation_response w_timeout 4 2
          (Some 1) DIR_TX) 4 2 =
       Some (Some \<lparr>pt_type = ''moteRequest'', pt_neighbor = 2, pt_cells = None, pt_sequenceNum = 3\<rparr>,
             Some True, 1)"
    unfolding run by (simp add: request_state_def ms)
  have before: "request_state (Inr (w_timeout, None)) 4 2 = Some (Some p_timeout, None, 0)"
    by (simp add: request_state_def E)
  show ?thesis
    using before E(2) after by blast
qed

subsection \<open>C1: reconciliation on a confirmation\<close>

lemma removeCell_succeeds_dir:
  assumes "d = Some DIR_TX \<longrightarrow> numCellsToNeighbors m nb \<noteq> None"
    and "d = Some DIR_RX \<longrightarrow> numCellsFromNeighbors m nb \<noteq> None"
  shows "\<exists>m1. removeCell m nb ts d = Inr m1
              \<and> (d = Some DIR_TX \<longrightarrow> numCellsToNeighbors m1 nb \<noteq> None)
              \<and> (d = Some DIR_RX \<longrightarrow> numCellsFromNeighbors m1 nb \<noteq> None)"
  using assms by (auto simp: removeCell_def split: option.splits)

lemma tsch_removeCells_succeeds_dir:
  assumes "d = Some DIR_TX \<longrightarrow> numCellsToNeighbors m nb \<noteq> None"
    and "d = Some DIR_RX \<longrightarrow> numCellsFromNeighbors m nb \<noteq> None"
  shows "\<exists>m'. tsch_removeCells m nb tsList d = Inr m'"
  using assms
proof (induction tsList arbitrary: m)
  case Nil
  then show ?case by simp
next
  case (Cons ts tsList)
  from removeCell_succeeds_dir [OF Cons.prems] obtain m1 where
    "removeCell m nb ts d = Inr m1"
    "d = Some DIR_TX \<longrightarrow> numCellsToNeighbors m1 nb \<noteq> None"
    "d = Some DIR_RX \<longrightarrow> numCellsFromNeighbors m1 nb \<noteq> None"
    by blast
  with Cons.IH [of m1] show ?case by simp
qed

lemma confirmation_reconcile_unfold:
  "confirmation_reconcile w self src conf alloc =
     ebind (tsch_removeCells (w self) src (removeSelf_of w self src (remdups (conf @ alloc))) (Some DIR_RX)) (\<lambda>m1.
       ebind (tsch_removeCells ((w(self := m1)) src) self (removeSelf_of w src self (remdups (conf @ alloc))) (Some DIR_TX)) (\<lambda>m2.
         Inr ((w(self := m1, src := m2))(self := ((w(self := m1, src := m2)) self)
                \<lparr>cellsAllocToNeighbor := (cellsAllocToNeighbor ((w(self := m1, src := m2)) self))(src \<mapsto> [])\<rparr>))))"
  by (simp add: confirmation_reconcile_def Let_def removeSelf_of_def)

lemma confirmation_reconcile_result:
  assumes ne: "src \<noteq> self"
    and run: "confirmation_reconcile w self src conf alloc = Inr w'"
  shows "schedule (w' self) = drop_slots (w self) src (removeSelf_of w self src (remdups (conf @ alloc)))
       \<and> schedule (w' src) = drop_slots (w src) self (removeSelf_of w src self (remdups (conf @ alloc)))
       \<and> pendingTransaction (w' self) = pendingTransaction (w self)
       \<and> pendingTransaction (w' src) = pendingTransaction (w src)"
proof -
  from run obtain m1 m2 where
    r1: "tsch_removeCells (w self) src (removeSelf_of w self src (remdups (conf @ alloc))) (Some DIR_RX) = Inr m1"
    and r2: "tsch_removeCells ((w(self := m1)) src) self (removeSelf_of w src self (remdups (conf @ alloc))) (Some DIR_TX) = Inr m2"
    and w': "w' = (w(self := m1, src := m2))(self := ((w(self := m1, src := m2)) self)
                \<lparr>cellsAllocToNeighbor := (cellsAllocToNeighbor ((w(self := m1, src := m2)) self))(src \<mapsto> [])\<rparr>)"
    unfolding confirmation_reconcile_unfold by (auto simp: ebind_Inr_iff)
  from ne r2 have r2': "tsch_removeCells (w src) self (removeSelf_of w src self (remdups (conf @ alloc))) (Some DIR_TX) = Inr m2"
    by simp
  from tsch_removeCells_frame [OF r1] obtain a b where
    m1: "m1 = (w self)\<lparr>numCellsToNeighbors := a, numCellsFromNeighbors := b,
        schedule := drop_slots (w self) src (removeSelf_of w self src (remdups (conf @ alloc)))\<rparr>"
    by blast
  from tsch_removeCells_frame [OF r2'] obtain a' b' where
    m2: "m2 = (w src)\<lparr>numCellsToNeighbors := a', numCellsFromNeighbors := b',
        schedule := drop_slots (w src) self (removeSelf_of w src self (remdups (conf @ alloc)))\<rparr>"
    by blast
  have s1: "w' self = m1\<lparr>cellsAllocToNeighbor := (cellsAllocToNeighbor m1)(src \<mapsto> [])\<rparr>"
    using ne unfolding w' by simp
  have s2: "w' src = m2"
    using ne unfolding w' by simp
  show ?thesis
    unfolding s1 s2 by (simp add: m1 m2)
qed

lemma confirmation_reconcile_succeeds:
  assumes ne: "src \<noteq> self"
    and k1: "numCellsFromNeighbors (w self) src \<noteq> None"
    and k2: "numCellsToNeighbors (w src) self \<noteq> None"
  shows "\<exists>w'. confirmation_reconcile w self src conf alloc = Inr w'"
proof -
  from tsch_removeCells_succeeds_dir [of "Some DIR_RX" "w self" src] k1
  obtain m1 where r1: "tsch_removeCells (w self) src (removeSelf_of w self src (remdups (conf @ alloc))) (Some DIR_RX) = Inr m1"
    by auto
  from tsch_removeCells_succeeds_dir [of "Some DIR_TX" "w src" self] k2
  obtain m2 where r2: "tsch_removeCells (w src) self (removeSelf_of w src self (remdups (conf @ alloc))) (Some DIR_TX) = Inr m2"
    by auto
  show ?thesis
    unfolding confirmation_reconcile_unfold using r1 r2 ne by simp
qed

lemma rx_accepted_fields:
  "schedule (rx_accepted w self data x) = schedule (w x)"
  "cellsAllocToNeighbor (rx_accepted w self data x) = cellsAllocToNeighbor (w x)"
  "numCellsFromNeighbors (rx_accepted w self data x) = numCellsFromNeighbors (w x)"
  "numCellsToNeighbors (rx_accepted w self data x) = numCellsToNeighbors (w x)"
  "holds_for (rx_accepted w self data x) ts n = holds_for (w x) ts n"
  by (simp_all add: rx_accepted_def incrementMoteStats_def holds_for_def)

lemma rx_finished_fields:
  "schedule (rx_finished st w self src x) = schedule (w x)"
  "holds_for (rx_finished st w self src x) ts n = holds_for (w x) ts n"
  "pendingTransaction (rx_finished st w self src self) = None"
  "pendingTransaction (rx_finished st w self src src) = None"
  by (simp_all add: rx_finished_def Let_def holds_for_def)

lemma rxDone_confirmation_unfold:
  assumes "0 < slotframeLength st" "schedule (w self) (asn mod slotframeLength st) \<noteq> None"
    and "waitingFor (w self) = Some DIR_RX \<or> waitingFor (w self) = Some DIR_SHARED"
    and "d_seq data = stored_seq (w self) (d_src data) + 1" "asn \<notin> set (ignorePacket (w self))"
    and "d_type data = ''confirmation''" "d_cells data = TsList conf"
    and "cellsAllocToNeighbor (w self) (d_src data) = Some alloc"
  shows "rxDone st asn response request_ok w self (ControlFrame data self) =
     ebind (if length conf = length alloc \<and> conf \<noteq> alloc
            then confirmation_reconcile (rx_accepted w self data) self (d_src data) conf alloc
            else Inr (rx_accepted w self data))
       (\<lambda>w3. Inr (rx_finished st w3 self (d_src data), (True, False)))"
proof -
  have ctl: "rxDone_control asn response request_ok w self data self =
      ebind (rx_confirmation (rx_accepted w self data) self data) (\<lambda>w6. Inr (w6, (True, False)))"
    using assms(4-6) by (simp add: rxDone_control_def Let_def rx_accepted_def)
  have conf: "rx_confirmation (rx_accepted w self data) self data =
      ebind (if length conf = length alloc \<and> conf \<noteq> alloc
            then confirmation_reconcile (rx_accepted w self data) self (d_src data) conf alloc
            else Inr (rx_accepted w self data))
       (\<lambda>w1. let w2 = w1(self := (w1 self)\<lparr>pendingTransaction := None\<rparr>)
             in Inr (w2(d_src data := (w2 (d_src data))\<lparr>pendingTransaction := None\<rparr>)))"
    using assms(7,8) by (simp add: rx_confirmation_def py_lookup_def rx_accepted_fields)
  have "rxDone st asn response request_ok w self (ControlFrame data self) =
      ebind (rxDone_control asn response request_ok w self data self)
        (\<lambda>(w1, acks). Inr (w1(self := (w1 self)
                    \<lparr>waitingFor := (if queuing st = 0 then None else Some DIR_SHARED)\<rparr>), acks))"
    using assms(1-3) by (auto simp: rxDone_def)
  then show ?thesis
    unfolding ctl conf
    by (cases "length conf = length alloc \<and> conf \<noteq> alloc";
        cases "confirmation_reconcile (rx_accepted w self data) self (d_src data) conf alloc")
       (simp_all add: rx_finished_def Let_def)
qed

lemma reconciled_no_dangling:
  assumes "schedule m1' = drop_slots m1 n2 (filter (\<lambda>ts. holds_for m1 ts n2 \<and> schedule m2 ts = None) cells)"
    and "schedule m2' = drop_slots m2 n1 (filter (\<lambda>ts. holds_for m2 ts n1 \<and> schedule m1 ts = None) cells)"
    and "ts \<in> set cells" "holds_for m1' ts n2"
  shows "schedule m2' ts \<noteq> None"
  using assms by (auto simp: drop_slots_def holds_for_def split: option.splits if_splits)

lemma drop_slots_removeSelf:
  "drop_slots (w a) b (removeSelf_of w a b cells) ts =
     (if ts \<in> set cells \<and> holds_for (w a) ts b \<and> schedule (w b) ts = None
      then None else schedule (w a) ts)"
  by (auto simp: drop_slots_def removeSelf_of_def)

text \<open>
  C1, as the code has it. A responder \<open>self\<close> accepts a confirmation of another mote,
  the initiator, with the list \<open>conf\<close> of confirmed slots, having recorded the list
  \<open>alloc\<close> for that mote, and both cell counters that \<^verbatim>\<open>_tsch_removeCells\<close> decrements have
  their entry. Then \<^verbatim>\<open>rxDone\<close> returns, acknowledging, and \<^verbatim>\<open>pendingTransaction\<close> is
  \<^verbatim>\<open>None\<close> on both motes. If the two lists have the same length and differ, the
  responder has lost exactly the slots of either list that it held for the initiator
  while the initiator had no cell at the slot, and the initiator exactly those it held
  for the responder while the responder had no cell at the slot; afterwards no slot of
  either list is held by one of the two motes for the other while the other has no cell
  there. On every other confirmation both schedules are left as they were.
\<close>

theorem confirmation_reconciles:
  assumes "0 < slotframeLength st" "schedule (w self) (asn mod slotframeLength st) \<noteq> None"
    and "waitingFor (w self) = Some DIR_RX \<or> waitingFor (w self) = Some DIR_SHARED"
    and "d_seq data = stored_seq (w self) (d_src data) + 1" "asn \<notin> set (ignorePacket (w self))"
    and "d_type data = ''confirmation''" "d_cells data = TsList conf"
    and "cellsAllocToNeighbor (w self) (d_src data) = Some alloc"
    and ne: "d_src data \<noteq> self"
    and k1: "numCellsFromNeighbors (w self) (d_src data) \<noteq> None"
    and k2: "numCellsToNeighbors (w (d_src data)) self \<noteq> None"
  shows "\<exists>w'. rxDone st asn response request_ok w self (ControlFrame data self) = Inr (w', (True, False))
        \<and> pendingTransaction (w' self) = None \<and> pendingTransaction (w' (d_src data)) = None
        \<and> (if length conf = length alloc \<and> conf \<noteq> alloc
           then (\<forall>ts. schedule (w' self) ts =
                        (if ts \<in> set conf \<union> set alloc \<and> holds_for (w self) ts (d_src data)
                            \<and> schedule (w (d_src data)) ts = None
                         then None else schedule (w self) ts))
              \<and> (\<forall>ts. schedule (w' (d_src data)) ts =
                        (if ts \<in> set conf \<union> set alloc \<and> holds_for (w (d_src data)) ts self
                            \<and> schedule (w self) ts = None
                         then None else schedule (w (d_src data)) ts))
              \<and> (\<forall>ts \<in> set conf \<union> set alloc.
                    (holds_for (w' self) ts (d_src data) \<longrightarrow> schedule (w' (d_src data)) ts \<noteq> None)
                  \<and> (holds_for (w' (d_src data)) ts self \<longrightarrow> schedule (w' self) ts \<noteq> None))
           else schedule (w' self) = schedule (w self)
              \<and> schedule (w' (d_src data)) = schedule (w (d_src data)))"
proof -
  let ?src = "d_src data"
  let ?wa = "rx_accepted w self data"
  note unf = rxDone_confirmation_unfold [where w = w and self = self and response = response
      and request_ok = request_ok, OF assms(1-8)]
  show ?thesis
  proof (cases "length conf = length alloc \<and> conf \<noteq> alloc")
    case False
    then have run: "rxDone st asn response request_ok w self (ControlFrame data self) =
        Inr (rx_finished st ?wa self ?src, (True, False))"
      unfolding unf by (simp only: if_False ebind_simps)
    show ?thesis
      unfolding if_not_P [OF False]
    proof (intro exI conjI)
      show "rxDone st asn response request_ok w self (ControlFrame data self) =
        Inr (rx_finished st ?wa self ?src, (True, False))"
        by (rule run)
    qed (simp_all add: rx_finished_fields rx_accepted_fields)
  next
    case True
    from confirmation_reconcile_succeeds [OF ne, of ?wa conf alloc] k1 k2
    obtain w3 where rec: "confirmation_reconcile ?wa self ?src conf alloc = Inr w3"
      by (auto simp: rx_accepted_fields)
    from confirmation_reconcile_result [OF ne rec]
    have s1: "schedule (w3 self) = drop_slots (?wa self) ?src (removeSelf_of ?wa self ?src (remdups (conf @ alloc)))"
      and s2: "schedule (w3 ?src) = drop_slots (?wa ?src) self (removeSelf_of ?wa ?src self (remdups (conf @ alloc)))"
      by simp_all
    have a1: "schedule (w3 self) ts =
        (if ts \<in> set conf \<union> set alloc \<and> holds_for (w self) ts ?src \<and> schedule (w ?src) ts = None
         then None else schedule (w self) ts)" for ts
      unfolding s1 drop_slots_removeSelf by (auto simp: rx_accepted_fields)
    have a2: "schedule (w3 ?src) ts =
        (if ts \<in> set conf \<union> set alloc \<and> holds_for (w ?src) ts self \<and> schedule (w self) ts = None
         then None else schedule (w ?src) ts)" for ts
      unfolding s2 drop_slots_removeSelf by (auto simp: rx_accepted_fields)
    have d1: "schedule (w3 ?src) ts \<noteq> None"
      if "ts \<in> set conf \<union> set alloc" "holds_for (w3 self) ts ?src" for ts
      using that a1 [of ts] a2 [of ts]
      by (auto simp: holds_for_def split: option.splits if_splits)
    have d2: "schedule (w3 self) ts \<noteq> None"
      if "ts \<in> set conf \<union> set alloc" "holds_for (w3 ?src) ts self" for ts
      using that a1 [of ts] a2 [of ts]
      by (auto simp: holds_for_def split: option.splits if_splits)
    have run: "rxDone st asn response request_ok w self (ControlFrame data self) =
        Inr (rx_finished st w3 self ?src, (True, False))"
      unfolding unf using rec by (simp only: if_P [OF True] ebind_simps)
    show ?thesis
      unfolding if_P [OF True]
    proof (intro exI conjI)
      show "rxDone st asn response request_ok w self (ControlFrame data self) =
        Inr (rx_finished st w3 self ?src, (True, False))"
        by (rule run)
    qed (use a1 a2 d1 d2 in \<open>simp_all add: rx_finished_fields\<close>)
  qed
qed

lemma booted_rx_fields:
  "waitingFor booted = Some DIR_SHARED" "ignorePacket booted = []"
  "sequenceNumberWithNeighbor booted = Map.empty"
  by (simp_all add: booted_def boot_def new_mote_def st_shared_def numeral_2_eq_2)

lemma tsch_addCells_fields:
  "waitingFor (tsch_addCells asn m nb cs) = waitingFor m"
  "ignorePacket (tsch_addCells asn m nb cs) = ignorePacket m"
  by (induction asn m nb cs rule: tsch_addCells.induct) simp_all

lemma w_conf_pre:
  "0 < slotframeLength st_shared"
  "schedule (w_conf busy ins 2) (0 mod slotframeLength st_shared) \<noteq> None"
  "waitingFor (w_conf busy ins 2) = Some DIR_RX \<or> waitingFor (w_conf busy ins 2) = Some DIR_SHARED"
  "d_seq (confirmation_of slots 3) = stored_seq (w_conf busy ins 2) (d_src (confirmation_of slots 3)) + 1"
  "0 \<notin> set (ignorePacket (w_conf busy ins 2))"
  "d_type (confirmation_of slots 3) = ''confirmation''"
  "d_cells (confirmation_of slots 3) = TsList slots"
  "cellsAllocToNeighbor (w_conf busy ins 2) (d_src (confirmation_of slots 3)) = Some [7, 8]"
  by (simp_all add: st_shared_def w_conf_def responder_def confirmation_of_def stored_seq_def
      booted_schedule booted_rx_fields tsch_addCells_fields)

text \<open>
  The claim fails when the initiator confirms fewer cells than were allocated. The
  responder allocated slots 7 and 8; the initiator, busy at slot 8 with mote 6, installed
  and confirmed slot 7 only. The lengths differ, nothing is reconciled: after the
  confirmation the responder still holds slot 8 for the initiator, which does not hold
  it for the responder.
\<close>

theorem confirmation_counterexample:
  "rxDone st_shared 0 no_response no_request_ok (w_conf [(8, 0, DIR_RX)] [(7, 3, DIR_TX)]) 2
       (ControlFrame (confirmation_of [7] 3) 2) =
     Inr (rx_finished st_shared (rx_accepted (w_conf [(8, 0, DIR_RX)] [(7, 3, DIR_TX)]) 2 (confirmation_of [7] 3)) 2 4,
          (True, False))
   \<and> cellsAllocToNeighbor (w_conf [(8, 0, DIR_RX)] [(7, 3, DIR_TX)] 2) 4 = Some [7, 8]
   \<and> holds_for (rx_finished st_shared
                  (rx_accepted (w_conf [(8, 0, DIR_RX)] [(7, 3, DIR_TX)]) 2 (confirmation_of [7] 3)) 2 4 2) 8 4
   \<and> \<not> holds_for (rx_finished st_shared
                  (rx_accepted (w_conf [(8, 0, DIR_RX)] [(7, 3, DIR_TX)]) 2 (confirmation_of [7] 3)) 2 4 4) 8 2"
proof -
  have src: "d_src (confirmation_of [7] 3) = 4"
    by (simp add: confirmation_of_def)
  have "rxDone st_shared 0 no_response no_request_ok (w_conf [(8, 0, DIR_RX)] [(7, 3, DIR_TX)]) 2
       (ControlFrame (confirmation_of [7] 3) 2) =
     Inr (rx_finished st_shared (rx_accepted (w_conf [(8, 0, DIR_RX)] [(7, 3, DIR_TX)]) 2 (confirmation_of [7] 3)) 2 4,
          (True, False))"
    using rxDone_confirmation_unfold [where w = "w_conf [(8, 0, DIR_RX)] [(7, 3, DIR_TX)]" and self = 2
        and response = no_response and request_ok = no_request_ok, OF w_conf_pre]
    by (simp add: src)
  moreover have "holds_for (w_conf [(8, 0, DIR_RX)] [(7, 3, DIR_TX)] 2) 8 4"
    by (simp add: holds_for_def w_conf_def responder_def added_cell_def)
  moreover have "\<not> holds_for (w_conf [(8, 0, DIR_RX)] [(7, 3, DIR_TX)] 4) 8 2"
    by (simp add: holds_for_def w_conf_def initiator_def added_cell_def)
  ultimately show ?thesis
    using w_conf_pre(8) [of "[(8, 0, DIR_RX)]" "[(7, 3, DIR_TX)]" "[7]"]
    by (simp add: rx_finished_fields rx_accepted_fields src)
qed

text \<open>
  The responder allocated slots 7 and 8 and the confirmation lists 7 and 9, which the
  initiator holds: the responder loses slot 8, the initiator loses slot 9, both keep
  slot 7.
\<close>

theorem confirmation_reconciles_witness:
  "\<exists>w'. rxDone st_shared 0 no_response no_request_ok (w_conf [] [(7, 3, DIR_TX), (9, 3, DIR_TX)]) 2
            (ControlFrame (confirmation_of [7, 9] 3) 2) = Inr (w', (True, False))
        \<and> pendingTransaction (w' 2) = None \<and> pendingTransaction (w' 4) = None
        \<and> holds_for (w' 2) 7 4 \<and> holds_for (w' 4) 7 2
        \<and> schedule (w' 2) 8 = None \<and> schedule (w' 4) 9 = None"
proof -
  let ?w = "w_conf [] [(7, 3, DIR_TX), (9, 3, DIR_TX)]"
  have src: "d_src (confirmation_of [7, 9] 3) = 4"
    by (simp add: confirmation_of_def)
  have ne: "d_src (confirmation_of [7, 9] 3) \<noteq> 2"
    by (simp add: src)
  have k1: "numCellsFromNeighbors (?w 2) (d_src (confirmation_of [7, 9] 3)) \<noteq> None"
    by (simp add: src w_conf_def responder_def)
  have k2: "numCellsToNeighbors (?w (d_src (confirmation_of [7, 9] 3))) 2 \<noteq> None"
    by (simp add: src w_conf_def initiator_def)
  have guard: "length [7, 9 :: nat] = length [7, 8 :: nat] \<and> [7, 9 :: nat] \<noteq> [7, 8]"
    by simp
  have r: "schedule (?w 2) ts =
      (if ts = 7 then Some (added_cell 0 3 DIR_RX 4) else if ts = 8 then Some (added_cell 0 2 DIR_RX 4)
       else schedule booted ts)" for ts
    by (simp add: w_conf_def responder_def)
  have i: "schedule (?w 4) ts =
      (if ts = 9 then Some (added_cell 0 3 DIR_TX 2) else if ts = 7 then Some (added_cell 0 3 DIR_TX 2)
       else schedule booted ts)" for ts
    by (simp add: w_conf_def initiator_def)
  from confirmation_reconciles [where w = ?w and self = 2 and response = no_response
      and request_ok = no_request_ok, OF w_conf_pre ne k1 k2, unfolded if_P [OF guard] src]
  obtain w' where run: "rxDone st_shared 0 no_response no_request_ok ?w 2
            (ControlFrame (confirmation_of [7, 9] 3) 2) = Inr (w', (True, False))"
    and p: "pendingTransaction (w' 2) = None" "pendingTransaction (w' 4) = None"
    and s2: "\<And>ts. schedule (w' 2) ts =
                 (if ts \<in> set [7, 9] \<union> set [7, 8] \<and> holds_for (?w 2) ts 4 \<and> schedule (?w 4) ts = None
                  then None else schedule (?w 2) ts)"
    and s1: "\<And>ts. schedule (w' 4) ts =
                 (if ts \<in> set [7, 9] \<union> set [7, 8] \<and> holds_for (?w 4) ts 2 \<and> schedule (?w 2) ts = None
                  then None else schedule (?w 4) ts)"
    by blast
  have a: "holds_for (w' 2) 7 4"
    unfolding holds_for_def s2 by (simp add: r i added_cell_def)
  have b: "holds_for (w' 4) 7 2"
    unfolding holds_for_def s1 by (simp add: r i added_cell_def)
  have c: "schedule (w' 2) 8 = None"
    unfolding s2 by (simp add: r i holds_for_def added_cell_def booted_schedule)
  have d: "schedule (w' 4) 9 = None"
    unfolding s1 by (simp add: r i holds_for_def added_cell_def booted_schedule)
  show ?thesis
    using run p a b c d by blast
qed

subsection \<open>C9: a CONTROL frame out of sequence\<close>

text \<open>
  C9. When the sequence number of a received CONTROL frame is not the stored counter of
  its source plus one (0 standing for a source without counter), \<^verbatim>\<open>rxDone\<close> returns
  the state in which only that counter, now the received number, and \<^verbatim>\<open>waitingFor\<close>
  have changed: whatever the handlers of requests and answers are, none is called, no
  OTF status is stored and no confirmation is handled. The frame is acknowledged.
\<close>

theorem rxDone_out_of_sequence:
  assumes "0 < slotframeLength st" "schedule (w self) (asn mod slotframeLength st) \<noteq> None"
    and "waitingFor (w self) = Some DIR_RX \<or> waitingFor (w self) = Some DIR_SHARED"
    and "d_seq data \<noteq> stored_seq (w self) (d_src data) + 1"
  shows "rxDone st asn response request_ok w self (ControlFrame data dmac) =
           Inr (w(self := (w self)
                  \<lparr>sequenceNumberWithNeighbor :=
                     (sequenceNumberWithNeighbor (w self))(d_src data \<mapsto> d_seq data),
                   waitingFor := (if queuing st = 0 then None else Some DIR_SHARED)\<rparr>),
                (True, False))"
  using assms by (auto simp: rxDone_def rxDone_control_def Let_def)

text \<open>
  The responder of the example stores 2 for the initiator and receives a confirmation
  numbered 5.
\<close>

theorem rxDone_out_of_sequence_witness:
  "rxDone st_shared 0 no_response no_request_ok (w_conf [(8, 0, DIR_RX)] [(7, 3, DIR_TX)]) 2
       (ControlFrame (confirmation_of [7] 5) 2) =
     Inr ((w_conf [(8, 0, DIR_RX)] [(7, 3, DIR_TX)])(2 := (w_conf [(8, 0, DIR_RX)] [(7, 3, DIR_TX)] 2)
            \<lparr>sequenceNumberWithNeighbor := [4 \<mapsto> 5], waitingFor := Some DIR_SHARED\<rparr>),
          (True, False))
   \<and> stored_seq (w_conf [(8, 0, DIR_RX)] [(7, 3, DIR_TX)] 2) 4 = 2"
proof -
  have seq: "d_seq (confirmation_of [7] 5) \<noteq>
      stored_seq (w_conf [(8, 0, DIR_RX)] [(7, 3, DIR_TX)] 2) (d_src (confirmation_of [7] 5)) + 1"
    by (simp add: confirmation_of_def stored_seq_def w_conf_def responder_def)
  have upd: "(sequenceNumberWithNeighbor (w_conf [(8, 0, DIR_RX)] [(7, 3, DIR_TX)] 2))(4 \<mapsto> 5) = [4 \<mapsto> 5]"
    by (simp add: w_conf_def responder_def)
  show ?thesis
    using rxDone_out_of_sequence [where w = "w_conf [(8, 0, DIR_RX)] [(7, 3, DIR_TX)]" and self = 2
        and response = no_response and request_ok = no_request_ok and dmac = 2,
        OF w_conf_pre(1-3) seq]
    by (simp add: confirmation_of_def upd st_shared_def stored_seq_def w_conf_def responder_def)
qed

subsection \<open>Schedules and queues across txDone\<close>

text \<open>
  An aborted transaction only removes cells, and so does every branch of \<^verbatim>\<open>txDone\<close>
  once the outcome is appended to the history of the cell of the slot.
\<close>

lemma drop_slots_le: "drop_slots m nb tsList \<subseteq>\<^sub>m schedule m"
  by (auto simp: drop_slots_def map_le_def)

lemma top_abort_transaction_schedule_le:
  assumes "top_abort_transaction m = Inr m'"
  shows "schedule m' \<subseteq>\<^sub>m schedule m"
proof (cases "pendingTransaction m")
  case None
  with assms show ?thesis
    by (auto simp: top_abort_transaction_def incrementMoteStats_def)
next
  case (Some p)
  from top_abort_transaction_aborted [OF Some assms] show ?thesis
    by (simp add: aborted_def drop_slots_le)
qed

lemma dec_retriesLeft_fields [simp]:
  "schedule (dec_retriesLeft m b) = schedule m"
  "txQueue (dec_retriesLeft m b) = txQueue m"
  "controlQueue (dec_retriesLeft m b) = controlQueue m"
  "controlQueueHP (dec_retriesLeft m b) = controlQueueHP m"
  "controlQueueNP (dec_retriesLeft m b) = controlQueueNP m"
  "motestats (dec_retriesLeft m b) = motestats m"
  "waitingFor (dec_retriesLeft m b) = waitingFor m"
  "pktToSend (dec_retriesLeft m b) = pktToSend m"
  by (simp_all add: dec_retriesLeft_def)

lemma incrementMoteStats_fields [simp]:
  "schedule (incrementMoteStats m n) = schedule m"
  "txQueue (incrementMoteStats m n) = txQueue m"
  "controlQueue (incrementMoteStats m n) = controlQueue m"
  "controlQueueHP (incrementMoteStats m n) = controlQueueHP m"
  "controlQueueNP (incrementMoteStats m n) = controlQueueNP m"
  "pkts (incrementMoteStats m n) = pkts m"
  "waitingFor (incrementMoteStats m n) = waitingFor m"
  "pktToSend (incrementMoteStats m n) = pktToSend m"
  by (simp_all add: incrementMoteStats_def)

lemma set_queue_schedule [simp]: "schedule (set_queue qn q m) = schedule m"
  by (cases qn) (simp_all add: set_queue_def)

lemma retry_or_drop_schedule:
  assumes "retry_or_drop qn m a = Inr m'"
  shows "schedule m' = schedule m"
  using assms
  by (auto simp: retry_or_drop_def Let_def split: option.splits if_splits)

lemma control_drop_schedule_le:
  assumes "control_drop shared m1 a = Inr m5"
  shows "schedule m5 \<subseteq>\<^sub>m schedule m1"
proof -
  from assms obtain m4 where ab: "top_abort_transaction m4 = Inr m5" and s: "schedule m4 = schedule m1"
    by (auto simp: control_drop_def Let_def split: option.splits if_splits)
  from top_abort_transaction_schedule_le [OF ab] s show ?thesis by simp
qed

lemma peer_abort_schedule_le:
  assumes "peer_abort w self a = Inr w'"
  shows "schedule (w' x) \<subseteq>\<^sub>m schedule (w x)"
proof (cases "w' = w")
  case True
  then show ?thesis by simp
next
  case False
  with assms obtain dm pm where ab: "top_abort_transaction (w dm) = Inr pm" and w': "w' = w(dm := pm)"
    by (auto simp: peer_abort_def ebind_Inr_iff split: option.splits if_splits)
  from top_abort_transaction_schedule_le [OF ab] show ?thesis
    unfolding w' by (cases "x = dm") simp_all
qed

lemma control_retry_schedule_le:
  assumes "control_retry shared w self a = Inr w'"
  shows "schedule (w' x) \<subseteq>\<^sub>m schedule (w x)"
proof (cases "controlQueue (w self) = []")
  case True
  with assms show ?thesis by (simp add: control_retry_def Let_def)
next
  case False
  from assms False obtain i where i: "py_index (pkts (w self)) (controlQueue (w self)) (pkts (w self) a) = Some i"
    by (auto simp: control_retry_def Let_def split: option.splits)
  define b where "b = controlQueue (w self) ! i"
  define m1 where "m1 = dec_retriesLeft (w self) b"
  have m1: "schedule m1 = schedule (w self)"
    by (simp add: m1_def)
  show ?thesis
  proof (cases "retriesLeft (pkts m1 b) = 0 \<or> (shared \<and> macBackoffNB m1 = macMaxCSMABackoffs m1)")
    case no: False
    with assms False i have "w' = w(self := m1)"
      by (auto simp: control_retry_def Let_def b_def m1_def)
    then show ?thesis by (simp add: m1)
  next
    case yes: True
    with assms False i obtain m5 where
      d: "control_drop shared m1 a = Inr m5" and p: "peer_abort (w(self := m5)) self a = Inr w'"
      by (auto simp: control_retry_def Let_def b_def m1_def ebind_Inr_iff)
    from control_drop_schedule_le [OF d] have "schedule ((w(self := m5)) x) \<subseteq>\<^sub>m schedule (w x)"
      by (cases "x = self") (simp_all add: m1)
    with peer_abort_schedule_le [OF p, of x] show ?thesis
      by (rule map_le_trans)
  qed
qed

lemma time_correction_fields [simp]:
  "schedule (time_correction asn c m) = schedule m"
  "txQueue (time_correction asn c m) = txQueue m"
  "controlQueue (time_correction asn c m) = controlQueue m"
  "controlQueueHP (time_correction asn c m) = controlQueueHP m"
  "controlQueueNP (time_correction asn c m) = controlQueueNP m"
  "pkts (time_correction asn c m) = pkts m"
  "motestats (time_correction asn c m) = motestats m"
  "waitingFor (time_correction asn c m) = waitingFor m"
  "pktToSend (time_correction asn c m) = pktToSend m"
  "sharedSlots (time_correction asn c m) = sharedSlots m"
  by (simp_all add: time_correction_def)

lemma csma_backoff_schedule [simp]: "schedule (csma_backoff delay m) = schedule m"
  by (simp add: csma_backoff_def)

lemma txDone_acked_schedule:
  assumes "txDone_acked st asn ts c m = Inr m'"
  shows "schedule m' = (schedule m)(ts \<mapsto> c\<lparr>numTxAck := numTxAck c + 1, history := history c @ [1]\<rparr>)"
  using assms
  by (auto simp: txDone_acked_def Let_def split: option.splits if_splits)

lemma world_update_schedule_le:
  assumes "schedule m = S"
  shows "schedule ((w(self := m)) x) \<subseteq>\<^sub>m (if x = self then S else schedule (w x))"
  using assms by simp

lemma control_retry_update_schedule_le:
  assumes "control_retry shared (w(self := m)) self a = Inr w'" and "schedule m = S"
  shows "schedule (w' x) \<subseteq>\<^sub>m (if x = self then S else schedule (w x))"
  using control_retry_schedule_le [OF assms(1), of x] assms(2) by (cases "x = self") simp_all

lemma retry_or_drop_update_schedule_le:
  assumes "ebind (retry_or_drop qn m a) (\<lambda>m3. Inr (w(self := m3))) = Inr w'" and "schedule m = S"
  shows "schedule (w' x) \<subseteq>\<^sub>m (if x = self then S else schedule (w x))"
proof -
  from assms(1) obtain m3 where r: "retry_or_drop qn m a = Inr m3" and w': "w' = w(self := m3)"
    by (auto simp: ebind_Inr_iff)
  from retry_or_drop_schedule [OF r] assms(2) show ?thesis
    unfolding w' by simp
qed

lemma txDone_nacked_schedule_le:
  assumes "txDone_nacked st asn delay ts c w self = Inr w'"
  shows "schedule (w' x) \<subseteq>\<^sub>m
    (if x = self
     then (schedule (w self))(ts \<mapsto> c\<lparr>numTxAck := numTxAck c + 1, history := history c @ [1]\<rparr>)
     else schedule (w x))"
proof -
  define m2 where "m2 = time_correction asn c ((w self)\<lparr>schedule := (schedule (w self))
                   (ts \<mapsto> c\<lparr>numTxAck := numTxAck c + 1, history := history c @ [1]\<rparr>)\<rparr>)"
  have s: "schedule m2 = (schedule (w self))(ts \<mapsto> c\<lparr>numTxAck := numTxAck c + 1, history := history c @ [1]\<rparr>)"
    by (simp add: m2_def)
  have s1: "schedule (csma_backoff delay m2) = (schedule (w self))(ts \<mapsto> c\<lparr>numTxAck := numTxAck c + 1, history := history c @ [1]\<rparr>)"
    by (simp add: s)
  have s2: "schedule (m2\<lparr>sendControlFailed := True\<rparr>) = (schedule (w self))(ts \<mapsto> c\<lparr>numTxAck := numTxAck c + 1, history := history c @ [1]\<rparr>)"
    by (simp add: s)
  from assms have
    "(\<exists>qn a. ebind (retry_or_drop qn m2 a) (\<lambda>m3. Inr (w(self := m3))) = Inr w')
     \<or> (\<exists>a. control_retry True (w(self := csma_backoff delay m2)) self a = Inr w')
     \<or> (\<exists>a. control_retry False (w(self := m2\<lparr>sendControlFailed := True\<rparr>)) self a = Inr w')
     \<or> w' = w(self := m2)"
    unfolding txDone_nacked_def Let_def m2_def [symmetric]
    by (auto split: option.splits if_splits)
  then show ?thesis
    using retry_or_drop_update_schedule_le [OF _ s, of _ _ w self w' x]
      control_retry_update_schedule_le [OF _ s1, of True w self _ w' x]
      control_retry_update_schedule_le [OF _ s2, of False w self _ w' x]
      world_update_schedule_le [OF s, of w self x]
    by blast
qed

lemma txDone_failed_schedule_le:
  assumes "txDone_failed st delay ts c w self = Inr w'"
  shows "schedule (w' x) \<subseteq>\<^sub>m
    (if x = self
     then (schedule (w self))(ts \<mapsto> c\<lparr>history := history c @ [0]\<rparr>)
     else schedule (w x))"
proof -
  define m1 where "m1 = (w self)\<lparr>schedule := (schedule (w self))(ts \<mapsto> c\<lparr>history := history c @ [0]\<rparr>)\<rparr>"
  have s: "schedule m1 = (schedule (w self))(ts \<mapsto> c\<lparr>history := history c @ [0]\<rparr>)"
    by (simp add: m1_def)
  have s1: "schedule (csma_backoff delay m1) = (schedule (w self))(ts \<mapsto> c\<lparr>history := history c @ [0]\<rparr>)"
    by (simp add: s)
  have s2: "schedule (m1\<lparr>sendcontrolFailed := True\<rparr>) = (schedule (w self))(ts \<mapsto> c\<lparr>history := history c @ [0]\<rparr>)"
    by (simp add: s)
  from assms have
    "(\<exists>qn a. ebind (retry_or_drop qn m1 a) (\<lambda>m3. Inr (w(self := m3))) = Inr w')
     \<or> (\<exists>a. control_retry True (w(self := csma_backoff delay m1)) self a = Inr w')
     \<or> (\<exists>a. control_retry False (w(self := m1\<lparr>sendcontrolFailed := True\<rparr>)) self a = Inr w')
     \<or> w' = w(self := m1)"
    unfolding txDone_failed_def Let_def m1_def [symmetric]
    by (auto split: option.splits if_splits)
  then show ?thesis
    using retry_or_drop_update_schedule_le [OF _ s, of _ _ w self w' x]
      control_retry_update_schedule_le [OF _ s1, of True w self _ w' x]
      control_retry_update_schedule_le [OF _ s2, of False w self _ w' x]
      world_update_schedule_le [OF s, of w self x]
    by blast
qed

lemma txDone_end_result:
  assumes "txDone_end st ms ts w self = Inr w'"
  shows "\<exists>c v. schedule (w self) ts = Some c
    \<and> w' = w(self := (w self)
          \<lparr>waitingFor := (if queuing st = 0 then None else Some DIR_SHARED),
           schedule := (schedule (w self))
             (ts \<mapsto> c\<lparr>debug_canbeInterfered := debug_canbeInterfered c @ [v]\<rparr>)\<rparr>)"
  using assms
  by (auto simp: txDone_end_def Let_def ebind_Inr_iff split: option.splits)

lemma canbeInterfered_loop_total:
  "\<exists>v. canbeInterfered_loop w self ts c (Some r) ms acc = Inr v"
  by (induction ms arbitrary: acc) (auto split: option.splits)

lemma txDone_end_succeeds:
  assumes "schedule (w self) ts = Some c" and "neighbor c = Some r"
  shows "\<exists>v. txDone_end st ms ts w self =
    Inr (w(self := (w self)
          \<lparr>waitingFor := (if queuing st = 0 then None else Some DIR_SHARED),
           schedule := (schedule (w self))
             (ts \<mapsto> c\<lparr>debug_canbeInterfered := debug_canbeInterfered c @ [v]\<rparr>)\<rparr>))"
proof -
  define w1 where "w1 = w(self := (w self)
                 \<lparr>waitingFor := (if queuing st = 0 then None else Some DIR_SHARED)\<rparr>)"
  obtain v where v: "canbeInterfered_loop w1 self ts (ch c) (Some r) ms 0 = Inr v"
    using canbeInterfered_loop_total by blast
  have s: "schedule (w1 self) ts = Some c"
    by (simp add: w1_def assms(1))
  have "txDone_end st ms ts w self =
    Inr (w1(self := (w1 self)
          \<lparr>schedule := (schedule (w1 self))
             (ts \<mapsto> c\<lparr>debug_canbeInterfered := debug_canbeInterfered c @ [v]\<rparr>)\<rparr>))"
    unfolding txDone_end_def Let_def w1_def [symmetric] by (simp add: s assms(2) v)
  also have "w1(self := (w1 self)
          \<lparr>schedule := (schedule (w1 self))
             (ts \<mapsto> c\<lparr>debug_canbeInterfered := debug_canbeInterfered c @ [v]\<rparr>)\<rparr>) =
     w(self := (w self)
          \<lparr>waitingFor := (if queuing st = 0 then None else Some DIR_SHARED),
           schedule := (schedule (w self))
             (ts \<mapsto> c\<lparr>debug_canbeInterfered := debug_canbeInterfered c @ [v]\<rparr>)\<rparr>)"
    by (simp add: w1_def)
  finally show ?thesis by blast
qed

lemma retry_or_drop_txQueue_head:
  assumes "txQueue m = a # q"
  shows "retry_or_drop TxQueue m a =
    Inr (if retriesLeft (pkts (dec_retriesLeft m a) a) = 0 \<and> length (a # q) = TSCH_QUEUE_SIZE
         then (incrementMoteStats (dec_retriesLeft m a) droppedMacRetries)\<lparr>txQueue := q\<rparr>
         else dec_retriesLeft m a)"
  using assms by (simp add: retry_or_drop_def get_queue_def set_queue_def Let_def)

lemma dec_retriesLeft_schedule_update:
  "pkts (dec_retriesLeft (m\<lparr>schedule := S\<rparr>) a) = pkts (dec_retriesLeft m a)"
  "pkts (dec_retriesLeft (time_correction asn c (m\<lparr>schedule := S\<rparr>)) a) = pkts (dec_retriesLeft m a)"
  by (simp_all add: dec_retriesLeft_def time_correction_def)

lemma dec_retriesLeft_p_type [simp]:
  "p_type (pkts (dec_retriesLeft m b) x) = p_type (pkts m x)"
  by (simp add: dec_retriesLeft_def)

lemma txDone_data_step:
  assumes sf: "slotframeLength st \<noteq> 0"
    and c: "schedule (w self) (asn mod slotframeLength st) = Some c"
    and d: "dir c = DIR_TX \<or> dir c = DIR_SHARED"
    and wf: "waitingFor (w self) = Some DIR_TX \<or> waitingFor (w self) = Some DIR_SHARED"
    and nb: "neighbor c = Some r"
    and p: "pktToSend (w self) = Some a"
    and ty: "p_type (pkts (w self) a) = DATA"
    and q: "txQueue (w self) = a # q"
  shows "\<exists>m' v. txDone st asn delay ms w self False isNACKed = Inr (w(self := m'))
     \<and> schedule m' = (schedule (w self))(asn mod slotframeLength st \<mapsto>
          c\<lparr>numTxAck := (if isNACKed then numTxAck c + 1 else numTxAck c),
            history := history c @ [if isNACKed then 1 else 0],
            debug_canbeInterfered := debug_canbeInterfered c @ [v]\<rparr>)
     \<and> pkts m' = pkts (dec_retriesLeft (w self) a)
     \<and> txQueue m' =
         (if retriesLeft (pkts (dec_retriesLeft (w self) a) a) = 0 \<and> length (a # q) = TSCH_QUEUE_SIZE
          then q else a # q)
     \<and> motestats m' =
         (if retriesLeft (pkts (dec_retriesLeft (w self) a) a) = 0 \<and> length (a # q) = TSCH_QUEUE_SIZE
          then (motestats (w self))(droppedMacRetries := motestats (w self) droppedMacRetries + 1)
          else motestats (w self))
     \<and> pktToSend m' = Some a
     \<and> waitingFor m' = (if queuing st = 0 then None else Some DIR_SHARED)"
proof -
  define ts where "ts = asn mod slotframeLength st"
  define c1 where "c1 = c\<lparr>numTxAck := (if isNACKed then numTxAck c + 1 else numTxAck c),
            history := history c @ [if isNACKed then 1 else 0]\<rparr>"
  define m1 where "m1 = (if isNACKed
     then time_correction asn c ((w self)\<lparr>schedule := (schedule (w self))(ts \<mapsto> c1)\<rparr>)
     else (w self)\<lparr>schedule := (schedule (w self))(ts \<mapsto> c1)\<rparr>)"
  define D where "D \<longleftrightarrow> retriesLeft (pkts (dec_retriesLeft (w self) a) a) = 0 \<and> length (a # q) = TSCH_QUEUE_SIZE"
  define m3 where "m3 = (if D then (incrementMoteStats (dec_retriesLeft m1 a) droppedMacRetries)\<lparr>txQueue := q\<rparr>
         else dec_retriesLeft m1 a)"
  have m1: "schedule m1 = (schedule (w self))(ts \<mapsto> c1)" "pktToSend m1 = Some a"
    "p_type (pkts m1 a) = DATA" "txQueue m1 = a # q" "motestats m1 = motestats (w self)"
    "pkts (dec_retriesLeft m1 a) = pkts (dec_retriesLeft (w self) a)"
    by (simp_all add: m1_def p ty q dec_retriesLeft_schedule_update)
  have rd: "retry_or_drop TxQueue m1 a = Inr m3"
    unfolding retry_or_drop_txQueue_head [OF m1(4)] m3_def D_def m1(6) ..
  have br: "(if isNACKed then txDone_nacked st asn delay ts c w self
             else txDone_failed st delay ts c w self) = Inr (w(self := m3))"
  proof (cases isNACKed)
    case True
    then have e: "m1 = time_correction asn c ((w self)\<lparr>schedule := (schedule (w self))
                   (ts \<mapsto> c\<lparr>numTxAck := numTxAck c + 1, history := history c @ [1]\<rparr>)\<rparr>)"
      by (simp add: m1_def c1_def)
    show ?thesis
      unfolding if_P [OF True] txDone_nacked_def Let_def e [symmetric]
      by (simp add: m1 rd)
  next
    case False
    then have e: "m1 = (w self)\<lparr>schedule := (schedule (w self))(ts \<mapsto> c\<lparr>history := history c @ [0]\<rparr>)\<rparr>"
      by (simp add: m1_def c1_def)
    show ?thesis
      unfolding if_not_P [OF False] txDone_failed_def Let_def e [symmetric]
      by (simp add: m1 rd)
  qed
  have m3: "schedule m3 = (schedule (w self))(ts \<mapsto> c1)" "pktToSend m3 = Some a"
    "pkts m3 = pkts (dec_retriesLeft (w self) a)"
    "txQueue m3 = (if D then q else a # q)"
    "motestats m3 = (if D then (motestats (w self))(droppedMacRetries := motestats (w self) droppedMacRetries + 1)
          else motestats (w self))"
    by (simp_all add: m3_def m1 incrementMoteStats_def)
  have s3: "schedule ((w(self := m3)) self) ts = Some c1"
    by (simp add: m3)
  have nb1: "neighbor c1 = Some r"
    by (simp add: c1_def nb)
  from txDone_end_succeeds [where w = "w(self := m3)" and self = self and st = st and ms = ms, OF s3 nb1] obtain v where
    en: "txDone_end st ms ts (w(self := m3)) self =
      Inr (w(self := m3\<lparr>waitingFor := (if queuing st = 0 then None else Some DIR_SHARED),
           schedule := (schedule m3)(ts \<mapsto> c1\<lparr>debug_canbeInterfered := debug_canbeInterfered c1 @ [v]\<rparr>)\<rparr>))"
    by auto
  have "txDone st asn delay ms w self False isNACKed =
      Inr (w(self := m3\<lparr>waitingFor := (if queuing st = 0 then None else Some DIR_SHARED),
           schedule := (schedule m3)(ts \<mapsto> c1\<lparr>debug_canbeInterfered := debug_canbeInterfered c1 @ [v]\<rparr>)\<rparr>))"
    unfolding txDone_def Let_def ts_def [symmetric]
    using sf d wf by (simp add: c [folded ts_def] br en)
  then show ?thesis
    unfolding ts_def [symmetric] D_def [symmetric]
    by (intro exI [of _ "m3\<lparr>waitingFor := (if queuing st = 0 then None else Some DIR_SHARED),
           schedule := (schedule m3)(ts \<mapsto> c1\<lparr>debug_canbeInterfered := debug_canbeInterfered c1 @ [v]\<rparr>)\<rparr>"]
          exI [of _ v]) (simp add: m3 c1_def)
qed

lemma txDone_run_data:
  assumes sf: "slotframeLength st \<noteq> 0" and qu: "queuing st \<noteq> 0"
    and evs: "\<forall>e\<in>set evs. fst e mod slotframeLength st = ts \<and> \<not> fst (snd e)"
    and c: "schedule (w self) ts = Some c"
    and d: "dir c = DIR_TX \<or> dir c = DIR_SHARED"
    and wf: "waitingFor (w self) = Some DIR_TX \<or> waitingFor (w self) = Some DIR_SHARED"
    and nb: "neighbor c = Some r"
    and p: "pktToSend (w self) = Some a"
    and ty: "p_type (pkts (w self) a) = DATA"
    and q: "txQueue (w self) = a # q"
    and len: "length (a # q) \<noteq> TSCH_QUEUE_SIZE"
  shows "\<exists>w' c'. txDone_run st delay ms w self evs = Inr w' \<and> schedule (w' self) ts = Some c'
    \<and> length (history c') = length (history c) + length evs"
  using evs c d wf nb p ty q
proof (induction evs arbitrary: w c)
  case Nil
  then show ?case by simp
next
  case (Cons e evs)
  obtain asn ack nack where e: "e = (asn, ack, nack)"
    by (cases e) auto
  from Cons.prems(1) e have asn: "asn mod slotframeLength st = ts" and ack: "ack = False"
    by auto
  have c': "schedule (w self) (asn mod slotframeLength st) = Some c"
    using Cons.prems(2) asn by simp
  from txDone_data_step [where w = w and self = self and delay = delay and ms = ms
      and isNACKed = nack, OF sf c' Cons.prems(3) Cons.prems(4) Cons.prems(5) Cons.prems(6)
      Cons.prems(7) Cons.prems(8)]
  obtain m' v where
    run: "txDone st asn delay ms w self False nack = Inr (w(self := m'))"
    and s: "schedule m' = (schedule (w self))(ts \<mapsto>
          c\<lparr>numTxAck := (if nack then numTxAck c + 1 else numTxAck c),
            history := history c @ [if nack then 1 else 0],
            debug_canbeInterfered := debug_canbeInterfered c @ [v]\<rparr>)"
    and pk: "pkts m' = pkts (dec_retriesLeft (w self) a)"
    and tq: "txQueue m' = a # q"
    and ps: "pktToSend m' = Some a"
    and wt: "waitingFor m' = Some DIR_SHARED"
    using len qu unfolding asn by auto
  define c2 where "c2 = c\<lparr>numTxAck := (if nack then numTxAck c + 1 else numTxAck c),
            history := history c @ [if nack then 1 else 0],
            debug_canbeInterfered := debug_canbeInterfered c @ [v]\<rparr>"
  have "\<exists>w' c'. txDone_run st delay ms (w(self := m')) self evs = Inr w'
      \<and> schedule (w' self) ts = Some c'
      \<and> length (history c') = length (history c2) + length evs"
  proof (rule Cons.IH)
    show "\<forall>e\<in>set evs. fst e mod slotframeLength st = ts \<and> \<not> fst (snd e)"
      using Cons.prems(1) by simp
    show "schedule ((w(self := m')) self) ts = Some c2"
      by (simp add: s c2_def)
    show "dir c2 = DIR_TX \<or> dir c2 = DIR_SHARED"
      using Cons.prems(3) by (simp add: c2_def)
    show "waitingFor ((w(self := m')) self) = Some DIR_TX \<or> waitingFor ((w(self := m')) self) = Some DIR_SHARED"
      by (simp add: wt)
    show "neighbor c2 = Some r"
      using Cons.prems(5) by (simp add: c2_def)
    show "pktToSend ((w(self := m')) self) = Some a"
      by (simp add: ps)
    show "p_type (pkts ((w(self := m')) self) a) = DATA"
      using Cons.prems(7) by (simp add: pk)
    show "txQueue ((w(self := m')) self) = a # q"
      by (simp add: tq)
  qed
  then show ?case
    by (simp add: e ack run c2_def)
qed

lemma sender_fields:
  "schedule (sender r rest) 7 = Some (added_cell 0 3 DIR_TX 2)"
  "waitingFor (sender r rest) = Some DIR_TX" "pktToSend (sender r rest) = Some 0"
  "pkts (sender r rest) 0 = data_packet r" "txQueue (sender r rest) = 0 # rest"
  "motestats (sender r rest) = (\<lambda>_. 0)"
  by (simp_all add: sender_def tsch_addCells_fields booted_more_fields)

lemma added_cell_fields:
  "dir (added_cell asn c d nb) = d" "neighbor (added_cell asn c d nb) = Some nb"
  "history (added_cell asn c d nb) = []"
  by (simp_all add: added_cell_def)

subsection \<open>C2: the transmission history of a cell\<close>

text \<open>
  C2, as the code has it. A call of \<^verbatim>\<open>txDone\<close> that returns appends exactly one
  outcome to the history of the cell of the slot, 1 when the packet was acknowledged or
  negatively acknowledged and 0 otherwise, and drops nothing from it: the stored history
  grows by one entry at every transmission. No other cell of any mote gets a new
  history: a cell found elsewhere afterwards was there before, unchanged. Only the slice
  \<^verbatim>\<open>cell['history'][-NUM_MAX_HISTORY:]\<close> that the 6top housekeeping reads is bounded: it
  holds the last entries, at most \<open>NUM_MAX_HISTORY = 32\<close> of them.
\<close>

theorem txDone_appends_history:
  assumes "txDone st asn delay ms w self isACKed isNACKed = Inr w'"
  shows "\<exists>c c'. schedule (w self) (asn mod slotframeLength st) = Some c
    \<and> schedule (w' self) (asn mod slotframeLength st) = Some c'
    \<and> history c' = history c @ [if isACKed \<or> isNACKed then 1 else 0]
    \<and> length (recentHistory c') = min (Suc (length (history c))) NUM_MAX_HISTORY
    \<and> (\<forall>x t e. (x \<noteq> self \<or> t \<noteq> asn mod slotframeLength st) \<longrightarrow> schedule (w' x) t = Some e
          \<longrightarrow> schedule (w x) t = Some e)"
proof -
  define ts where "ts = asn mod slotframeLength st"
  from assms obtain c w1 where c: "schedule (w self) ts = Some c"
    and br: "(if isACKed
                    then ebind (txDone_acked st asn ts c (w self)) (\<lambda>m. Inr (w(self := m)))
                    else if isNACKed then txDone_nacked st asn delay ts c w self
                    else txDone_failed st delay ts c w self) = Inr w1"
    and en: "txDone_end st ms ts w1 self = Inr w'"
    unfolding txDone_def Let_def ts_def [symmetric]
    by (auto simp: ebind_Inr_iff split: if_splits option.splits)
  have "\<exists>c1. history c1 = history c @ [if isACKed \<or> isNACKed then 1 else 0]
      \<and> (\<forall>x. schedule (w1 x) \<subseteq>\<^sub>m (if x = self then (schedule (w self))(ts \<mapsto> c1) else schedule (w x)))"
  proof (cases isACKed)
    case True
    with br obtain m where a: "txDone_acked st asn ts c (w self) = Inr m" and w1: "w1 = w(self := m)"
      by (auto simp: ebind_Inr_iff)
    show ?thesis
      by (rule exI [of _ "c\<lparr>numTxAck := numTxAck c + 1, history := history c @ [1]\<rparr>"])
        (simp add: True w1 txDone_acked_schedule [OF a])
  next
    case False
    show ?thesis
    proof (cases isNACKed)
      case True
      with br False have n: "txDone_nacked st asn delay ts c w self = Inr w1"
        by simp
      show ?thesis
        by (rule exI [of _ "c\<lparr>numTxAck := numTxAck c + 1, history := history c @ [1]\<rparr>"])
          (simp add: True txDone_nacked_schedule_le [OF n])
    next
      case nn: False
      with br False have n: "txDone_failed st delay ts c w self = Inr w1"
        by simp
      show ?thesis
        by (rule exI [of _ "c\<lparr>history := history c @ [0]\<rparr>"])
          (simp add: False nn txDone_failed_schedule_le [OF n])
    qed
  qed
  then obtain c1 where h1: "history c1 = history c @ [if isACKed \<or> isNACKed then 1 else 0]"
    and le: "\<And>x. schedule (w1 x) \<subseteq>\<^sub>m (if x = self then (schedule (w self))(ts \<mapsto> c1) else schedule (w x))"
    by blast
  from txDone_end_result [OF en] obtain c2 v where c2: "schedule (w1 self) ts = Some c2"
    and w': "w' = w1(self := (w1 self)
          \<lparr>waitingFor := (if queuing st = 0 then None else Some DIR_SHARED),
           schedule := (schedule (w1 self))
             (ts \<mapsto> c2\<lparr>debug_canbeInterfered := debug_canbeInterfered c2 @ [v]\<rparr>)\<rparr>)"
    by blast
  from le [of self] c2 have "c2 = c1"
    by (auto simp: map_le_def dom_def split: if_splits)
  then have c': "schedule (w' self) ts = Some (c1\<lparr>debug_canbeInterfered := debug_canbeInterfered c1 @ [v]\<rparr>)"
    by (simp add: w')
  have other: "schedule (w x) t = Some e" if "x \<noteq> self \<or> t \<noteq> ts" and "schedule (w' x) t = Some e" for x t e
  proof (cases "x = self")
    case True
    with that have t: "t \<noteq> ts" and "schedule (w1 self) t = Some e"
      by (simp_all add: w')
    with le [of self] show ?thesis
      by (auto simp: True map_le_def dom_def split: if_splits)
  next
    case False
    with that have "schedule (w1 x) t = Some e"
      by (simp add: w')
    with le [of x] False show ?thesis
      by (auto simp: map_le_def dom_def)
  qed
  have len: "length (recentHistory (c1\<lparr>debug_canbeInterfered := debug_canbeInterfered c1 @ [v]\<rparr>)) =
      min (Suc (length (history c))) NUM_MAX_HISTORY"
    by (simp add: recentHistory_def h1)
  show ?thesis
    unfolding ts_def [symmetric]
    using c c' h1 len other by auto
qed

text \<open>
  A run of the theorem: the first negatively acknowledged transmission of a DATA packet
  on a fresh dedicated cell.
\<close>

theorem txDone_appends_history_witness:
  "\<exists>w' c'. txDone st_shared 7 0 [2, 4] (w_tx 5 []) 4 False True = Inr w'
     \<and> schedule (w_tx 5 [] 4) 7 = Some (added_cell 0 3 DIR_TX 2)
     \<and> schedule (w' 4) 7 = Some c' \<and> history c' = [1] \<and> length (recentHistory c') = 1"
proof -
  have c: "schedule (w_tx 5 [] 4) (7 mod slotframeLength st_shared) = Some (added_cell 0 3 DIR_TX 2)"
    by (simp add: w_tx_def sender_fields st_shared_def)
  from txDone_data_step [where st = st_shared and asn = 7 and w = "w_tx 5 []" and self = 4
      and a = 0 and q = "[]" and r = 2 and delay = 0 and ms = "[2, 4]" and isNACKed = True, OF _ c]
  obtain w' where run: "txDone st_shared 7 0 [2, 4] (w_tx 5 []) 4 False True = Inr w'"
    by (auto simp: w_tx_def sender_fields added_cell_fields data_packet_def st_shared_def)
  have ts: "(7::nat) mod slotframeLength st_shared = 7"
    by (simp add: st_shared_def)
  from txDone_appends_history [OF run] c show ?thesis
    unfolding ts by (auto simp: run added_cell_fields NUM_MAX_HISTORY_def)
qed

text \<open>
  The claim fails on a cell that is used more than 32 times. Mote 4 has one DATA packet
  in its data queue and a fresh dedicated cell to mote 2 at slot 7 of a slotframe of 10
  slots. The transmission fails in 33 slotframes in a row, at ASN 7, 17, ..., 327: the
  packet stays in the queue, which is not full, and every call of \<^verbatim>\<open>txDone\<close> passes its
  assertions and appends a 0. The cell's history then has 33 entries.
\<close>

theorem history_counterexample:
  "history_length (Inr (w_tx 5 [])) 4 7 = Some 0
   \<and> history_length
       (txDone_run st_shared 0 [2, 4] (w_tx 5 []) 4 (map (\<lambda>k. (7 + 10 * k, False, False)) [0..<33]))
       4 7 = Some 33
   \<and> \<not> (33 \<le> NUM_MAX_HISTORY)"
proof -
  have c: "schedule (w_tx 5 [] 4) 7 = Some (added_cell 0 3 DIR_TX 2)"
    by (simp add: w_tx_def sender_fields)
  have evs: "\<forall>e\<in>set (map (\<lambda>k. (7 + 10 * k, False, False)) [0..<33]).
      fst e mod slotframeLength st_shared = 7 \<and> \<not> fst (snd e)"
    by (simp add: st_shared_def)
  have "\<exists>w' c'. txDone_run st_shared 0 [2, 4] (w_tx 5 []) 4 (map (\<lambda>k. (7 + 10 * k, False, False)) [0..<33]) = Inr w'
      \<and> schedule (w' 4) 7 = Some c'
      \<and> length (history c') = length (history (added_cell 0 3 DIR_TX 2))
          + length (map (\<lambda>k. (7 + 10 * k, False, False)) [0..<33])"
    by (rule txDone_run_data [where st = st_shared and w = "w_tx 5 []" and self = 4 and ts = 7
          and r = 2 and a = 0 and q = "[]", OF _ _ evs c])
      (simp_all add: w_tx_def sender_fields added_cell_fields data_packet_def st_shared_def
        TSCH_QUEUE_SIZE_def)
  then have "history_length
       (txDone_run st_shared 0 [2, 4] (w_tx 5 []) 4 (map (\<lambda>k. (7 + 10 * k, False, False)) [0..<33]))
       4 7 = Some 33"
    by (auto simp: history_length_def added_cell_fields)
  moreover have "history_length (Inr (w_tx 5 [])) 4 7 = Some 0"
    by (simp add: history_length_def c added_cell_fields)
  ultimately show ?thesis
    by (simp add: NUM_MAX_HISTORY_def)
qed

subsection \<open>C3: retries of a DATA packet\<close>

text \<open>
  C3, as the code has it. \<^verbatim>\<open>txDone\<close> runs without an acknowledgement for the DATA
  packet at the head of the data queue, on a cell with a neighbor, with its assertions
  met. The call returns; the packet's \<^verbatim>\<open>retriesLeft\<close> is decremented if it was positive
  and is unchanged otherwise. The packet is removed from the data queue and
  \<^verbatim>\<open>droppedMacRetries\<close> is incremented exactly when \<^verbatim>\<open>retriesLeft\<close> is 0 afterwards
  and the data queue holds \<open>TSCH_QUEUE_SIZE = 50\<close> packets at that moment; for every other
  occupancy the packet stays in the queue and the statistic is unchanged.
\<close>

theorem txDone_data_retry:
  assumes "slotframeLength st \<noteq> 0"
    and "schedule (w self) (asn mod slotframeLength st) = Some c"
    and "dir c = DIR_TX \<or> dir c = DIR_SHARED"
    and "waitingFor (w self) = Some DIR_TX \<or> waitingFor (w self) = Some DIR_SHARED"
    and "neighbor c = Some r"
    and "pktToSend (w self) = Some a"
    and "p_type (pkts (w self) a) = DATA"
    and "txQueue (w self) = a # q"
  shows "\<exists>w'. txDone st asn delay ms w self False isNACKed = Inr w'
    \<and> retriesLeft (pkts (w' self) a) =
        (if retriesLeft (pkts (w self) a) > 0 then retriesLeft (pkts (w self) a) - 1
         else retriesLeft (pkts (w self) a))
    \<and> (if retriesLeft (pkts (w' self) a) = 0 \<and> length (txQueue (w self)) = TSCH_QUEUE_SIZE
        then txQueue (w' self) = q
          \<and> motestats (w' self) droppedMacRetries = motestats (w self) droppedMacRetries + 1
        else txQueue (w' self) = txQueue (w self)
          \<and> motestats (w' self) droppedMacRetries = motestats (w self) droppedMacRetries)"
proof -
  from txDone_data_step [where w = w and self = self and delay = delay and ms = ms
      and isNACKed = isNACKed, OF assms]
  obtain m' where run: "txDone st asn delay ms w self False isNACKed = Inr (w(self := m'))"
    and pk: "pkts m' = pkts (dec_retriesLeft (w self) a)"
    and tq: "txQueue m' =
         (if retriesLeft (pkts (dec_retriesLeft (w self) a) a) = 0 \<and> length (a # q) = TSCH_QUEUE_SIZE
          then q else a # q)"
    and ms: "motestats m' =
         (if retriesLeft (pkts (dec_retriesLeft (w self) a) a) = 0 \<and> length (a # q) = TSCH_QUEUE_SIZE
          then (motestats (w self))(droppedMacRetries := motestats (w self) droppedMacRetries + 1)
          else motestats (w self))"
    by blast
  have r: "retriesLeft (pkts (dec_retriesLeft (w self) a) a) =
        (if retriesLeft (pkts (w self) a) > 0 then retriesLeft (pkts (w self) a) - 1
         else retriesLeft (pkts (w self) a))"
    by (simp add: dec_retriesLeft_def)
  have "retriesLeft (pkts ((w(self := m')) self) a) =
        (if retriesLeft (pkts (w self) a) > 0 then retriesLeft (pkts (w self) a) - 1
         else retriesLeft (pkts (w self) a))
    \<and> (if retriesLeft (pkts ((w(self := m')) self) a) = 0 \<and> length (txQueue (w self)) = TSCH_QUEUE_SIZE
        then txQueue ((w(self := m')) self) = q
          \<and> motestats ((w(self := m')) self) droppedMacRetries = motestats (w self) droppedMacRetries + 1
        else txQueue ((w(self := m')) self) = txQueue (w self)
          \<and> motestats ((w(self := m')) self) droppedMacRetries = motestats (w self) droppedMacRetries)"
    unfolding fun_upd_same pk tq ms assms(8) r [symmetric] by simp
  with run show ?thesis
    by blast
qed

text \<open>
  A run of the theorem with a full data queue: the packet at the head has one retry
  left and 49 packets wait behind it. The negative acknowledgement uses the last retry,
  the packet is dropped and counted.
\<close>

theorem txDone_data_retry_witness:
  "length (txQueue (w_tx 1 [2..<51] 4)) = TSCH_QUEUE_SIZE
   \<and> (\<exists>w'. txDone st_shared 7 0 [2, 4] (w_tx 1 [2..<51]) 4 False True = Inr w'
        \<and> retriesLeft (pkts (w' 4) 0) = 0 \<and> txQueue (w' 4) = [2..<51]
        \<and> motestats (w' 4) droppedMacRetries = 1)"
proof -
  have c: "schedule (w_tx 1 [2..<51] 4) (7 mod slotframeLength st_shared) = Some (added_cell 0 3 DIR_TX 2)"
    by (simp add: w_tx_def sender_fields st_shared_def)
  have f: "slotframeLength st_shared \<noteq> 0"
    "dir (added_cell 0 3 DIR_TX 2) = DIR_TX \<or> dir (added_cell 0 3 DIR_TX 2) = DIR_SHARED"
    "waitingFor (w_tx 1 [2..<51] 4) = Some DIR_TX \<or> waitingFor (w_tx 1 [2..<51] 4) = Some DIR_SHARED"
    "neighbor (added_cell 0 3 DIR_TX 2) = Some 2"
    "pktToSend (w_tx 1 [2..<51] 4) = Some 0"
    "p_type (pkts (w_tx 1 [2..<51] 4) 0) = DATA"
    "txQueue (w_tx 1 [2..<51] 4) = 0 # [2..<51]"
    by (simp_all add: w_tx_def sender_fields added_cell_fields data_packet_def st_shared_def)
  have g: "retriesLeft (pkts (w_tx 1 [2..<51] 4) 0) = 1"
    "motestats (w_tx 1 [2..<51] 4) droppedMacRetries = 0"
    "length (txQueue (w_tx 1 [2..<51] 4)) = TSCH_QUEUE_SIZE"
    by (simp_all add: w_tx_def sender_fields data_packet_def TSCH_QUEUE_SIZE_def)
  from txDone_data_retry [where st = st_shared and asn = 7 and w = "w_tx 1 [2..<51]" and self = 4
      and delay = 0 and ms = "[2, 4]" and isNACKed = True, OF f(1) c f(2) f(3) f(4) f(5) f(6) f(7)]
  show ?thesis
    unfolding g by auto
qed

text \<open>
  The claim fails whenever the data queue is not full. The same packet with its last
  retry, alone in the data queue: after the negative acknowledgement \<^verbatim>\<open>retriesLeft\<close> is
  0, the packet is still the only element of the data queue and \<^verbatim>\<open>droppedMacRetries\<close>
  is still 0. The same happens when neither an ACK nor a NACK came.
\<close>

theorem data_retry_counterexample:
  "queue_after (Inr (w_tx 1 [])) 4 0 = Some (1, [0], 0)
   \<and> queue_after (txDone st_shared 7 0 [2, 4] (w_tx 1 []) 4 False True) 4 0 = Some (0, [0], 0)
   \<and> queue_after (txDone st_shared 7 0 [2, 4] (w_tx 1 []) 4 False False) 4 0 = Some (0, [0], 0)"
proof -
  have c: "schedule (w_tx 1 [] 4) (7 mod slotframeLength st_shared) = Some (added_cell 0 3 DIR_TX 2)"
    by (simp add: w_tx_def sender_fields st_shared_def)
  have f: "slotframeLength st_shared \<noteq> 0"
    "dir (added_cell 0 3 DIR_TX 2) = DIR_TX \<or> dir (added_cell 0 3 DIR_TX 2) = DIR_SHARED"
    "waitingFor (w_tx 1 [] 4) = Some DIR_TX \<or> waitingFor (w_tx 1 [] 4) = Some DIR_SHARED"
    "neighbor (added_cell 0 3 DIR_TX 2) = Some 2"
    "pktToSend (w_tx 1 [] 4) = Some 0"
    "p_type (pkts (w_tx 1 [] 4) 0) = DATA"
    "txQueue (w_tx 1 [] 4) = [0]"
    by (simp_all add: w_tx_def sender_fields added_cell_fields data_packet_def st_shared_def)
  have g: "pkts (dec_retriesLeft (w_tx 1 [] 4) 0) 0 = data_packet 0"
    "motestats (w_tx 1 [] 4) droppedMacRetries = 0"
    "retriesLeft (pkts (w_tx 1 [] 4) 0) = 1"
    by (simp_all add: dec_retriesLeft_def w_tx_def sender_fields data_packet_def)
  have "queue_after (txDone st_shared 7 0 [2, 4] (w_tx 1 []) 4 False n) 4 0 = Some (0, [0], 0)" for n
  proof -
    from txDone_data_step [where st = st_shared and asn = 7 and w = "w_tx 1 []" and self = 4
      and delay = 0 and ms = "[2, 4]" and isNACKed = n, OF f(1) c f(2) f(3) f(4) f(5) f(6) f(7)]
    obtain m' where run: "txDone st_shared 7 0 [2, 4] (w_tx 1 []) 4 False n = Inr ((w_tx 1 [])(4 := m'))"
      and pk: "pkts m' = pkts (dec_retriesLeft (w_tx 1 [] 4) 0)"
      and tq: "txQueue m' = [0]" and ms: "motestats m' = motestats (w_tx 1 [] 4)"
      by (auto simp: TSCH_QUEUE_SIZE_def)
    show ?thesis
      by (simp add: queue_after_def run pk tq ms g data_packet_def)
  qed
  moreover have "queue_after (Inr (w_tx 1 [])) 4 0 = Some (1, [0], 0)"
    by (simp add: queue_after_def f g)
  ultimately show ?thesis
    by simp
qed

end
